(* ===== verification/Prelude.thy ===== *)
theory Prelude
  imports
    "HOL-Library.AList"
    "HOL-Library.Stream"
    "HOL-Library.Word"
begin

text \<open>
  Shared vocabulary of the development: the machine types of the Go sources (bytes,
  fixed-width integers, instants, durations, UUIDs), the errors the packages of
  \<^verbatim>\<open>internal/\<close> exchange, the outside world a request runs in (clock, entropy, UUID
  generator, log) and the functions of Go's \<^verbatim>\<open>strings\<close> package that the sources call.
  The collections \<open>go_string\<close>, \<open>codec\<close> and \<open>store_simps\<close> carry the component proofs.
\<close>

named_theorems go_string \<open>facts about the modelled functions of package strings\<close>
named_theorems codec \<open>round trips and shapes of the text encodings\<close>
named_theorems store_simps \<open>the abstract effect of the store operations\<close>

section \<open>Machine types\<close>

text \<open>
  A Go \<^verbatim>\<open>string\<close> is a sequence of bytes, as is HOL's \<^typ>\<open>string\<close>. A \<^verbatim>\<open>[]byte\<close> is a list
  of 8-bit words. \<^verbatim>\<open>time.Time\<close> is an instant in nanoseconds and \<^verbatim>\<open>time.Duration\<close> a signed
  number of nanoseconds.
\<close>

type_synonym byte = "8 word"
type_synonym bytes = "byte list"
type_synonym u32 = "32 word"
type_synonym u8 = "8 word"
type_synonym instant = int
type_synonym duration = int
type_synonym uuid = "128 word"

definition Second :: duration where "Second = 1000000000"
definition Minute :: duration where "Minute = 60 * Second"
definition Hour :: duration where "Hour = 60 * Minute"

lemma duration_units:
  "Second = 1000000000" "Minute = 60000000000" "Hour = 3600000000000"
  by (simp_all add: Second_def Minute_def Hour_def)

definition byte_of_char :: "char \<Rightarrow> byte" where
  "byte_of_char c = of_nat (of_char c)"

definition char_of_byte :: "byte \<Rightarrow> char" where
  "char_of_byte b = char_of (unat b)"

definition bytes_of_string :: "string \<Rightarrow> bytes" where
  "bytes_of_string s = map byte_of_char s"

definition string_of_bytes :: "bytes \<Rightarrow> string" where
  "string_of_bytes b = map char_of_byte b"

lemma unat_byte_of_char: "unat (byte_of_char c) = of_char c"
proof -
  have "of_char c < (256 :: nat)" by (metis nat_of_char_less_256)
  then show ?thesis by (simp add: byte_of_char_def unat_of_nat)
qed

lemma char_of_byte_of_char [codec]: "char_of_byte (byte_of_char c) = c"
  by (simp add: char_of_byte_def unat_byte_of_char)

lemma byte_of_char_of_byte [codec]: "byte_of_char (char_of_byte b) = b"
proof -
  have "unat b < 256" using unsigned_less [of b] by simp
  then have "of_char (char_of (unat b)) = unat b" by simp
  then show ?thesis by (simp add: byte_of_char_def char_of_byte_def)
qed

lemma string_of_bytes_of_string [codec]: "string_of_bytes (bytes_of_string s) = s"
  by (simp add: string_of_bytes_def bytes_of_string_def o_def codec)

lemma bytes_of_string_inject: "bytes_of_string s = bytes_of_string t \<longleftrightarrow> s = t"
  by (metis string_of_bytes_of_string)

section \<open>Errors\<close>

text \<open>
  One value per sentinel error of the sources, \<open>Other\<close> for an error known by its message
  only and \<open>PgError\<close> for a \<^verbatim>\<open>pgconn.PgError\<close> with its SQLSTATE code. Two further values are
  no Go errors but ways a call can fail to return: \<open>Panicked\<close> and \<open>Diverged\<close> (an endless
  loop). A caller cannot handle those, so the model hands them on where the code handles or
  drops an error: \<open>abrupt\<close> singles them out.
\<close>

datatype err =
    ErrNotFound
  | ErrDuplicateUsername
  | ErrInvalidCredentials
  | ErrAccountDisabled
  | ErrInvalidSession
  | ErrWrongPassword
  | ErrInvalidToken string
  | PgError string
  | Other string
  | Panicked
  | Diverged

definition abrupt :: "err \<Rightarrow> bool" where
  "abrupt e \<longleftrightarrow> e = Panicked \<or> e = Diverged"

lemma abrupt_simps [simp]:
  "abrupt Panicked" "abrupt Diverged" "\<not> abrupt ErrNotFound" "\<not> abrupt ErrDuplicateUsername"
  "\<not> abrupt ErrInvalidCredentials" "\<not> abrupt ErrAccountDisabled" "\<not> abrupt ErrInvalidSession"
  "\<not> abrupt ErrWrongPassword" "\<not> abrupt (ErrInvalidToken m)" "\<not> abrupt (PgError c)"
  "\<not> abrupt (Other m)"
  by (simp_all add: abrupt_def)

section \<open>The world of a request\<close>

text \<open>
  Everything an operation reads or changes besides its arguments: the state \<open>db\<close> of the
  store behind the service, the successive readings of the clock, the successive answers of
  \<^verbatim>\<open>crypto/rand.Read\<close> (\<open>None\<close>: the read failed), the successive UUIDs of
  \<^verbatim>\<open>uuid.NewV7\<close> (\<open>None\<close>: it failed) and the structured log. The clock is an arbitrary
  stream: nothing is assumed of it, not even that it is monotone.
\<close>

datatype log_level = Info | Warn | Error
datatype log_value = LogStr string | LogUUID uuid | LogErr err

record log_rec =
  l_level :: log_level
  l_msg :: string
  l_attrs :: "(string \<times> log_value) list"

record 'd world =
  db :: 'd
  clock :: "instant stream"
  entropy :: "(nat \<Rightarrow> byte) option stream"
  uuids :: "uuid option stream"
  logs :: "log_rec list"

type_synonym ('d, 'a) io = "'d world \<Rightarrow> (err + 'a) \<times> 'd world"

definition time_now :: "'d world \<Rightarrow> instant \<times> 'd world" where
  "time_now w = (shd (clock w), w\<lparr>clock := stl (clock w)\<rparr>)"

definition rand_read :: "nat \<Rightarrow> ('d, bytes) io" where
  "rand_read n w =
     (let w' = w\<lparr>entropy := stl (entropy w)\<rparr> in
      case shd (entropy w) of
        None \<Rightarrow> (Inl (Other ''rand''), w')
      | Some f \<Rightarrow> (Inr (map f [0..<n]), w'))"

text \<open>
  The stream \<open>uuids\<close> holds the ids drawn one after the other, by \<^verbatim>\<open>uuid.NewV7\<close> (users, sessions)
  and by \<^verbatim>\<open>uuid.NewString\<close> (token ids), \<open>None\<close> where the source of random bytes fails.
\<close>

definition uuid_NewV7 :: "('d, uuid) io" where
  "uuid_NewV7 w =
     (let w' = w\<lparr>uuids := stl (uuids w)\<rparr> in
      case shd (uuids w) of None \<Rightarrow> (Inl (Other ''uuid''), w') | Some u \<Rightarrow> (Inr u, w'))"

definition log_event :: "log_level \<Rightarrow> string \<Rightarrow> (string \<times> log_value) list \<Rightarrow> 'd world \<Rightarrow> 'd world" where
  "log_event lv msg attrs w =
     w\<lparr>logs := logs w @ [\<lparr>l_level = lv, l_msg = msg, l_attrs = attrs\<rparr>]\<rparr>"

lemma log_event_fields [simp]:
  "db (log_event lv m as w) = db w" "clock (log_event lv m as w) = clock w"
  "entropy (log_event lv m as w) = entropy w" "uuids (log_event lv m as w) = uuids w"
  by (simp_all add: log_event_def)

lemma rand_read_db [simp]: "db (snd (rand_read n w)) = db w"
  by (simp add: rand_read_def Let_def split: option.splits)

lemma rand_read_length: "rand_read n w = (Inr b, w') \<Longrightarrow> length b = n"
  by (auto simp: rand_read_def Let_def split: option.splits)

section \<open>Package strings\<close>

text \<open>\<^verbatim>\<open>strings.Split\<close> with a one-character separator, and \<^verbatim>\<open>strings.Join\<close>.\<close>

fun split_on :: "char \<Rightarrow> string \<Rightarrow> string list" where
  "split_on c [] = [[]]"
| "split_on c (x # xs) =
     (if x = c then [] # split_on c xs
      else (case split_on c xs of [] \<Rightarrow> [[x]] | p # ps \<Rightarrow> (x # p) # ps))"

fun join_with :: "char \<Rightarrow> string list \<Rightarrow> string" where
  "join_with c [] = []"
| "join_with c [p] = p"
| "join_with c (p # q # ps) = p @ c # join_with c (q # ps)"

text \<open>\<^verbatim>\<open>strings.CutPrefix\<close>, \<^verbatim>\<open>strings.TrimSuffix\<close>, \<^verbatim>\<open>strings.Cut\<close> at a character.\<close>

fun cut_prefix :: "string \<Rightarrow> string \<Rightarrow> string option" where
  "cut_prefix [] s = Some s"
| "cut_prefix (p # ps) [] = None"
| "cut_prefix (p # ps) (x # xs) = (if p = x then cut_prefix ps xs else None)"

definition trim_suffix :: "string \<Rightarrow> string \<Rightarrow> string" where
  "trim_suffix s suf =
     (case cut_prefix (rev suf) (rev s) of None \<Rightarrow> s | Some r \<Rightarrow> rev r)"

fun cut_at :: "char \<Rightarrow> string \<Rightarrow> (string \<times> string) option" where
  "cut_at c [] = None"
| "cut_at c (x # xs) =
     (if x = c then Some ([], xs)
      else map_option (\<lambda>(a, b). (x # a, b)) (cut_at c xs))"

lemma split_on_nonempty [simp]: "split_on c s \<noteq> []"
  by (cases s) (auto split: list.splits)

lemma split_on_no_sep [go_string]: "c \<notin> set s \<Longrightarrow> split_on c s = [s]"
  by (induction s) auto

lemma split_on_append [go_string]:
  "c \<notin> set p \<Longrightarrow> split_on c (p @ c # s) = p # split_on c s"
  by (induction p) auto

lemma split_on_parts_no_sep: "p \<in> set (split_on c s) \<Longrightarrow> c \<notin> set p"
  by (induction s arbitrary: p) (auto split: if_splits list.splits)

lemma join_split [go_string]: "join_with c (split_on c s) = s"
proof (induction s)
  case (Cons x s)
  then show ?case
    by (cases "split_on c s"; cases "tl (split_on c s)") (auto split: list.splits)
qed simp

lemma split_join [go_string]:
  "ps \<noteq> [] \<Longrightarrow> \<forall>p \<in> set ps. c \<notin> set p \<Longrightarrow> split_on c (join_with c ps) = ps"
  by (induction c ps rule: join_with.induct) (auto simp: split_on_no_sep split_on_append)

lemma cut_prefix_Some [go_string]: "cut_prefix p s = Some r \<longleftrightarrow> s = p @ r"
  by (induction p s rule: cut_prefix.induct) auto

lemma cut_prefix_append [simp]: "cut_prefix p (p @ r) = Some r"
  by (simp add: cut_prefix_Some)

lemma cut_prefix_None: "cut_prefix p s = None \<longleftrightarrow> (\<forall>r. s \<noteq> p @ r)"
  using cut_prefix_Some [of p s] by (metis not_Some_eq)

lemma trim_suffix_append [go_string]: "trim_suffix (s @ suf) suf = s"
  by (simp add: trim_suffix_def)

lemma cut_at_append: "c \<notin> set a \<Longrightarrow> cut_at c (a @ c # b) = Some (a, b)"
  by (induction a) auto

lemma cut_at_None: "cut_at c s = None \<longleftrightarrow> c \<notin> set s"
  by (induction s) auto

lemma cut_at_Some: "cut_at c s = Some (a, b) \<Longrightarrow> s = a @ c # b \<and> c \<notin> set a"
  by (induction s arbitrary: a) (auto split: if_splits)

section \<open>Go maps as association lists\<close>

text \<open>
  A Go map is an association list with distinct keys; \<open>AList.update\<close> stores in place or
  appends. The list order stands for the order in which a \<^verbatim>\<open>range\<close> loop visits the map,
  which Go leaves open: a state with the same entries in another order is another list.
\<close>

definition vals :: "('k \<times> 'v) list \<Rightarrow> 'v list" where
  "vals m = map snd m"

lemma set_vals: "distinct (map fst m) \<Longrightarrow> set (vals m) = ran (map_of m)"
  by (simp add: vals_def ran_distinct)

lemma map_of_update [simp]: "map_of (AList.update k v m) = (map_of m)(k \<mapsto> v)"
  by (rule update_conv')

lemma distinct_keys_update [simp]:
  "distinct (map fst m) \<Longrightarrow> distinct (map fst (AList.update k v m))"
  by (simp add: distinct_update)

lemma find_None_set: "find P xs = None \<longleftrightarrow> (\<forall>x \<in> set xs. \<not> P x)"
  by (auto simp: find_None_iff)

lemma find_SomeD: "find P xs = Some x \<Longrightarrow> x \<in> set xs \<and> P x"
  by (auto simp: find_Some_iff)

lemma map_of_map_vals:
  "map_of (map (\<lambda>(k, v). (k, f k v)) m) = (\<lambda>k. map_option (f k) (map_of m k))"
  by (induction m) auto

text \<open>Maps whose values carry their own key.\<close>

lemma self_keyed:
  assumes "distinct (map fst m)" "\<And>i v. map_of m i = Some v \<Longrightarrow> key v = i"
  shows "map key (vals m) = map fst m" "distinct (vals m)" "v \<in> set (vals m) \<longleftrightarrow> map_of m (key v) = Some v"
proof -
  have "key (snd p) = fst p" if "p \<in> set m" for p
    using assms that by (metis map_of_is_SomeI prod.collapse)
  then show keys: "map key (vals m) = map fst m" by (simp add: vals_def)
  with assms(1) show "distinct (vals m)" by (metis distinct_map)
  show "v \<in> set (vals m) \<longleftrightarrow> map_of m (key v) = Some v"
    using assms by (auto simp: set_vals ran_def simp del: map_of_eq_Some_iff)
qed

end
