(* ===== verification/Codec.thy ===== *)
theory Codec
  imports Prelude
begin

text \<open>
  The two text codecs of Go's standard library the sources rely on: \<^verbatim>\<open>encoding/base64\<close>
  (the four predefined encodings) and the decimal verb of \<^verbatim>\<open>fmt.Sprintf\<close> / \<^verbatim>\<open>fmt.Sscanf\<close>.
  Main facts: decoding inverts encoding for every encoding, a raw and a padded text are
  never confused, and scanning a printed number gives the number back.
\<close>

section \<open>Base64\<close>

record b64_encoding =
  enc_alphabet :: string
  enc_pad :: "char option"

definition alnum :: string where
  "alnum = ''ABCDEFGHIJKLMNOPQRSTUVWXYZabcdefghijklmnopqrstuvwxyz0123456789''"

definition std_alphabet :: string where "std_alphabet = alnum @ ''+/''"
definition url_alphabet :: string where "url_alphabet = alnum @ ''-_''"

definition StdEncoding :: b64_encoding where
  "StdEncoding = \<lparr>enc_alphabet = std_alphabet, enc_pad = Some CHR ''=''\<rparr>"
definition RawStdEncoding :: b64_encoding where
  "RawStdEncoding = \<lparr>enc_alphabet = std_alphabet, enc_pad = None\<rparr>"
definition URLEncoding :: b64_encoding where
  "URLEncoding = \<lparr>enc_alphabet = url_alphabet, enc_pad = Some CHR ''=''\<rparr>"
definition RawURLEncoding :: b64_encoding where
  "RawURLEncoding = \<lparr>enc_alphabet = url_alphabet, enc_pad = None\<rparr>"

definition pad_chars :: "b64_encoding \<Rightarrow> nat \<Rightarrow> string" where
  "pad_chars enc n = (case enc_pad enc of None \<Rightarrow> [] | Some p \<Rightarrow> replicate n p)"

definition sextet :: "b64_encoding \<Rightarrow> nat \<Rightarrow> char" where
  "sextet enc i = enc_alphabet enc ! i"

text \<open>The four 6-bit groups of three bytes, and the three bytes of four such groups.\<close>

definition sx0 :: "byte \<Rightarrow> nat" where "sx0 a = unat a div 4"
definition sx1 :: "byte \<Rightarrow> byte \<Rightarrow> nat" where "sx1 a b = unat a mod 4 * 16 + unat b div 16"
definition sx2 :: "byte \<Rightarrow> byte \<Rightarrow> nat" where "sx2 b c = unat b mod 16 * 4 + unat c div 64"
definition sx3 :: "byte \<Rightarrow> nat" where "sx3 c = unat c mod 64"

definition by0 :: "nat \<Rightarrow> nat \<Rightarrow> byte" where "by0 x y = word_of_nat (x * 4 + y div 16)"
definition by1 :: "nat \<Rightarrow> nat \<Rightarrow> byte" where "by1 y z = word_of_nat (y mod 16 * 16 + z div 4)"
definition by2 :: "nat \<Rightarrow> nat \<Rightarrow> byte" where "by2 z v = word_of_nat (z mod 4 * 64 + v)"

fun b64_encode :: "b64_encoding \<Rightarrow> bytes \<Rightarrow> string" where
  "b64_encode enc [] = []"
| "b64_encode enc [a] = [sextet enc (sx0 a), sextet enc (sx1 a 0)] @ pad_chars enc 2"
| "b64_encode enc [a, b] =
     [sextet enc (sx0 a), sextet enc (sx1 a b), sextet enc (sx2 b 0)] @ pad_chars enc 1"
| "b64_encode enc (a # b # c # bs) =
     [sextet enc (sx0 a), sextet enc (sx1 a b), sextet enc (sx2 b c), sextet enc (sx3 c)]
     @ b64_encode enc bs"

fun index_of :: "char \<Rightarrow> string \<Rightarrow> nat option" where
  "index_of c [] = None"
| "index_of c (x # xs) = (if c = x then Some 0 else map_option Suc (index_of c xs))"

definition unsextet :: "b64_encoding \<Rightarrow> char \<Rightarrow> nat option" where
  "unsextet enc c = index_of c (enc_alphabet enc)"

text \<open>
  \<^verbatim>\<open>Encoding.decodeQuantum\<close> reads four characters at a time. Missing padding is an error
  for the padded encodings, any padding character for the raw ones, and nothing may follow
  the padding. The unused low bits of the last character are not checked (the predefined
  encodings are not strict).
\<close>

fun b64_quanta :: "b64_encoding \<Rightarrow> string \<Rightarrow> bytes option" where
  "b64_quanta enc [] = Some []"
| "b64_quanta enc [c0] = None"
| "b64_quanta enc [c0, c1] =
     (case (unsextet enc c0, unsextet enc c1) of
        (Some x, Some y) \<Rightarrow>
          if enc_pad enc = None then Some [by0 x y] else None
      | _ \<Rightarrow> None)"
| "b64_quanta enc [c0, c1, c2] =
     (case (unsextet enc c0, unsextet enc c1, unsextet enc c2) of
        (Some x, Some y, Some z) \<Rightarrow>
          if enc_pad enc = None
          then Some [by0 x y, by1 y z] else None
      | _ \<Rightarrow> None)"
| "b64_quanta enc (c0 # c1 # c2 # c3 # cs) =
     (case (unsextet enc c0, unsextet enc c1) of
        (Some x, Some y) \<Rightarrow>
          (case unsextet enc c2 of
             None \<Rightarrow>
               if enc_pad enc = Some c2 \<and> enc_pad enc = Some c3 \<and> cs = []
               then Some [by0 x y] else None
           | Some z \<Rightarrow>
               (case unsextet enc c3 of
                  None \<Rightarrow>
                    if enc_pad enc = Some c3 \<and> cs = []
                    then Some [by0 x y, by1 y z]
                    else None
                | Some v \<Rightarrow>
                    map_option (\<lambda>bs. by0 x y # by1 y z
                                     # by2 z v # bs)
                      (b64_quanta enc cs)))
      | _ \<Rightarrow> None)"

text \<open>Carriage returns and line feeds are skipped wherever they occur.\<close>

definition is_newline :: "char \<Rightarrow> bool" where
  "is_newline c \<longleftrightarrow> c = CHR 0x0A \<or> c = CHR 0x0D"

definition b64_decode :: "b64_encoding \<Rightarrow> string \<Rightarrow> bytes option" where
  "b64_decode enc s = b64_quanta enc (filter (\<lambda>c. \<not> is_newline c) s)"

text \<open>What the proofs need of an encoding: 64 distinct characters, none a newline or the pad.\<close>

definition good_encoding :: "b64_encoding \<Rightarrow> bool" where
  "good_encoding enc \<longleftrightarrow>
     length (enc_alphabet enc) = 64 \<and> distinct (enc_alphabet enc) \<and>
     list_all (\<lambda>c. \<not> is_newline c) (enc_alphabet enc) \<and>
     (case enc_pad enc of None \<Rightarrow> True
      | Some p \<Rightarrow> \<not> is_newline p \<and> p \<notin> set (enc_alphabet enc))"

lemma good_encodings [codec]:
  "good_encoding StdEncoding" "good_encoding RawStdEncoding"
  "good_encoding URLEncoding" "good_encoding RawURLEncoding"
  by (simp_all add: good_encoding_def StdEncoding_def RawStdEncoding_def URLEncoding_def
      RawURLEncoding_def std_alphabet_def url_alphabet_def alnum_def is_newline_def)

lemma index_of_nth: "distinct xs \<Longrightarrow> i < length xs \<Longrightarrow> index_of (xs ! i) xs = Some i"
  by (induction xs arbitrary: i) (auto simp: nth_Cons split: nat.splits)

lemma index_of_None: "index_of c xs = None \<longleftrightarrow> c \<notin> set xs"
  by (induction xs) auto

lemma unsextet_sextet: "good_encoding enc \<Longrightarrow> i < 64 \<Longrightarrow> unsextet enc (sextet enc i) = Some i"
  by (simp add: unsextet_def sextet_def good_encoding_def index_of_nth)

lemma sextet_in_alphabet: "good_encoding enc \<Longrightarrow> i < 64 \<Longrightarrow> sextet enc i \<in> set (enc_alphabet enc)"
  by (simp add: sextet_def good_encoding_def)

lemma unsextet_pad: "good_encoding enc \<Longrightarrow> enc_pad enc = Some p \<Longrightarrow> unsextet enc p = None"
  by (simp add: unsextet_def good_encoding_def index_of_None)

lemma byte_less: "unat (b :: byte) < 256"
  using unsigned_less [of b] by simp

lemma sx_less [simp]: "sx0 a < 64" "sx1 a b < 64" "sx2 b c < 64" "sx3 c < 64"
  using byte_less [of a] byte_less [of b] byte_less [of c]
  by (simp_all add: sx0_def sx1_def sx2_def sx3_def)

lemma by_sx [simp]:
  "by0 (sx0 a) (sx1 a b) = a" "by1 (sx1 a b) (sx2 b c) = b" "by2 (sx2 b c) (sx3 c) = c"
proof -
  have "unat b div 16 < 16" "unat c div 64 < 4" using byte_less [of b] byte_less [of c] by simp_all
  then have "unat b div 16 div 16 = 0" "unat b div 16 mod 16 = unat b div 16"
    "unat c div 64 div 4 = 0" "unat c div 64 mod 4 = unat c div 64" by simp_all
  then have
    "unat a div 4 * 4 + (unat a mod 4 * 16 + unat b div 16) div 16 = unat a"
    "(unat a mod 4 * 16 + unat b div 16) mod 16 * 16
       + (unat b mod 16 * 4 + unat c div 64) div 4 = unat b"
    "(unat b mod 16 * 4 + unat c div 64) mod 4 * 64 + unat c mod 64 = unat c"
    by simp_all
  then show "by0 (sx0 a) (sx1 a b) = a" "by1 (sx1 a b) (sx2 b c) = b" "by2 (sx2 b c) (sx3 c) = c"
    by (simp_all only: by0_def by1_def by2_def sx0_def sx1_def sx2_def sx3_def of_nat_unat ucast_id)
qed

lemma b64_quanta_encode: "good_encoding enc \<Longrightarrow> b64_quanta enc (b64_encode enc bs) = Some bs"
  by (induction enc bs rule: b64_encode.induct)
     (auto simp: unsextet_sextet pad_chars_def unsextet_pad numeral_2_eq_2 split: option.splits)

lemma b64_encode_chars:
  "good_encoding enc \<Longrightarrow>
     set (b64_encode enc bs) \<subseteq> set (enc_alphabet enc) \<union> set_option (enc_pad enc)"
  by (induction enc bs rule: b64_encode.induct)
     (auto simp: pad_chars_def sextet_in_alphabet split: option.splits)

lemma good_encoding_no_newline:
  "good_encoding enc \<Longrightarrow> c \<in> set (enc_alphabet enc) \<union> set_option (enc_pad enc) \<Longrightarrow> \<not> is_newline c"
  by (auto simp: good_encoding_def list_all_iff split: option.splits)

lemma b64_decode_no_newline:
  "\<forall>c \<in> set s. \<not> is_newline c \<Longrightarrow> b64_decode enc s = b64_quanta enc s"
  by (simp add: b64_decode_def)

lemma b64_encode_no_newline:
  "good_encoding enc \<Longrightarrow> \<forall>c \<in> set (b64_encode enc bs). \<not> is_newline c"
  using b64_encode_chars good_encoding_no_newline by blast

theorem b64_roundtrip [codec]:
  "good_encoding enc \<Longrightarrow> b64_decode enc (b64_encode enc bs) = Some bs"
  by (simp add: b64_decode_no_newline b64_encode_no_newline b64_quanta_encode)

lemma b64_encode_raw_length:
  "enc_pad enc = None \<Longrightarrow> length (b64_encode enc bs) = (4 * length bs + 2) div 3"
  by (induction enc bs rule: b64_encode.induct) (auto simp: pad_chars_def)

lemma b64_encode_padded_length:
  "enc_pad enc = Some p \<Longrightarrow> length (b64_encode enc bs) = 4 * ((length bs + 2) div 3)"
proof (induction enc bs rule: b64_encode.induct)
  case (4 enc a b c bs)
  have "(length (a # b # c # bs) + 2) div 3 = Suc ((length bs + 2) div 3)" by simp
  with 4 show ?case by simp
qed (auto simp: pad_chars_def)

section \<open>Raw and padded texts are not confused\<close>

text \<open>
  Used for \<^verbatim>\<open>ParseSigningSeed\<close>, which tries the encodings one after the other: a text of
  one encoding that another encoding accepts decodes to the same bytes there.
\<close>

definition agree :: "b64_encoding \<Rightarrow> b64_encoding \<Rightarrow> bool" where
  "agree e1 e2 \<longleftrightarrow>
     (\<forall>c x y. unsextet e1 c = Some x \<longrightarrow> unsextet e2 c = Some y \<longrightarrow> x = y) \<and>
     (\<forall>p. enc_pad e1 = Some p \<longrightarrow> unsextet e2 p = None) \<and>
     (\<forall>p. enc_pad e2 = Some p \<longrightarrow> unsextet e1 p = None)"

lemma index_of_append:
  "index_of c (xs @ ys) =
     (case index_of c xs of None \<Rightarrow> map_option ((+) (length xs)) (index_of c ys) | Some i \<Rightarrow> Some i)"
  by (cases "index_of c ys"; induction xs) (auto split: option.splits)

lemma index_of_std_url:
  "index_of c std_alphabet = Some x \<Longrightarrow> index_of c url_alphabet = Some y \<Longrightarrow> x = y"
  by (auto simp: std_alphabet_def url_alphabet_def index_of_append split: option.splits if_splits)

lemma index_of_eq_sign: "index_of CHR ''='' std_alphabet = None" "index_of CHR ''='' url_alphabet = None"
  by (simp_all add: index_of_None std_alphabet_def url_alphabet_def alnum_def)

lemma agree_encodings [codec]:
  "agree StdEncoding RawStdEncoding" "agree StdEncoding URLEncoding"
  "agree StdEncoding RawURLEncoding" "agree RawStdEncoding URLEncoding"
  "agree RawStdEncoding RawURLEncoding" "agree URLEncoding RawURLEncoding"
  by (auto simp: agree_def StdEncoding_def RawStdEncoding_def URLEncoding_def
      RawURLEncoding_def unsextet_def index_of_eq_sign dest: index_of_std_url)

lemma agreeD: "agree e1 e2 \<Longrightarrow> unsextet e1 c = Some x \<Longrightarrow> unsextet e2 c = Some y \<Longrightarrow> y = x"
  by (auto simp: agree_def)

lemma agree_pad:
  "agree e1 e2 \<Longrightarrow> enc_pad e1 = Some c \<Longrightarrow> unsextet e2 c = None"
  "agree e1 e2 \<Longrightarrow> enc_pad e2 = Some c \<Longrightarrow> unsextet e1 c = None"
  by (auto simp: agree_def)

lemma b64_quanta_third:
  assumes "agree e1 e2" "b64_quanta e1 (c0 # c1 # c2 # c3 # cs) = Some xs"
    "b64_quanta e2 (c0 # c1 # c2 # c3 # cs) = Some ys"
  shows "unsextet e2 c2 = unsextet e1 c2"
  using assms agree_pad [OF assms(1), of c2] agreeD [OF assms(1), of c2]
  by (cases "unsextet e1 c2"; cases "unsextet e2 c2") (auto split: option.splits if_splits)

lemma b64_quanta_fourth:
  assumes "agree e1 e2" "b64_quanta e1 (c0 # c1 # c2 # c3 # cs) = Some xs"
    "b64_quanta e2 (c0 # c1 # c2 # c3 # cs) = Some ys" "unsextet e1 c2 = Some z" "unsextet e2 c2 = Some z"
  shows "unsextet e2 c3 = unsextet e1 c3"
  using assms agree_pad [OF assms(1), of c3] agreeD [OF assms(1), of c3]
  by (cases "unsextet e1 c3"; cases "unsextet e2 c3") (auto split: option.splits if_splits)

lemma b64_quanta_agree:
  "agree e1 e2 \<Longrightarrow> b64_quanta e1 s = Some xs \<Longrightarrow> b64_quanta e2 s = Some ys \<Longrightarrow> xs = ys"
proof (induction e1 s arbitrary: xs ys rule: b64_quanta.induct)
  case (5 e1 c0 c1 c2 c3 cs)
  obtain x y where xy: "unsextet e1 c0 = Some x" "unsextet e1 c1 = Some y"
    using "5.prems"(2) by (auto split: option.splits)
  have xy2: "unsextet e2 c0 = Some x" "unsextet e2 c1 = Some y"
    using "5.prems" agreeD [OF "5.prems"(1)] xy by (auto split: option.splits)
  have c2: "unsextet e2 c2 = unsextet e1 c2" using "5.prems" by (rule b64_quanta_third)
  show ?case
  proof (cases "unsextet e1 c2")
    case None
    then show ?thesis using "5.prems"(2,3) xy xy2 c2 by (auto split: if_splits)
  next
    case z: (Some z)
    then have c3: "unsextet e2 c3 = unsextet e1 c3" using b64_quanta_fourth "5.prems" c2 by metis
    show ?thesis
    proof (cases "unsextet e1 c3")
      case None
      then show ?thesis using "5.prems"(2,3) xy xy2 c2 c3 z by (auto split: if_splits)
    next
      case (Some v)
      then show ?thesis
        using "5.IH" [of "Some x" "Some y" x y z v] "5.prems" xy xy2 c2 c3 z by auto
    qed
  qed
qed (auto dest: agreeD split: option.splits if_splits)

lemma b64_decode_agree:
  "agree e1 e2 \<Longrightarrow> b64_decode e1 s = Some xs \<Longrightarrow> b64_decode e2 s = Some ys \<Longrightarrow> xs = ys"
  unfolding b64_decode_def by (rule b64_quanta_agree)

section \<open>Decimal numbers\<close>

text \<open>
  \<^verbatim>\<open>%d\<close> prints an unsigned number without leading zeros. \<^verbatim>\<open>fmt.Sscanf\<close> skips white space
  before a number (a line feed there is an error), reads as many digits as there are and
  leaves the rest: it does not complain about input after the last verb.
\<close>

definition digit_char :: "nat \<Rightarrow> char" where "digit_char n = char_of (48 + n)"
definition is_digit :: "char \<Rightarrow> bool" where "is_digit c \<longleftrightarrow> 48 \<le> (of_char c :: nat) \<and> of_char c \<le> (57 :: nat)"

fun show_nat :: "nat \<Rightarrow> string" where
  "show_nat n = (if n < 10 then [digit_char n] else show_nat (n div 10) @ [digit_char (n mod 10)])"

declare show_nat.simps [simp del]

definition nat_of_digits :: "string \<Rightarrow> nat" where
  "nat_of_digits ds = foldl (\<lambda>a c. a * 10 + (of_char c - 48)) 0 ds"

definition wide_spaces :: "string list" where
  "wide_spaces =
     [[CHR 0xC2, CHR 0x85], [CHR 0xC2, CHR 0xA0], [CHR 0xE1, CHR 0x9A, CHR 0x80],
      [CHR 0xE2, CHR 0x80, CHR 0xA8], [CHR 0xE2, CHR 0x80, CHR 0xA9], [CHR 0xE2, CHR 0x80, CHR 0xAF],
      [CHR 0xE2, CHR 0x81, CHR 0x9F], [CHR 0xE3, CHR 0x80, CHR 0x80]]
     @ map (\<lambda>i. [CHR 0xE2, CHR 0x80, char_of (0x80 + i)]) [0 ..< (11 :: nat)]"

fun strip_any :: "string list \<Rightarrow> string \<Rightarrow> string option" where
  "strip_any [] s = None"
| "strip_any (p # ps) s = (case cut_prefix p s of None \<Rightarrow> strip_any ps s | Some r \<Rightarrow> Some r)"

definition is_ascii_space :: "char \<Rightarrow> bool" where
  "is_ascii_space c \<longleftrightarrow> c \<in> set [CHR 0x09, CHR 0x0A, CHR 0x0B, CHR 0x0C, CHR 0x0D, CHR 0x20]"

lemma strip_any_length: "strip_any ps s = Some r \<Longrightarrow> [] \<notin> set ps \<Longrightarrow> length r < length s"
  by (induction ps) (auto simp: cut_prefix_Some split: option.splits)

lemma wide_spaces_nonempty: "[] \<notin> set wide_spaces"
  by (auto simp: wide_spaces_def)

function skip_space :: "string \<Rightarrow> string option" where
  "skip_space s =
     (case s of
        [] \<Rightarrow> Some []
      | c # cs \<Rightarrow>
          if c = CHR 0x0A then None
          else if is_ascii_space c then skip_space cs
          else (case strip_any wide_spaces s of None \<Rightarrow> Some s | Some r \<Rightarrow> skip_space r))"
  by pat_completeness auto
termination
  by (relation "measure length") (auto dest: strip_any_length simp: wide_spaces_nonempty)

declare skip_space.simps [simp del]

definition scan_uint :: "nat \<Rightarrow> string \<Rightarrow> (nat \<times> string) option" where
  "scan_uint bits s =
     (case skip_space s of
        None \<Rightarrow> None
      | Some s1 \<Rightarrow>
          let ds = takeWhile is_digit s1 in
          if ds = [] then None
          else if nat_of_digits ds < 2 ^ bits then Some (nat_of_digits ds, dropWhile is_digit s1)
          else None)"

definition scan_int :: "string \<Rightarrow> (int \<times> string) option" where
  "scan_int s =
     (case skip_space s of
        None \<Rightarrow> None
      | Some s1 \<Rightarrow>
          let neg = (case s1 of c # _ \<Rightarrow> c = CHR ''-'' | [] \<Rightarrow> False);
              s2 = (case s1 of c # cs \<Rightarrow> if c = CHR ''-'' \<or> c = CHR ''+'' then cs else s1 | [] \<Rightarrow> []);
              ds = takeWhile is_digit s2;
              v = (if neg then - int (nat_of_digits ds) else int (nat_of_digits ds)) in
          if ds = [] then None
          else if - (2 ^ 63) \<le> v \<and> v < 2 ^ 63 then Some (v, dropWhile is_digit s2)
          else None)"

lemma digit_char_code: "n < 10 \<Longrightarrow> of_char (digit_char n) = 48 + n"
  by (simp add: digit_char_def)

lemma is_digit_digit_char [simp]: "n < 10 \<Longrightarrow> is_digit (digit_char n)"
  by (simp add: is_digit_def digit_char_code)

lemma show_nat_digits: "\<forall>c \<in> set (show_nat n). is_digit c"
proof (induction n rule: show_nat.induct)
  case (1 n)
  then show ?case by (cases "n < 10") (auto simp: show_nat.simps [of n])
qed

lemma show_nat_nonempty: "show_nat n \<noteq> []"
  by (subst show_nat.simps) simp

lemma nat_of_digits_show_nat [codec]: "nat_of_digits (show_nat n) = n"
proof (induction n rule: show_nat.induct)
  case (1 n)
  show ?case
  proof (cases "n < 10")
    case True
    then show ?thesis by (simp add: show_nat.simps [of n] nat_of_digits_def digit_char_code)
  next
    case False
    with 1 have "nat_of_digits (show_nat n) = n div 10 * 10 + n mod 10"
      by (simp add: show_nat.simps [of n] nat_of_digits_def digit_char_code)
    then show ?thesis by simp
  qed
qed

lemma strip_any_ascii:
  "\<forall>p \<in> set ps. p \<noteq> [] \<and> hd p \<noteq> c \<Longrightarrow> strip_any ps (c # cs) = None"
  by (induction ps) (auto simp: cut_prefix_None neq_Nil_conv split: option.splits)

lemma skip_space_graph: "33 \<le> (of_char c :: nat) \<Longrightarrow> of_char c < (128 :: nat) \<Longrightarrow> skip_space (c # cs) = Some (c # cs)"
proof -
  assume c: "33 \<le> (of_char c :: nat)" "of_char c < (128 :: nat)"
  have "\<forall>p \<in> set wide_spaces. p \<noteq> [] \<and> (128 :: nat) \<le> of_char (hd p)"
    by (auto simp: wide_spaces_def)
  with c have "strip_any wide_spaces (c # cs) = None" by (intro strip_any_ascii) force
  with c show ?thesis by (subst skip_space.simps) (auto simp: is_ascii_space_def)
qed

lemma skip_space_digit: "is_digit c \<Longrightarrow> skip_space (c # cs) = Some (c # cs)"
  by (rule skip_space_graph) (auto simp: is_digit_def)

lemma span_rest:
  "rest = [] \<or> \<not> is_digit (hd rest) \<Longrightarrow> takeWhile is_digit rest = []"
  "rest = [] \<or> \<not> is_digit (hd rest) \<Longrightarrow> dropWhile is_digit rest = rest"
  by (cases rest; simp)+

lemma skip_space_show_nat: "skip_space (show_nat n @ rest) = Some (show_nat n @ rest)"
  using show_nat_nonempty [of n] show_nat_digits [of n]
  by (cases "show_nat n") (auto simp: skip_space_digit)

lemma scan_uint_show_nat [codec]:
  "n < 2 ^ bits \<Longrightarrow> rest = [] \<or> \<not> is_digit (hd rest) \<Longrightarrow>
     scan_uint bits (show_nat n @ rest) = Some (n, rest)"
  by (simp add: scan_uint_def skip_space_show_nat span_rest show_nat_digits show_nat_nonempty codec Let_def)

lemma scan_int_show_nat [codec]:
  assumes "int n < 2 ^ 63" "rest = [] \<or> \<not> is_digit (hd rest)"
  shows "scan_int (show_nat n @ rest) = Some (int n, rest)"
proof -
  obtain d ds where ds: "show_nat n = d # ds" using show_nat_nonempty by (cases "show_nat n") auto
  with show_nat_digits [of n] have "is_digit d" by simp
  then have "d \<noteq> CHR ''-''" "d \<noteq> CHR ''+''" by (auto simp: is_digit_def)
  then have sign: "(case show_nat n @ rest of [] \<Rightarrow> False | c # _ \<Rightarrow> c = CHR ''-'') = False"
    "(case show_nat n @ rest of [] \<Rightarrow> [] | c # cs \<Rightarrow>
        if c = CHR ''-'' \<or> c = CHR ''+'' then cs else show_nat n @ rest) = show_nat n @ rest"
    by (simp_all add: ds)
  with assms show ?thesis
    unfolding scan_int_def skip_space_show_nat
    by (simp add: sign span_rest show_nat_digits show_nat_nonempty codec Let_def)
qed

lemma scan_uint_bound: "scan_uint bits s = Some (n, r) \<Longrightarrow> n < 2 ^ bits"
  by (auto simp: scan_uint_def Let_def split: option.splits if_splits)

end
