(* ===== verification/Password.thy ===== *)
theory Password
  imports Codec
begin

text \<open>
  \<^verbatim>\<open>internal/auth/password.go\<close>: argon2id password hashing in PHC format. The key derivation
  \<^verbatim>\<open>argon2.IDKey\<close> is a third-party function and a parameter (field \<open>IDKey\<close> of the record
  \<open>crypto\<close>; \<open>None\<close> is its documented panic on a zero time or parallelism parameter). The
  text format, its parser and the decision of \<^verbatim>\<open>Verify\<close> are translated. Main facts: a hash
  verifies with the password it was made from and asks for a rehash exactly when the
  configuration got stronger; \<^verbatim>\<open>Verify\<close> accepts nothing but a matching derived key.
\<close>

section \<open>Cryptographic primitives outside the repository\<close>

record crypto =
  IDKey :: "bytes \<Rightarrow> bytes \<Rightarrow> u32 \<Rightarrow> u32 \<Rightarrow> u8 \<Rightarrow> u32 \<Rightarrow> bytes option"
  Sum256 :: "bytes \<Rightarrow> bytes"

text \<open>Documented behaviour of \<^verbatim>\<open>argon2.IDKey(password, salt, time, memory, threads, keyLen)\<close>.\<close>

definition argon2_ok :: "'x crypto_scheme \<Rightarrow> bool" where
  "argon2_ok X \<longleftrightarrow>
     (\<forall>p s t m par n. t \<noteq> 0 \<longrightarrow> par \<noteq> 0 \<longrightarrow>
        (\<exists>k. IDKey X p s t m par n = Some k \<and> length k = unat n)) \<and>
     (\<forall>p s t m par n. t = 0 \<or> par = 0 \<longrightarrow> IDKey X p s t m par n = None)"

section \<open>Parameters and hasher\<close>

record Argon2Params =
  MemoryKiB :: u32
  Iterations :: u32
  Parallelism :: u8
  SaltLen :: u32
  KeyLen :: u32

definition DefaultParams :: Argon2Params where
  "DefaultParams =
     \<lparr>MemoryKiB = 19 * 1024, Iterations = 2, Parallelism = 1, SaltLen = 16, KeyLen = 32\<rparr>"

text \<open>\<open>sem_cap\<close> is the capacity of the channel that serves as the semaphore.\<close>

record Hasher =
  params :: Argon2Params
  sem_cap :: int

definition NewHasher :: "Argon2Params \<Rightarrow> int \<Rightarrow> Hasher" where
  "NewHasher p maxConcurrent =
     (let maxConcurrent = (if maxConcurrent \<le> 0 then 4 else maxConcurrent)
      in \<lparr>params = p, sem_cap = maxConcurrent\<rparr>)"

definition argon2_Version :: nat where "argon2_Version = 19"

section \<open>Hash\<close>

definition format_phc :: "Argon2Params \<Rightarrow> bytes \<Rightarrow> bytes \<Rightarrow> string" where
  "format_phc p salt key =
     ''$argon2id$v='' @ show_nat argon2_Version @ ''$m='' @ show_nat (unat (MemoryKiB p)) @
     '',t='' @ show_nat (unat (Iterations p)) @ '',p='' @ show_nat (unat (Parallelism p)) @
     ''$'' @ b64_encode RawStdEncoding salt @ ''$'' @ b64_encode RawStdEncoding key"

definition Hash :: "'x crypto_scheme \<Rightarrow> Hasher \<Rightarrow> string \<Rightarrow> ('d, string) io" where
  "Hash X h password w =
     (case rand_read (unat (SaltLen (params h))) w of
        (Inl e, w1) \<Rightarrow> (Inl (Other ''generate salt''), w1)
      | (Inr salt, w1) \<Rightarrow>
          (case IDKey X (bytes_of_string password) salt (Iterations (params h))
                  (MemoryKiB (params h)) (Parallelism (params h)) (KeyLen (params h)) of
             None \<Rightarrow> (Inl Panicked, w1)
           | Some key \<Rightarrow> (Inr (format_phc (params h) salt key), w1)))"

section \<open>Verify\<close>

definition Sscanf_version :: "string \<Rightarrow> int option" where
  "Sscanf_version s =
     (case cut_prefix ''v='' s of None \<Rightarrow> None | Some r \<Rightarrow> map_option fst (scan_int r))"

definition Sscanf_params :: "string \<Rightarrow> (nat \<times> nat \<times> nat) option" where
  "Sscanf_params s =
     (case cut_prefix ''m='' s of None \<Rightarrow> None | Some r \<Rightarrow>
      case scan_uint 32 r of None \<Rightarrow> None | Some (m, r) \<Rightarrow>
      case cut_prefix '',t='' r of None \<Rightarrow> None | Some r \<Rightarrow>
      case scan_uint 32 r of None \<Rightarrow> None | Some (t, r) \<Rightarrow>
      case cut_prefix '',p='' r of None \<Rightarrow> None | Some r \<Rightarrow>
      case scan_uint 8 r of None \<Rightarrow> None | Some (p, r) \<Rightarrow> Some (m, t, p))"

definition parsePHC :: "string \<Rightarrow> err + (Argon2Params \<times> bytes \<times> bytes)" where
  "parsePHC phc =
     (let parts = split_on CHR ''$'' phc in
      if length parts \<noteq> 6 \<or> parts ! 1 \<noteq> ''argon2id''
      then Inl (Other ''auth: malformed argon2id hash'')
      else if Sscanf_version (parts ! 2) \<noteq> Some (int argon2_Version)
      then Inl (Other ''auth: unsupported argon2 version'')
      else case Sscanf_params (parts ! 3) of
        None \<Rightarrow> Inl (Other ''auth: malformed argon2id parameters'')
      | Some (m, t, p) \<Rightarrow>
          case b64_decode RawStdEncoding (parts ! 4) of
            None \<Rightarrow> Inl (Other ''auth: malformed salt'')
          | Some salt \<Rightarrow>
              case b64_decode RawStdEncoding (parts ! 5) of
                None \<Rightarrow> Inl (Other ''auth: malformed hash'')
              | Some key \<Rightarrow>
                  if length key < 16 \<or> length key > 128
                  then Inl (Other ''auth: implausible key length'')
                  else Inr (\<lparr>MemoryKiB = of_nat m, Iterations = of_nat t, Parallelism = of_nat p,
                             SaltLen = 0, KeyLen = 0\<rparr>, salt, key))"

definition Verify :: "'x crypto_scheme \<Rightarrow> Hasher \<Rightarrow> string \<Rightarrow> string \<Rightarrow> err + bool" where
  "Verify X h password phc =
     (case parsePHC phc of
        Inl e \<Rightarrow> Inl e
      | Inr (p, salt, key) \<Rightarrow>
          (let keyLen = (of_nat (length key) :: u32) in
           case IDKey X (bytes_of_string password) salt (Iterations p) (MemoryKiB p)
                  (Parallelism p) keyLen of
             None \<Rightarrow> Inl Panicked
           | Some candidate \<Rightarrow>
               if candidate \<noteq> key then Inl ErrWrongPassword
               else Inr (MemoryKiB p < MemoryKiB (params h) \<or>
                         Iterations p < Iterations (params h) \<or>
                         keyLen < KeyLen (params h))))"

section \<open>Parsing a printed hash\<close>

lemma no_dollar_digits: "CHR ''$'' \<notin> set (show_nat n)"
  using show_nat_digits [of n] by (auto simp: is_digit_def)

lemma no_dollar_b64: "CHR ''$'' \<notin> set (b64_encode RawStdEncoding bs)"
proof -
  have "CHR ''$'' \<notin> set (enc_alphabet RawStdEncoding) \<union> set_option (enc_pad RawStdEncoding)"
    by (simp add: RawStdEncoding_def std_alphabet_def alnum_def)
  with b64_encode_chars [OF good_encodings(2)] show ?thesis by blast
qed

lemma split_format_phc:
  "split_on CHR ''$'' (format_phc p salt key) =
     [[], ''argon2id'', ''v='' @ show_nat argon2_Version,
      ''m='' @ show_nat (unat (MemoryKiB p)) @ '',t='' @ show_nat (unat (Iterations p)) @
        '',p='' @ show_nat (unat (Parallelism p)),
      b64_encode RawStdEncoding salt, b64_encode RawStdEncoding key]" (is "_ = ?parts")
proof -
  have "format_phc p salt key = join_with CHR ''$'' ?parts"
    by (simp add: format_phc_def)
  moreover have "split_on CHR ''$'' (join_with CHR ''$'' ?parts) = ?parts"
    by (rule split_join) (simp_all add: no_dollar_digits no_dollar_b64)
  ultimately show ?thesis by simp
qed

lemma Sscanf_version_ok: "Sscanf_version (''v='' @ show_nat argon2_Version) = Some (int argon2_Version)"
  using scan_int_show_nat [of argon2_Version "[]"]
  by (simp add: Sscanf_version_def argon2_Version_def)

lemma Sscanf_params_ok:
  assumes "m < 2 ^ 32" "t < 2 ^ 32" "p < 2 ^ 8"
  shows "Sscanf_params (''m='' @ show_nat m @ '',t='' @ show_nat t @ '',p='' @ show_nat p) = Some (m, t, p)"
proof -
  have nd: "\<not> is_digit CHR '',''" by (simp add: is_digit_def)
  have "scan_uint 32 (show_nat m @ '',t='' @ show_nat t @ '',p='' @ show_nat p)
      = Some (m, '',t='' @ show_nat t @ '',p='' @ show_nat p)"
    "scan_uint 32 (show_nat t @ '',p='' @ show_nat p) = Some (t, '',p='' @ show_nat p)"
    "scan_uint 8 (show_nat p) = Some (p, [])"
    using assms nd scan_uint_show_nat [of p 8 "[]"] by (auto intro!: scan_uint_show_nat)
  then show ?thesis by (simp add: Sscanf_params_def)
qed

lemma parsePHC_format_phc:
  assumes "16 \<le> length key" "length key \<le> 128"
  shows "parsePHC (format_phc p salt key) = Inr (p\<lparr>SaltLen := 0, KeyLen := 0\<rparr>, salt, key)"
proof -
  have lt: "unat (MemoryKiB p) < 2 ^ 32" "unat (Iterations p) < 2 ^ 32" "unat (Parallelism p) < 2 ^ 8"
    using unsigned_less [of "MemoryKiB p"] unsigned_less [of "Iterations p"]
      unsigned_less [of "Parallelism p"] by simp_all
  show ?thesis
    using assms
    by (simp add: parsePHC_def split_format_phc Sscanf_version_ok [simplified] eval_nat_numeral
        Sscanf_params_ok [OF lt, simplified] b64_roundtrip good_encodings)
qed

section \<open>What Hash and Verify guarantee\<close>

lemma Hash_Inr:
  assumes "Hash X h pw w = (Inr phc, w')"
  obtains salt key where "phc = format_phc (params h) salt key"
    and "length salt = unat (SaltLen (params h))"
    and "IDKey X (bytes_of_string pw) salt (Iterations (params h)) (MemoryKiB (params h))
           (Parallelism (params h)) (KeyLen (params h)) = Some key"
  using assms by (auto simp: Hash_def split: prod.splits sum.splits option.splits dest: rand_read_length)

text \<open>The strings \<^verbatim>\<open>Hash\<close> can return for a password, over all salts.\<close>

definition hash_of :: "'x crypto_scheme \<Rightarrow> Hasher \<Rightarrow> string \<Rightarrow> string \<Rightarrow> bool" where
  "hash_of X h pw phc \<longleftrightarrow>
     (\<exists>salt key. phc = format_phc (params h) salt key \<and> length salt = unat (SaltLen (params h)) \<and>
        IDKey X (bytes_of_string pw) salt (Iterations (params h)) (MemoryKiB (params h))
          (Parallelism (params h)) (KeyLen (params h)) = Some key)"

lemma Hash_hash_of: "Hash X h pw w = (Inr phc, w') \<Longrightarrow> hash_of X h pw phc"
  unfolding hash_of_def by (erule Hash_Inr) blast

lemma argon2_length:
  "argon2_ok X \<Longrightarrow> IDKey X p s t m par n = Some k \<Longrightarrow> length k = unat n"
  unfolding argon2_ok_def by (metis option.distinct(1) option.sel)

lemma Verify_format_phc:
  assumes "16 \<le> length key" "length key \<le> 128"
    and "IDKey X (bytes_of_string pw) salt (Iterations p) (MemoryKiB p) (Parallelism p)
           (of_nat (length key)) = Some key"
  shows "Verify X h pw (format_phc p salt key) =
     Inr (MemoryKiB p < MemoryKiB (params h) \<or> Iterations p < Iterations (params h) \<or>
          (of_nat (length key) :: u32) < KeyLen (params h))"
  using assms by (simp add: Verify_def parsePHC_format_phc)

text \<open>A hasher configured with a key length \<^verbatim>\<open>parsePHC\<close> accepts and usable cost parameters.\<close>

definition sane_hasher :: "Hasher \<Rightarrow> bool" where
  "sane_hasher h \<longleftrightarrow> 16 \<le> unat (KeyLen (params h)) \<and> unat (KeyLen (params h)) \<le> 128 \<and>
     Iterations (params h) \<noteq> 0 \<and> Parallelism (params h) \<noteq> 0"

lemma hash_of_Verify:
  assumes ok: "argon2_ok X" and sane: "sane_hasher h" and hash: "hash_of X h pw phc"
  shows "Verify X h' pw phc =
     Inr (MemoryKiB (params h) < MemoryKiB (params h') \<or>
          Iterations (params h) < Iterations (params h') \<or>
          KeyLen (params h) < KeyLen (params h'))"
proof -
  from hash obtain salt key where phc: "phc = format_phc (params h) salt key"
    and key: "IDKey X (bytes_of_string pw) salt (Iterations (params h)) (MemoryKiB (params h))
           (Parallelism (params h)) (KeyLen (params h)) = Some key" by (auto simp: hash_of_def)
  have len: "length key = unat (KeyLen (params h))" using ok key by (rule argon2_length)
  then have "(of_nat (length key) :: u32) = KeyLen (params h)" by (simp add: ucast_id)
  with key len sane show ?thesis
    unfolding phc by (subst Verify_format_phc) (simp_all add: sane_hasher_def)
qed

lemma Verify_Inr_iff:
  "Verify X h pw phc = Inr b \<longleftrightarrow>
     (\<exists>p salt key. parsePHC phc = Inr (p, salt, key) \<and>
        IDKey X (bytes_of_string pw) salt (Iterations p) (MemoryKiB p) (Parallelism p)
          (of_nat (length key)) = Some key \<and>
        b = (MemoryKiB p < MemoryKiB (params h) \<or> Iterations p < Iterations (params h) \<or>
             (of_nat (length key) :: u32) < KeyLen (params h)))"
  by (auto simp: Verify_def Let_def split: sum.splits option.splits prod.splits if_splits)

lemma parsePHC_key_length:
  "parsePHC phc = Inr (p, salt, key) \<Longrightarrow> 16 \<le> length key \<and> length key \<le> 128"
  by (auto simp: parsePHC_def Let_def split: if_splits option.splits prod.splits)

lemma parsePHC_not_abrupt: "parsePHC phc = Inl e \<Longrightarrow> \<not> abrupt e"
  by (auto simp: parsePHC_def Let_def split: if_splits option.splits prod.splits)

lemma Hash_succeeds:
  assumes "argon2_ok X" "sane_hasher h" "shd (entropy w) \<noteq> None"
  shows "\<exists>phc. Hash X h pw w = (Inr phc, w\<lparr>entropy := stl (entropy w)\<rparr>)"
proof -
  from assms(3) obtain f where f: "shd (entropy w) = Some f" by auto
  from assms(1,2) obtain key where
    "IDKey X (bytes_of_string pw) (map f [0..<unat (SaltLen (params h))]) (Iterations (params h))
       (MemoryKiB (params h)) (Parallelism (params h)) (KeyLen (params h)) = Some key"
    unfolding argon2_ok_def sane_hasher_def by meson
  with f show ?thesis by (simp add: Hash_def rand_read_def Let_def)
qed

lemma Hash_frame:
  "Hash X h pw w = (r, w') \<Longrightarrow> w' = w\<lparr>entropy := stl (entropy w)\<rparr>"
  by (auto simp: Hash_def rand_read_def Let_def split: prod.splits sum.splits option.splits)

end
