(* ===== verification/Token.thy ===== *)
theory Token
  imports Password
begin

text \<open>
  \<^verbatim>\<open>internal/auth/token.go\<close> and \<^verbatim>\<open>internal/auth/refresh.go\<close>: the Ed25519 access-token
  issuer and the opaque refresh tokens. Code outside the repository is a parameter, a field
  of the record \<open>ext\<close>: the public half of an Ed25519 key, the JWT library
  (\<^verbatim>\<open>golang-jwt/jwt/v5\<close>) and the UUID text form (\<^verbatim>\<open>google/uuid\<close>); \<open>jwt_ok\<close> and \<open>uuid_ok\<close>
  state their documented behaviour. Main facts: a minted token verifies until it expires and
  gives the claims back, a verified token has the fixed issuer and audience and is not
  expired, and a signing seed is read back from each of the four base64 forms.
\<close>

section \<open>Claims and the libraries\<close>

record Claims =
  cl_Issuer :: string
  cl_Subject :: string
  cl_Audience :: "string list"
  cl_ExpiresAt :: "instant option"
  cl_NotBefore :: "instant option"
  cl_IssuedAt :: "instant option"
  cl_ID :: string
  cl_PreferredUsername :: string
  cl_Roles :: "string list"

record jwt_header =
  h_alg :: string
  h_kid :: string

text \<open>The options \<^verbatim>\<open>Verify\<close> passes to \<^verbatim>\<open>jwt.ParseWithClaims\<close>.\<close>

record parse_opts =
  po_methods :: "string list"
  po_issuer :: string
  po_audience :: string
  po_exp_required :: bool

record ext = crypto +
  ed25519_public :: "bytes \<Rightarrow> bytes"
  NewNumericDate :: "instant \<Rightarrow> instant"
  SignedString :: "bytes \<Rightarrow> jwt_header \<Rightarrow> Claims \<Rightarrow> err + string"
  ParseWithClaims :: "bytes \<Rightarrow> parse_opts \<Rightarrow> instant \<Rightarrow> string \<Rightarrow> err + Claims"
  uuid_String :: "uuid \<Rightarrow> string"
  uuid_Parse :: "string \<Rightarrow> uuid option"

text \<open>
  Documented behaviour of the JWT library: \<^verbatim>\<open>jwt.NewNumericDate\<close> truncates to whole seconds;
  signing succeeds with a private key made of a 32-byte seed and its public key; a token so
  made of claims of the form \<^verbatim>\<open>Mint\<close> builds (\<open>mint_form\<close>: dates in whole seconds, UUIDs as
  subject and id, roles in ASCII), verified with that public key, yields those claims when its
  algorithm is among the allowed methods and the validator accepts them; a claim set that
  parsing returns has passed the validator. Nothing is said of other claim sets, whose dates
  the library truncates; and since JSON replaces invalid UTF-8, the preferred user name is
  known to come back only if it is ASCII.
\<close>

definition Issuer :: string where "Issuer = ''ccc-account''"
definition Audience :: string where "Audience = ''ccc''"

definition is_ascii :: "string \<Rightarrow> bool" where
  "is_ascii s \<longleftrightarrow> list_all (\<lambda>c. (of_char c :: nat) < 128) s"

definition whole_seconds :: "instant \<Rightarrow> bool" where
  "whole_seconds t \<longleftrightarrow> t mod Second = 0"

definition mint_form :: "'x ext_scheme \<Rightarrow> Claims \<Rightarrow> bool" where
  "mint_form E c \<longleftrightarrow>
     cl_Issuer c = Issuer \<and> cl_Audience c = [Audience] \<and> cl_NotBefore c = None \<and>
     (\<exists>u. cl_Subject c = uuid_String E u) \<and> (\<exists>j. cl_ID c = uuid_String E j) \<and>
     (\<exists>e. cl_ExpiresAt c = Some e \<and> whole_seconds e) \<and> (\<exists>i. cl_IssuedAt c = Some i \<and> whole_seconds i) \<and>
     list_all is_ascii (cl_Roles c)"

definition claims_valid :: "parse_opts \<Rightarrow> instant \<Rightarrow> Claims \<Rightarrow> bool" where
  "claims_valid po now c \<longleftrightarrow>
     (case cl_ExpiresAt c of None \<Rightarrow> \<not> po_exp_required po | Some e \<Rightarrow> now < e) \<and>
     (case cl_NotBefore c of None \<Rightarrow> True | Some n \<Rightarrow> n \<le> now) \<and>
     cl_Issuer c = po_issuer po \<and> po_audience po \<in> set (cl_Audience c)"

definition jwt_ok :: "'x ext_scheme \<Rightarrow> bool" where
  "jwt_ok E \<longleftrightarrow>
     (\<forall>t. NewNumericDate E t = t div Second * Second) \<and>
     (\<forall>seed h c. length seed = 32 \<longrightarrow> (\<exists>tok. SignedString E (seed @ ed25519_public E seed) h c = Inr tok)) \<and>
     (\<forall>seed h c tok po now. length seed = 32 \<longrightarrow> SignedString E (seed @ ed25519_public E seed) h c = Inr tok \<longrightarrow>
        mint_form E c \<longrightarrow> h_alg h \<in> set (po_methods po) \<longrightarrow> claims_valid po now c \<longrightarrow>
        (\<exists>n. ParseWithClaims E (ed25519_public E seed) po now tok = Inr (c\<lparr>cl_PreferredUsername := n\<rparr>) \<and>
           (is_ascii (cl_PreferredUsername c) \<longrightarrow> n = cl_PreferredUsername c))) \<and>
     (\<forall>pub po now tok c. ParseWithClaims E pub po now tok = Inr c \<longrightarrow> claims_valid po now c)"

definition uuid_ok :: "'x ext_scheme \<Rightarrow> bool" where
  "uuid_ok E \<longleftrightarrow> (\<forall>u. uuid_Parse E (uuid_String E u) = Some u)"

section \<open>Issuer\<close>

definition DefaultAccessTokenTTL :: duration where "DefaultAccessTokenTTL = 10 * Minute"
definition SeedSize :: nat where "SeedSize = 32"
definition EdDSA :: string where "EdDSA = ''EdDSA''"

record TokenIssuer =
  ti_private :: bytes
  ti_public :: bytes
  ti_kid :: string
  ti_ttl :: duration

definition NewTokenIssuer :: "'x ext_scheme \<Rightarrow> bytes \<Rightarrow> duration \<Rightarrow> err + TokenIssuer" where
  "NewTokenIssuer E seed d =
     (if length seed \<noteq> SeedSize then Inl (Other ''auth: signing seed must be 32 bytes'')
      else
        let d = (if d \<le> 0 then DefaultAccessTokenTTL else d);
            priv = seed @ ed25519_public E seed;
            pub = drop SeedSize priv;
            sum = Sum256 E pub
        in Inr \<lparr>ti_private = priv, ti_public = pub,
                ti_kid = b64_encode RawURLEncoding (take 8 sum), ti_ttl = d\<rparr>)"

fun first_decode :: "b64_encoding list \<Rightarrow> string \<Rightarrow> err + bytes" where
  "first_decode [] s = Inl (Other ''auth: signing seed is not valid base64'')"
| "first_decode (enc # encs) s =
     (case b64_decode enc s of Some b \<Rightarrow> Inr b | None \<Rightarrow> first_decode encs s)"

definition ParseSigningSeed :: "string \<Rightarrow> err + bytes" where
  "ParseSigningSeed encoded =
     first_decode [StdEncoding, RawStdEncoding, URLEncoding, RawURLEncoding] encoded"

text \<open>The token id comes from \<^verbatim>\<open>uuid.NewString\<close>, which panics when no UUID can be made.\<close>

definition Mint :: "'x ext_scheme \<Rightarrow> TokenIssuer \<Rightarrow> uuid \<Rightarrow> string \<Rightarrow> string list \<Rightarrow> instant \<Rightarrow> ('d, string) io" where
  "Mint E t userID username roles now w =
     (case uuid_NewV7 w of
        (Inl e, w1) \<Rightarrow> (Inl Panicked, w1)
      | (Inr jti, w1) \<Rightarrow>
          (let claims = \<lparr>cl_Issuer = Issuer, cl_Subject = uuid_String E userID,
                         cl_Audience = [Audience],
                         cl_ExpiresAt = Some (NewNumericDate E (now + ti_ttl t)),
                         cl_NotBefore = None, cl_IssuedAt = Some (NewNumericDate E now),
                         cl_ID = uuid_String E jti, cl_PreferredUsername = username,
                         cl_Roles = roles\<rparr>
           in case SignedString E (ti_private t) \<lparr>h_alg = EdDSA, h_kid = ti_kid t\<rparr> claims of
                Inl e \<Rightarrow> (Inl (Other ''sign token''), w1)
              | Inr str \<Rightarrow> (Inr str, w1)))"

definition Verify_opts :: parse_opts where
  "Verify_opts = \<lparr>po_methods = [EdDSA], po_issuer = Issuer, po_audience = Audience,
                  po_exp_required = True\<rparr>"

definition TokenIssuer_Verify :: "'x ext_scheme \<Rightarrow> TokenIssuer \<Rightarrow> string \<Rightarrow> ('d, Claims) io" where
  "TokenIssuer_Verify E t token w =
     (case time_now w of (now, w1) \<Rightarrow>
        (case ParseWithClaims E (ti_public t) Verify_opts now token of
           Inl e \<Rightarrow> (Inl (ErrInvalidToken token), w1)
         | Inr claims \<Rightarrow> (Inr claims, w1)))"

record JWK =
  jwk_Kty :: string
  jwk_Crv :: string
  jwk_X :: string
  jwk_Kid :: string
  jwk_Use :: string
  jwk_Alg :: string

definition JWKS :: "TokenIssuer \<Rightarrow> JWK list" where
  "JWKS t = [\<lparr>jwk_Kty = ''OKP'', jwk_Crv = ''Ed25519'', jwk_X = b64_encode RawURLEncoding (ti_public t),
              jwk_Kid = ti_kid t, jwk_Use = ''sig'', jwk_Alg = EdDSA\<rparr>]"

section \<open>Refresh tokens\<close>

definition HashRefreshToken :: "'x crypto_scheme \<Rightarrow> string \<Rightarrow> bytes" where
  "HashRefreshToken E token = Sum256 E (bytes_of_string token)"

definition NewRefreshToken :: "'x crypto_scheme \<Rightarrow> ('d, string \<times> bytes) io" where
  "NewRefreshToken E w =
     (case rand_read 32 w of
        (Inl e, w1) \<Rightarrow> (Inl (Other ''generate refresh token''), w1)
      | (Inr raw, w1) \<Rightarrow>
          (let token = b64_encode RawURLEncoding raw in (Inr (token, HashRefreshToken E token), w1)))"

section \<open>Facts\<close>

lemma NewTokenIssuer_Inr:
  assumes "NewTokenIssuer E seed d = Inr t"
  shows "length seed = 32" "ti_private t = seed @ ed25519_public E seed" "ti_public t = ed25519_public E seed"
    "ti_ttl t = (if d \<le> 0 then DefaultAccessTokenTTL else d)"
    "ti_kid t = b64_encode RawURLEncoding (take 8 (Sum256 E (ed25519_public E seed)))"
  using assms by (auto simp: NewTokenIssuer_def SeedSize_def Let_def split: if_splits)

lemma issuer_ttl_pos: "NewTokenIssuer E seed d = Inr t \<Longrightarrow> 0 < ti_ttl t"
  by (auto simp: NewTokenIssuer_def DefaultAccessTokenTTL_def duration_units Let_def split: if_splits)

lemma first_decode_agree:
  assumes "enc \<in> set encs" "good_encoding enc"
    and "\<forall>e \<in> set encs. agree e enc \<or> agree enc e \<or> e = enc"
  shows "first_decode encs (b64_encode enc b) = Inr b"
  using assms
proof (induction encs)
  case (Cons e encs)
  have rt: "b64_decode enc (b64_encode enc b) = Some b" using Cons.prems by (simp add: b64_roundtrip)
  show ?case
  proof (cases "b64_decode e (b64_encode enc b)")
    case None
    with rt have "e \<noteq> enc" by auto
    with Cons None show ?thesis by simp
  next
    case (Some x)
    with rt Cons.prems(3) have "x = b" by (auto dest: b64_decode_agree)
    with Some show ?thesis by simp
  qed
qed simp

lemma NewRefreshToken_Inr:
  assumes "NewRefreshToken E w = (Inr (tok, h), w')"
  shows "h = HashRefreshToken E tok" "length tok = 43" "w' = w\<lparr>entropy := stl (entropy w)\<rparr>"
    "\<exists>raw. rand_read 32 w = (Inr raw, w') \<and> tok = b64_encode RawURLEncoding raw"
proof -
  from assms obtain raw where raw: "rand_read 32 w = (Inr raw, w')" "tok = b64_encode RawURLEncoding raw"
      "h = HashRefreshToken E tok"
    by (auto simp: NewRefreshToken_def Let_def split: prod.splits sum.splits)
  then show "h = HashRefreshToken E tok"
    "\<exists>raw. rand_read 32 w = (Inr raw, w') \<and> tok = b64_encode RawURLEncoding raw" by auto
  have "length raw = 32" using raw(1) by (rule rand_read_length)
  then show "length tok = 43"
    using raw(2) by (simp add: b64_encode_raw_length RawURLEncoding_def)
  show "w' = w\<lparr>entropy := stl (entropy w)\<rparr>"
    using raw(1) by (auto simp: rand_read_def Let_def split: option.splits)
qed

lemma NewRefreshToken_frame:
  "NewRefreshToken E w = (r, w') \<Longrightarrow> w' = w\<lparr>entropy := stl (entropy w)\<rparr>"
  by (auto simp: NewRefreshToken_def rand_read_def Let_def split: prod.splits sum.splits option.splits)

lemma Mint_frame: "Mint E t u n rs now w = (r, w') \<Longrightarrow> w' = w\<lparr>uuids := stl (uuids w)\<rparr>"
  by (auto simp: Mint_def uuid_NewV7_def Let_def split: prod.splits sum.splits option.splits)

text \<open>The tokens \<^verbatim>\<open>Mint\<close> can return at a given time, over all token ids.\<close>

definition minted :: "'x ext_scheme \<Rightarrow> TokenIssuer \<Rightarrow> uuid \<Rightarrow> string \<Rightarrow> string list \<Rightarrow> instant \<Rightarrow> string \<Rightarrow> bool" where
  "minted E t userID username roles now tok \<longleftrightarrow>
     (\<exists>jti. SignedString E (ti_private t) \<lparr>h_alg = EdDSA, h_kid = ti_kid t\<rparr>
        \<lparr>cl_Issuer = Issuer, cl_Subject = uuid_String E userID, cl_Audience = [Audience],
         cl_ExpiresAt = Some (NewNumericDate E (now + ti_ttl t)), cl_NotBefore = None,
         cl_IssuedAt = Some (NewNumericDate E now), cl_ID = uuid_String E jti,
         cl_PreferredUsername = username, cl_Roles = roles\<rparr> = Inr tok)"

lemma Mint_minted: "Mint E t u n rs now w = (Inr tok, w') \<Longrightarrow> minted E t u n rs now tok"
  by (auto simp: Mint_def minted_def Let_def split: prod.splits sum.splits)

lemma minted_Verify:
  assumes jwt: "jwt_ok E" and iss: "NewTokenIssuer E seed d = Inr t" and mint: "minted E t u n rs now tok"
    and time: "shd (clock w2) < (now + ti_ttl t) div Second * Second" and rs: "list_all is_ascii rs"
  shows "\<exists>c. TokenIssuer_Verify E t tok w2 = (Inr c, w2\<lparr>clock := stl (clock w2)\<rparr>) \<and>
    cl_Subject c = uuid_String E u \<and> (is_ascii n \<longrightarrow> cl_PreferredUsername c = n) \<and> cl_Roles c = rs \<and>
    cl_ExpiresAt c = Some ((now + ti_ttl t) div Second * Second)"
proof -
  have nd: "NewNumericDate E x = x div Second * Second" for x using jwt by (simp add: jwt_ok_def)
  from mint obtain jti where sig: "SignedString E (ti_private t) \<lparr>h_alg = EdDSA, h_kid = ti_kid t\<rparr>
      \<lparr>cl_Issuer = Issuer, cl_Subject = uuid_String E u, cl_Audience = [Audience],
       cl_ExpiresAt = Some ((now + ti_ttl t) div Second * Second), cl_NotBefore = None,
       cl_IssuedAt = Some (now div Second * Second), cl_ID = uuid_String E jti,
       cl_PreferredUsername = n, cl_Roles = rs\<rparr> = Inr tok" (is "SignedString E _ ?h ?c = _")
    by (auto simp: minted_def nd)
  have "claims_valid Verify_opts (shd (clock w2)) ?c" and "h_alg ?h \<in> set (po_methods Verify_opts)"
    using time by (simp_all add: claims_valid_def Verify_opts_def)
  moreover have "mint_form E ?c" using rs by (auto simp: mint_form_def whole_seconds_def)
  ultimately obtain n' where
    "ParseWithClaims E (ti_public t) Verify_opts (shd (clock w2)) tok = Inr (?c\<lparr>cl_PreferredUsername := n'\<rparr>)"
    "is_ascii n \<longrightarrow> n' = n"
    using jwt sig NewTokenIssuer_Inr [OF iss] unfolding jwt_ok_def by (metis Claims.select_convs(8))
  then show ?thesis by (simp add: TokenIssuer_Verify_def time_now_def)
qed

lemma Verify_valid:
  assumes "jwt_ok E" "TokenIssuer_Verify E t tok w = (Inr c, w')"
  shows "cl_Issuer c = Issuer" "Audience \<in> set (cl_Audience c)"
    "\<exists>e. cl_ExpiresAt c = Some e \<and> shd (clock w) < e"
proof -
  have "ParseWithClaims E (ti_public t) Verify_opts (shd (clock w)) tok = Inr c"
    using assms(2) by (auto simp: TokenIssuer_Verify_def time_now_def split: sum.splits)
  with assms(1) have "claims_valid Verify_opts (shd (clock w)) c" unfolding jwt_ok_def by blast
  then show "cl_Issuer c = Issuer" "Audience \<in> set (cl_Audience c)"
    "\<exists>e. cl_ExpiresAt c = Some e \<and> shd (clock w) < e"
    by (auto simp: claims_valid_def Verify_opts_def split: option.splits)
qed

end
