(* ===== verification/Store.thy ===== *)
theory Store
  imports Prelude
begin

text \<open>
  \<^verbatim>\<open>internal/store/store.go\<close>: the rows, the \<^verbatim>\<open>Store\<close> interface and \<^verbatim>\<open>RefreshToken.Active\<close>.
  A Go interface value is a table of methods, so \<open>Store\<close> is a record of operations over a
  state type \<open>'d\<close>; \<^verbatim>\<open>Fake_Store\<close> and \<^verbatim>\<open>Postgres_Store\<close> build two such records. What the
  service layer may rely on is the locale \<open>store_contract\<close>: every operation is described by
  its effect on the abstract state \<open>astore\<close> (three finite maps), and a failed write may or
  may not have happened, as with a lost reply. Both implementations interpret it.
\<close>

section \<open>Rows\<close>

record User =
  u_ID :: uuid
  u_Username :: string
  u_DisplayName :: string
  u_Email :: "string option"
  u_Role :: string
  u_Status :: string
  u_CreatedAt :: instant
  u_UpdatedAt :: instant

record Credential =
  c_UserID :: uuid
  c_Kind :: string
  c_PasswordHash :: string
  c_MustChange :: bool
  c_UpdatedAt :: instant

record RefreshToken =
  t_ID :: uuid
  t_UserID :: uuid
  t_TokenHash :: bytes
  t_DeviceName :: "string option"
  t_IssuedAt :: instant
  t_ExpiresAt :: instant
  t_RevokedAt :: "instant option"
  t_ReplacedBy :: "uuid option"

definition RoleAdmin :: string where "RoleAdmin = ''admin''"
definition RoleMember :: string where "RoleMember = ''member''"
definition StatusActive :: string where "StatusActive = ''active''"
definition StatusDisabled :: string where "StatusDisabled = ''disabled''"

lemmas role_status_defs = RoleAdmin_def RoleMember_def StatusActive_def StatusDisabled_def

definition Active :: "RefreshToken \<Rightarrow> instant \<Rightarrow> bool" where
  "Active t now \<longleftrightarrow> t_RevokedAt t = None \<and> t_ReplacedBy t = None \<and> now < t_ExpiresAt t"

record CreateUserParams =
  cp_Username :: string
  cp_DisplayName :: string
  cp_Role :: string

record UpdateUserParams =
  up_ID :: uuid
  up_DisplayName :: "string option"
  up_Email :: "string option"
  up_Role :: "string option"
  up_Status :: "string option"

section \<open>The interface\<close>

record 'd Store =
  st_CreateUser :: "CreateUserParams \<Rightarrow> ('d, User) io"
  st_GetUser :: "uuid \<Rightarrow> ('d, User) io"
  st_GetUserByUsername :: "string \<Rightarrow> ('d, User) io"
  st_ListUsers :: "('d, User list) io"
  st_UpdateUser :: "UpdateUserParams \<Rightarrow> ('d, User) io"
  st_CountUsers :: "('d, int) io"
  st_GetCredential :: "uuid \<Rightarrow> ('d, Credential) io"
  st_SetCredential :: "uuid \<Rightarrow> string \<Rightarrow> bool \<Rightarrow> ('d, unit) io"
  st_CreateRefreshToken :: "RefreshToken \<Rightarrow> ('d, unit) io"
  st_GetRefreshTokenByHash :: "bytes \<Rightarrow> ('d, RefreshToken) io"
  st_ReplaceRefreshToken :: "uuid \<Rightarrow> uuid \<Rightarrow> ('d, unit) io"
  st_RevokeRefreshToken :: "uuid \<Rightarrow> ('d, unit) io"
  st_RevokeRefreshTokenChain :: "uuid \<Rightarrow> ('d, unit) io"
  st_RevokeUserRefreshTokens :: "uuid \<Rightarrow> uuid option \<Rightarrow> ('d, unit) io"
  st_ListUserSessions :: "uuid \<Rightarrow> ('d, RefreshToken list) io"
  st_Ping :: "('d, unit) io"

section \<open>Abstract state and effects\<close>

record astore =
  a_users :: "uuid \<rightharpoonup> User"
  a_creds :: "uuid \<rightharpoonup> Credential"
  a_toks :: "uuid \<rightharpoonup> RefreshToken"

definition put_user :: "User \<Rightarrow> astore \<Rightarrow> astore" where
  "put_user u a = a\<lparr>a_users := (a_users a)(u_ID u \<mapsto> u)\<rparr>"

definition put_cred :: "uuid \<Rightarrow> string \<Rightarrow> bool \<Rightarrow> instant \<Rightarrow> astore \<Rightarrow> astore" where
  "put_cred i h mc now a =
     a\<lparr>a_creds := (a_creds a)(i \<mapsto> \<lparr>c_UserID = i, c_Kind = ''password'', c_PasswordHash = h,
          c_MustChange = mc, c_UpdatedAt = now\<rparr>)\<rparr>"

definition put_tok :: "RefreshToken \<Rightarrow> astore \<Rightarrow> astore" where
  "put_tok t a = a\<lparr>a_toks := (a_toks a)(t_ID t \<mapsto> t)\<rparr>"

definition new_user :: "CreateUserParams \<Rightarrow> uuid \<Rightarrow> instant \<Rightarrow> User" where
  "new_user p i now =
     \<lparr>u_ID = i, u_Username = cp_Username p, u_DisplayName = cp_DisplayName p, u_Email = None,
      u_Role = cp_Role p, u_Status = StatusActive, u_CreatedAt = now, u_UpdatedAt = now\<rparr>"

definition apply_update :: "UpdateUserParams \<Rightarrow> instant \<Rightarrow> User \<Rightarrow> User" where
  "apply_update p now u =
     u\<lparr>u_DisplayName := case_option (u_DisplayName u) id (up_DisplayName p),
       u_Email := (case up_Email p of None \<Rightarrow> u_Email u | Some e \<Rightarrow> Some e),
       u_Role := case_option (u_Role u) id (up_Role p),
       u_Status := case_option (u_Status u) id (up_Status p),
       u_UpdatedAt := now\<rparr>"

definition revoke_at :: "instant \<Rightarrow> RefreshToken \<Rightarrow> RefreshToken" where
  "revoke_at now t = (if t_RevokedAt t = None then t\<lparr>t_RevokedAt := Some now\<rparr> else t)"

definition replace_at :: "instant \<Rightarrow> uuid \<Rightarrow> RefreshToken \<Rightarrow> RefreshToken" where
  "replace_at now new t = t\<lparr>t_RevokedAt := Some now, t_ReplacedBy := Some new\<rparr>"

definition revoke_if :: "(RefreshToken \<Rightarrow> bool) \<Rightarrow> instant \<Rightarrow> RefreshToken \<Rightarrow> RefreshToken" where
  "revoke_if P now t = (if P t then revoke_at now t else t)"

definition revoke_where :: "(RefreshToken \<Rightarrow> bool) \<Rightarrow> instant \<Rightarrow> astore \<Rightarrow> astore" where
  "revoke_where P now a = a\<lparr>a_toks := (\<lambda>i. map_option (revoke_if P now) (a_toks a i))\<rparr>"

text \<open>The rotation graph: an edge leads from a token to the one it was rotated into.\<close>

definition rotated :: "astore \<Rightarrow> (uuid \<times> uuid) set" where
  "rotated a = {(x, y). \<exists>t. a_toks a x = Some t \<and> t_ReplacedBy t = Some y}"

definition chain :: "astore \<Rightarrow> uuid \<Rightarrow> uuid set" where
  "chain a x = (rotated a)\<^sup>* `` {x}"

definition spared :: "uuid option \<Rightarrow> uuid \<Rightarrow> bool" where
  "spared ex i \<longleftrightarrow> ex = Some i"

section \<open>Well-formed abstract states\<close>

text \<open>
  \<open>keyed\<close> is what a keyed table gives by itself: rows sit under their own id, finitely many,
  user names are unique up to case and token hashes are unique.
\<close>

definition users_keyed :: "(string \<Rightarrow> string) \<Rightarrow> (uuid \<rightharpoonup> User) \<Rightarrow> bool" where
  "users_keyed ci m \<longleftrightarrow> finite (dom m) \<and> (\<forall>i u. m i = Some u \<longrightarrow> u_ID u = i) \<and>
     (\<forall>i j u v. m i = Some u \<longrightarrow> m j = Some v \<longrightarrow> ci (u_Username u) = ci (u_Username v) \<longrightarrow> i = j)"

definition toks_keyed :: "(uuid \<rightharpoonup> RefreshToken) \<Rightarrow> bool" where
  "toks_keyed m \<longleftrightarrow> finite (dom m) \<and> (\<forall>i t. m i = Some t \<longrightarrow> t_ID t = i) \<and>
     (\<forall>i j t s. m i = Some t \<longrightarrow> m j = Some s \<longrightarrow> t_TokenHash t = t_TokenHash s \<longrightarrow> i = j)"

definition keyed :: "(string \<Rightarrow> string) \<Rightarrow> astore \<Rightarrow> bool" where
  "keyed ci a \<longleftrightarrow> users_keyed ci (a_users a) \<and> toks_keyed (a_toks a) \<and>
     (\<forall>i c. a_creds a i = Some c \<longrightarrow> c_UserID c = i)"

text \<open>
  \<open>linked\<close> is what the operations of the service keep true between the tables: rows refer to
  existing users (\<open>refs_ok\<close>); a rotated token is revoked, its successor exists and belongs to
  the same user (\<open>rot_ok\<close>); and the rotation graph has no cycle.
\<close>

definition refs_ok :: "astore \<Rightarrow> bool" where
  "refs_ok a \<longleftrightarrow> dom (a_creds a) \<subseteq> dom (a_users a) \<and>
     (\<forall>i t. a_toks a i = Some t \<longrightarrow> t_UserID t \<in> dom (a_users a))"

definition rot_ok :: "astore \<Rightarrow> bool" where
  "rot_ok a \<longleftrightarrow>
     (\<forall>i t n. a_toks a i = Some t \<longrightarrow> t_ReplacedBy t = Some n \<longrightarrow>
        t_RevokedAt t \<noteq> None \<and> (\<exists>s. a_toks a n = Some s \<and> t_UserID s = t_UserID t))"

definition linked :: "astore \<Rightarrow> bool" where
  "linked a \<longleftrightarrow> refs_ok a \<and> rot_ok a \<and> acyclic (rotated a)"

definition tok_fresh :: "RefreshToken \<Rightarrow> astore \<Rightarrow> bool" where
  "tok_fresh t a \<longleftrightarrow> a_toks a (t_ID t) = None \<and>
     (\<forall>i s. a_toks a i = Some s \<longrightarrow> t_TokenHash s \<noteq> t_TokenHash t)"

definition name_free :: "(string \<Rightarrow> string) \<Rightarrow> string \<Rightarrow> astore \<Rightarrow> bool" where
  "name_free ci n a \<longleftrightarrow> (\<forall>i u. a_users a i = Some u \<longrightarrow> ci (u_Username u) \<noteq> ci n)"

definition empty_astore :: astore where
  "empty_astore = \<lparr>a_users = Map.empty, a_creds = Map.empty, a_toks = Map.empty\<rparr>"

section \<open>Effects keep states well formed\<close>

lemma effect_fields [store_simps]:
  "a_users (put_user u a) = (a_users a)(u_ID u \<mapsto> u)" "a_creds (put_user u a) = a_creds a"
  "a_toks (put_user u a) = a_toks a" "a_users (put_cred i h mc now a) = a_users a"
  "a_toks (put_cred i h mc now a) = a_toks a" "a_users (put_tok t a) = a_users a"
  "a_creds (put_tok t a) = a_creds a" "a_toks (put_tok t a) = (a_toks a)(t_ID t \<mapsto> t)"
  "a_users (revoke_where P now a) = a_users a" "a_creds (revoke_where P now a) = a_creds a"
  by (simp_all add: put_user_def put_cred_def put_tok_def revoke_where_def)

lemma toks_revoke_where [store_simps]:
  "a_toks (revoke_where P now a) i = map_option (revoke_if P now) (a_toks a i)"
  by (simp add: revoke_where_def)

lemma cred_put_cred [store_simps]:
  "a_creds (put_cred i h mc now a) = (a_creds a)(i \<mapsto> \<lparr>c_UserID = i, c_Kind = ''password'',
     c_PasswordHash = h, c_MustChange = mc, c_UpdatedAt = now\<rparr>)"
  by (simp add: put_cred_def)

lemma token_fields [simp]:
  "t_ID (revoke_at now t) = t_ID t" "t_UserID (revoke_at now t) = t_UserID t"
  "t_TokenHash (revoke_at now t) = t_TokenHash t" "t_ReplacedBy (revoke_at now t) = t_ReplacedBy t"
  "t_ExpiresAt (revoke_at now t) = t_ExpiresAt t" "t_RevokedAt (revoke_at now t) \<noteq> None"
  "t_ID (replace_at now n t) = t_ID t" "t_UserID (replace_at now n t) = t_UserID t"
  "t_TokenHash (replace_at now n t) = t_TokenHash t" "t_ReplacedBy (replace_at now n t) = Some n"
  "t_RevokedAt (replace_at now n t) = Some now" "t_ExpiresAt (replace_at now n t) = t_ExpiresAt t"
  by (simp_all add: revoke_at_def replace_at_def)

lemma revoke_if_fields [simp]:
  "t_ID (revoke_if P now t) = t_ID t" "t_UserID (revoke_if P now t) = t_UserID t"
  "t_TokenHash (revoke_if P now t) = t_TokenHash t" "t_ReplacedBy (revoke_if P now t) = t_ReplacedBy t"
  "t_ExpiresAt (revoke_if P now t) = t_ExpiresAt t" "t_DeviceName (revoke_if P now t) = t_DeviceName t"
  "t_RevokedAt (revoke_if P now t) = None \<longleftrightarrow> t_RevokedAt t = None \<and> \<not> P t"
  by (simp_all add: revoke_if_def revoke_at_def)

lemma revoke_if_Some [simp]:
  "(\<exists>y. t_RevokedAt (revoke_if P now t) = Some y) \<longleftrightarrow> P t \<or> (\<exists>y. t_RevokedAt t = Some y)"
  by (auto simp: revoke_if_def revoke_at_def)

lemma user_fields [simp]:
  "u_ID (new_user p i now) = i" "u_Username (new_user p i now) = cp_Username p"
  "u_Role (new_user p i now) = cp_Role p" "u_Status (new_user p i now) = StatusActive"
  "u_ID (apply_update up now u) = u_ID u" "u_Username (apply_update up now u) = u_Username u"
  by (simp_all add: new_user_def apply_update_def)

lemma rotated_effects [store_simps]:
  "rotated (put_user u a) = rotated a" "rotated (put_cred i h mc now a) = rotated a"
  by (auto simp: rotated_def store_simps)

lemma rotated_revoke_where [store_simps]: "rotated (revoke_where P now a) = rotated a"
  by (auto simp: rotated_def store_simps)

lemma rotated_put_fresh: "a_toks a (t_ID t) = None \<Longrightarrow> t_ReplacedBy t = None \<Longrightarrow> rotated (put_tok t a) = rotated a"
  by (auto simp: rotated_def store_simps split: if_splits)

lemma rotated_replace:
  "a_toks a (t_ID t) = Some t \<Longrightarrow> t_ReplacedBy t = None \<Longrightarrow>
     rotated (put_tok (replace_at now n t) a) = insert (t_ID t, n) (rotated a)"
  by (auto simp: rotated_def store_simps split: if_splits)

lemma chain_leaf: "a_toks a x = None \<or> t_ReplacedBy (the (a_toks a x)) = None \<Longrightarrow> chain a x = {x}"
  by (auto simp: chain_def rotated_def elim: converse_rtranclE)

lemma keyed_empty: "keyed ci empty_astore"
  by (simp add: keyed_def users_keyed_def toks_keyed_def empty_astore_def)

lemma keyed_tok_ID: "keyed ci a \<Longrightarrow> a_toks a i = Some t \<Longrightarrow> t_ID t = i"
  by (simp add: keyed_def toks_keyed_def)

lemma keyed_user_ID: "keyed ci a \<Longrightarrow> a_users a i = Some u \<Longrightarrow> u_ID u = i"
  by (simp add: keyed_def users_keyed_def)

lemma keyed_hash_unique:
  "keyed ci a \<Longrightarrow> a_toks a i = Some t \<Longrightarrow> a_toks a j = Some s \<Longrightarrow> t_TokenHash t = t_TokenHash s \<Longrightarrow> i = j"
  unfolding keyed_def toks_keyed_def by blast

lemma keyed_username_unique:
  "keyed ci a \<Longrightarrow> a_users a i = Some u \<Longrightarrow> a_users a j = Some v \<Longrightarrow> ci (u_Username u) = ci (u_Username v) \<Longrightarrow> i = j"
  unfolding keyed_def users_keyed_def by blast

lemma keyed_put_user_new:
  "keyed ci a \<Longrightarrow> name_free ci (cp_Username p) a \<Longrightarrow> keyed ci (put_user (new_user p i now) a)"
  unfolding keyed_def users_keyed_def name_free_def
  by (simp add: store_simps) (metis user_fields(2))

lemma keyed_put_user_update:
  "keyed ci a \<Longrightarrow> a_users a i = Some u \<Longrightarrow> keyed ci (put_user (apply_update up now u) a)"
  unfolding keyed_def users_keyed_def by (simp add: store_simps) (metis user_fields(6))

lemma keyed_put_cred: "keyed ci a \<Longrightarrow> keyed ci (put_cred i h mc now a)"
  by (simp add: keyed_def store_simps)

lemma keyed_put_tok: "keyed ci a \<Longrightarrow> tok_fresh t a \<Longrightarrow> keyed ci (put_tok t a)"
  unfolding keyed_def toks_keyed_def tok_fresh_def by (simp add: store_simps) metis

lemma keyed_replace: "keyed ci a \<Longrightarrow> a_toks a i = Some t \<Longrightarrow> keyed ci (put_tok (replace_at now n t) a)"
  unfolding keyed_def toks_keyed_def by (simp add: store_simps) (metis token_fields(9))

lemma keyed_revoke_where: "keyed ci a \<Longrightarrow> keyed ci (revoke_where P now a)"
proof -
  have "dom (a_toks (revoke_where P now a)) = dom (a_toks a)" by (auto simp: store_simps dom_def)
  then show "keyed ci a \<Longrightarrow> keyed ci (revoke_where P now a)"
    unfolding keyed_def toks_keyed_def by (auto simp: store_simps)
qed

lemma acyclic_insert_leaf:
  assumes "acyclic r" "old \<noteq> new" "new \<notin> Domain r"
  shows "acyclic (insert (old, new) r)"
proof -
  have "(new, old) \<notin> r\<^sup>*" using assms by (auto elim: converse_rtranclE)
  with assms show ?thesis by (simp add: acyclic_insert)
qed

lemma rot_okI:
  "(\<And>i t n. a_toks a i = Some t \<Longrightarrow> t_ReplacedBy t = Some n \<Longrightarrow>
      t_RevokedAt t \<noteq> None \<and> (\<exists>s. a_toks a n = Some s \<and> t_UserID s = t_UserID t)) \<Longrightarrow> rot_ok a"
  by (simp add: rot_ok_def)

lemma rot_okD:
  assumes "rot_ok a" "a_toks a i = Some t" "t_ReplacedBy t = Some n"
  obtains s where "a_toks a n = Some s" "t_UserID s = t_UserID t" "t_RevokedAt t \<noteq> None"
  using assms unfolding rot_ok_def by blast

lemma rot_ok_revoke_where: "rot_ok a \<Longrightarrow> rot_ok (revoke_where P now a)"
proof (rule rot_okI)
  fix i t n
  assume a: "rot_ok a" and t: "a_toks (revoke_where P now a) i = Some t" "t_ReplacedBy t = Some n"
  from t obtain t0 where "a_toks a i = Some t0" "t = revoke_if P now t0" "t_ReplacedBy t0 = Some n"
    by (auto simp: store_simps)
  with a show "t_RevokedAt t \<noteq> None \<and> (\<exists>s. a_toks (revoke_where P now a) n = Some s \<and> t_UserID s = t_UserID t)"
    by (auto simp: store_simps elim!: rot_okD)
qed

lemma rot_ok_replace:
  assumes "rot_ok a" "a_toks a (t_ID t) = Some t" "a_toks a new = Some n" "t_UserID n = t_UserID t"
  shows "rot_ok (put_tok (replace_at now new t) a)"
proof (rule rot_okI)
  fix i s m
  assume s: "a_toks (put_tok (replace_at now new t) a) i = Some s" "t_ReplacedBy s = Some m"
  show "t_RevokedAt s \<noteq> None \<and>
    (\<exists>s'. a_toks (put_tok (replace_at now new t) a) m = Some s' \<and> t_UserID s' = t_UserID s)"
  proof (cases "i = t_ID t")
    case True
    with s assms show ?thesis by (auto simp: store_simps)
  next
    case False
    with s have "a_toks a i = Some s" by (simp add: store_simps)
    then obtain s' where "a_toks a m = Some s'" "t_UserID s' = t_UserID s" "t_RevokedAt s \<noteq> None"
      using assms(1) s(2) by (blast elim: rot_okD)
    with assms(2) show ?thesis by (auto simp: store_simps)
  qed
qed

lemma linked_empty: "linked empty_astore"
  by (simp add: linked_def refs_ok_def rot_ok_def empty_astore_def rotated_def acyclic_def)

lemma linked_put_cred: "linked a \<Longrightarrow> i \<in> dom (a_users a) \<Longrightarrow> linked (put_cred i h mc now a)"
  by (auto simp: linked_def refs_ok_def rot_ok_def store_simps)

lemma linked_put_user: "linked a \<Longrightarrow> linked (put_user u a)"
  by (auto simp: linked_def refs_ok_def rot_ok_def store_simps)

lemma linked_put_tok:
  "linked a \<Longrightarrow> a_toks a (t_ID t) = None \<Longrightarrow> t_UserID t \<in> dom (a_users a) \<Longrightarrow>
     t_ReplacedBy t = None \<Longrightarrow> linked (put_tok t a)"
  unfolding linked_def
  by (auto simp: rotated_put_fresh) (auto simp: refs_ok_def rot_ok_def store_simps, metis option.distinct(1))

lemma linked_revoke_where: "linked a \<Longrightarrow> linked (revoke_where P now a)"
  by (auto simp: linked_def store_simps refs_ok_def rot_ok_revoke_where) (metis domD)

lemma linked_replace:
  assumes "linked a" "a_toks a old = Some t" "t_ID t = old" "t_ReplacedBy t = None" "old \<noteq> new"
    and "a_toks a new = Some n" "t_ReplacedBy n = None" "t_UserID n = t_UserID t"
  shows "linked (put_tok (replace_at now new t) a)"
proof -
  have "new \<notin> Domain (rotated a)" using assms by (auto simp: rotated_def)
  then have "acyclic (insert (old, new) (rotated a))"
    using assms by (intro acyclic_insert_leaf) (auto simp: linked_def)
  then have "acyclic (rotated (put_tok (replace_at now new t) a))"
    using assms by (metis rotated_replace)
  moreover have "refs_ok (put_tok (replace_at now new t) a)"
    using assms by (auto simp: linked_def refs_ok_def store_simps)
  moreover have "rot_ok (put_tok (replace_at now new t) a)"
    using assms by (auto simp: linked_def intro: rot_ok_replace)
  ultimately show ?thesis by (simp add: linked_def)
qed

text \<open>Ids and hashes of new rows are new. The in-memory store leaves this to its caller.\<close>

definition fresh_user_id :: "uuid \<Rightarrow> (uuid \<rightharpoonup> User) \<Rightarrow> bool" where
  "fresh_user_id i m \<longleftrightarrow> m i = None"

definition fresh_token_key :: "uuid \<Rightarrow> bytes \<Rightarrow> (uuid \<rightharpoonup> RefreshToken) \<Rightarrow> bool" where
  "fresh_token_key i h m \<longleftrightarrow> m i = None \<and> (\<forall>j s. m j = Some s \<longrightarrow> t_TokenHash s \<noteq> h)"

lemma fresh_token_key_tok: "fresh_token_key (t_ID t) (t_TokenHash t) (a_toks a) = tok_fresh t a"
  by (simp add: fresh_token_key_def tok_fresh_def)

section \<open>The contract\<close>

text \<open>
  The parameters: \<open>view\<close> reads the abstract state off an implementation state, \<open>iv\<close> is its
  invariant, \<open>ci\<close> the case folding of user names, \<open>ts\<close> what storing does to a time stamp, \<open>tm\<close> the time the store itself goes by, and
  \<open>fu\<close>, \<open>fr\<close> what the implementation expects of the ids and hashes of new rows (the in-memory
  store overwrites silently and needs fresh ones, a database checks them itself).
  \<open>frame\<close>: an operation keeps the implementation invariant and touches neither the log nor
  the entropy. \<open>wrote r P a a'\<close>: a successful write has the effect \<open>P\<close>; a failed one left the
  state alone or had the effect after all.
\<close>

definition frame :: "('d \<Rightarrow> bool) \<Rightarrow> 'd world \<Rightarrow> 'd world \<Rightarrow> bool" where
  "frame iv w w' \<longleftrightarrow> iv (db w') \<and> logs w' = logs w \<and> entropy w' = entropy w"

definition wrote :: "(err + 'a) \<Rightarrow> ('a \<Rightarrow> astore \<Rightarrow> bool) \<Rightarrow> astore \<Rightarrow> astore \<Rightarrow> bool" where
  "wrote r P a a' \<longleftrightarrow>
     (case r of Inr x \<Rightarrow> P x a' | Inl e \<Rightarrow> \<not> abrupt e \<and> (a' = a \<or> (\<exists>x. P x a')))"

definition undisturbed :: "('d \<Rightarrow> astore) \<Rightarrow> ('d \<Rightarrow> bool) \<Rightarrow> 'd world \<Rightarrow> err + 'a \<Rightarrow> 'd world \<Rightarrow> bool" where
  "undisturbed view iv w r w' \<longleftrightarrow>
     frame iv w w' \<and> uuids w' = uuids w \<and> view (db w') = view (db w) \<and> (\<forall>e. r = Inl e \<longrightarrow> \<not> abrupt e)"

definition read_only :: "('d \<Rightarrow> astore) \<Rightarrow> ('d \<Rightarrow> bool) \<Rightarrow> 'd world \<Rightarrow> err + 'a \<Rightarrow> 'd world \<Rightarrow> bool" where
  "read_only view iv w r w' \<longleftrightarrow> undisturbed view iv w r w' \<and> clock w' = clock w"

locale store_contract =
  fixes S :: "'d Store"
    and view :: "'d \<Rightarrow> astore"
    and iv :: "'d \<Rightarrow> bool"
    and ci :: "string \<Rightarrow> string"
    and ts :: "instant \<Rightarrow> instant"
    and tm :: "'d world \<Rightarrow> instant"
    and fu :: "uuid \<Rightarrow> (uuid \<rightharpoonup> User) \<Rightarrow> bool"
    and fr :: "uuid \<Rightarrow> bytes \<Rightarrow> (uuid \<rightharpoonup> RefreshToken) \<Rightarrow> bool"
  assumes keyed: "iv d \<Longrightarrow> keyed ci (view d)"
    and ts_le: "ts x \<le> x"
    and GetUser: "\<lbrakk>iv (db w); st_GetUser S i w = (ru, w')\<rbrakk> \<Longrightarrow>
      read_only view iv w ru w' \<and> (\<forall>u. ru = Inr u \<longrightarrow> a_users (view (db w)) i = Some u) \<and>
      (ru = Inl ErrNotFound \<longrightarrow> a_users (view (db w)) i = None)"
    and GetUserByUsername: "\<lbrakk>iv (db w); st_GetUserByUsername S n w = (ru, w')\<rbrakk> \<Longrightarrow>
      read_only view iv w ru w' \<and>
      (\<forall>u. ru = Inr u \<longrightarrow> a_users (view (db w)) (u_ID u) = Some u \<and> ci (u_Username u) = ci n) \<and>
      (ru = Inl ErrNotFound \<longrightarrow> name_free ci n (view (db w)))"
    and ListUsers: "\<lbrakk>iv (db w); st_ListUsers S w = (rl, w')\<rbrakk> \<Longrightarrow>
      read_only view iv w rl w' \<and>
      (\<forall>us. rl = Inr us \<longrightarrow> set us = ran (a_users (view (db w))) \<and> distinct us \<and>
         sorted (map u_CreatedAt us))"
    and CountUsers: "\<lbrakk>iv (db w); st_CountUsers S w = (rn, w')\<rbrakk> \<Longrightarrow>
      read_only view iv w rn w' \<and> (\<forall>n. rn = Inr n \<longrightarrow> n = int (card (dom (a_users (view (db w))))))"
    and GetCredential: "\<lbrakk>iv (db w); st_GetCredential S i w = (rc, w')\<rbrakk> \<Longrightarrow>
      read_only view iv w rc w' \<and> (\<forall>c. rc = Inr c \<longrightarrow> a_creds (view (db w)) i = Some c) \<and>
      (rc = Inl ErrNotFound \<longrightarrow> a_creds (view (db w)) i = None)"
    and GetRefreshTokenByHash: "\<lbrakk>iv (db w); st_GetRefreshTokenByHash S h w = (rt, w')\<rbrakk> \<Longrightarrow>
      read_only view iv w rt w' \<and>
      (\<forall>t. rt = Inr t \<longrightarrow> a_toks (view (db w)) (t_ID t) = Some t \<and> t_TokenHash t = h) \<and>
      (rt = Inl ErrNotFound \<longrightarrow> (\<forall>i t. a_toks (view (db w)) i = Some t \<longrightarrow> t_TokenHash t \<noteq> h))"
    and ListUserSessions: "\<lbrakk>iv (db w); st_ListUserSessions S i w = (rs, w')\<rbrakk> \<Longrightarrow>
      undisturbed view iv w rs w' \<and>
      (\<forall>l. rs = Inr l \<longrightarrow> set l = {t \<in> ran (a_toks (view (db w))). t_UserID t = i \<and> Active t (tm w)}
         \<and> distinct l \<and> sorted (map (\<lambda>t. - t_IssuedAt t) l))"
    and CreateUser: "\<lbrakk>iv (db w); \<And>i. shd (uuids w) = Some i \<Longrightarrow> fu i (a_users (view (db w)));
        st_CreateUser S p w = (ru, w')\<rbrakk> \<Longrightarrow>
      frame iv w w' \<and> (uuids w' = uuids w \<or> uuids w' = stl (uuids w)) \<and>
      (ru = Inl ErrDuplicateUsername \<longrightarrow> view (db w') = view (db w)) \<and>
      (ru = Inl Panicked \<and> view (db w') = view (db w) \<or>
       wrote ru (\<lambda>u a'. \<exists>i now. shd (uuids w) = Some i \<and> u = new_user p i now \<and> a' = put_user u (view (db w))
          \<and> a_users (view (db w)) i = None \<and> name_free ci (cp_Username p) (view (db w)))
          (view (db w)) (view (db w')))"
    and UpdateUser: "\<lbrakk>iv (db w); st_UpdateUser S up w = (ru, w')\<rbrakk> \<Longrightarrow>
      frame iv w w' \<and> uuids w' = uuids w \<and>
      (ru = Inl ErrNotFound \<longrightarrow> a_users (view (db w)) (up_ID up) = None) \<and>
      wrote ru (\<lambda>u a'. \<exists>u0 now. a_users (view (db w)) (up_ID up) = Some u0 \<and> u = apply_update up now u0 \<and>
          a' = put_user u (view (db w))) (view (db w)) (view (db w'))"
    and SetCredential: "\<lbrakk>iv (db w); st_SetCredential S i ph mc w = (r, w')\<rbrakk> \<Longrightarrow>
      frame iv w w' \<and> uuids w' = uuids w \<and>
      wrote r (\<lambda>_ a'. \<exists>now. a' = put_cred i ph mc now (view (db w))) (view (db w)) (view (db w'))"
    and CreateRefreshToken: "\<lbrakk>iv (db w); fr (t_ID t) (t_TokenHash t) (a_toks (view (db w))); t_RevokedAt t = None;
        t_ReplacedBy t = None; st_CreateRefreshToken S t w = (r, w')\<rbrakk> \<Longrightarrow>
      frame iv w w' \<and> uuids w' = uuids w \<and>
      wrote r (\<lambda>_ a'. tok_fresh t (view (db w)) \<and> a' = put_tok (t\<lparr>t_IssuedAt := ts (t_IssuedAt t), t_ExpiresAt := ts (t_ExpiresAt t)\<rparr>)
          (view (db w))) (view (db w)) (view (db w'))"
    and ReplaceRefreshToken: "\<lbrakk>iv (db w); st_ReplaceRefreshToken S old new w = (r, w')\<rbrakk> \<Longrightarrow>
      frame iv w w' \<and> uuids w' = uuids w \<and>
      (r = Inl ErrNotFound \<longrightarrow> view (db w') = view (db w)) \<and>
      wrote r (\<lambda>_ a'. \<exists>t now. a_toks (view (db w)) old = Some t \<and> t_ReplacedBy t = None \<and>
          a' = put_tok (replace_at now new t) (view (db w))) (view (db w)) (view (db w'))"
    and RevokeRefreshToken: "\<lbrakk>iv (db w); st_RevokeRefreshToken S i w = (r, w')\<rbrakk> \<Longrightarrow>
      frame iv w w' \<and> uuids w' = uuids w \<and>
      (r = Inl ErrNotFound \<longrightarrow> view (db w') = view (db w) \<and>
         (\<forall>t. a_toks (view (db w)) i = Some t \<longrightarrow> t_RevokedAt t \<noteq> None)) \<and>
      wrote r (\<lambda>_ a'. \<exists>now. a' = revoke_where (\<lambda>t. t_ID t = i) now (view (db w))) (view (db w)) (view (db w'))"
    and RevokeRefreshTokenChain: "\<lbrakk>iv (db w); acyclic (rotated (view (db w)));
        st_RevokeRefreshTokenChain S i w = (r, w')\<rbrakk> \<Longrightarrow>
      frame iv w w' \<and> uuids w' = uuids w \<and>
      wrote r (\<lambda>_ a'. \<exists>now. a' = revoke_where (\<lambda>t. t_ID t \<in> chain (view (db w)) i) now (view (db w)))
        (view (db w)) (view (db w'))"
    and RevokeUserRefreshTokens: "\<lbrakk>iv (db w); st_RevokeUserRefreshTokens S i ex w = (r, w')\<rbrakk> \<Longrightarrow>
      frame iv w w' \<and> uuids w' = uuids w \<and>
      wrote r (\<lambda>_ a'. \<exists>now. a' = revoke_where (\<lambda>t. t_UserID t = i \<and> \<not> spared ex (t_ID t)) now (view (db w)))
        (view (db w)) (view (db w'))"

text \<open>
  A store that does not fail on its own: what it refuses it refuses for a reason in the data.
  Such a store lets the service make progress.
\<close>

locale reliable_store = store_contract +
  assumes GetUser_total: "\<lbrakk>iv (db w); st_GetUser S i w = (Inl e, w')\<rbrakk> \<Longrightarrow> e = ErrNotFound"
    and GetUserByUsername_total: "\<lbrakk>iv (db w); st_GetUserByUsername S n w = (Inl e, w')\<rbrakk> \<Longrightarrow> e = ErrNotFound"
    and GetCredential_total: "\<lbrakk>iv (db w); st_GetCredential S i w = (Inl e, w')\<rbrakk> \<Longrightarrow> e = ErrNotFound"
    and GetRefreshTokenByHash_total: "\<lbrakk>iv (db w); st_GetRefreshTokenByHash S h w = (Inl e, w')\<rbrakk> \<Longrightarrow> e = ErrNotFound"
    and SetCredential_total: "\<lbrakk>iv (db w); i \<in> dom (a_users (view (db w)));
        st_SetCredential S i ph mc w = (r, w')\<rbrakk> \<Longrightarrow> r = Inr ()"
    and CreateRefreshToken_total: "\<lbrakk>iv (db w); fr (t_ID t) (t_TokenHash t) (a_toks (view (db w)));
        t_RevokedAt t = None; t_ReplacedBy t = None; tok_fresh t (view (db w));
        t_UserID t \<in> dom (a_users (view (db w))); st_CreateRefreshToken S t w = (r, w')\<rbrakk> \<Longrightarrow> r = Inr ()"
    and ReplaceRefreshToken_total: "\<lbrakk>iv (db w); a_toks (view (db w)) old = Some t; t_ReplacedBy t = None;
        new \<in> dom (a_toks (view (db w))); st_ReplaceRefreshToken S old new w = (r, w')\<rbrakk> \<Longrightarrow> r = Inr ()"
    and RevokeRefreshToken_total: "\<lbrakk>iv (db w); st_RevokeRefreshToken S i w = (Inl e, w')\<rbrakk> \<Longrightarrow> e = ErrNotFound"
    and RevokeRefreshTokenChain_total: "\<lbrakk>iv (db w); acyclic (rotated (view (db w)));
        i \<in> dom (a_toks (view (db w))); st_RevokeRefreshTokenChain S i w = (r, w')\<rbrakk> \<Longrightarrow> r = Inr ()"
    and RevokeUserRefreshTokens_total: "\<lbrakk>iv (db w); st_RevokeUserRefreshTokens S i ex w = (r, w')\<rbrakk> \<Longrightarrow> r = Inr ()"
    and CountUsers_total: "\<lbrakk>iv (db w); st_CountUsers S w = (rn, w')\<rbrakk> \<Longrightarrow> \<not> isl rn"
    and ListUserSessions_total: "\<lbrakk>iv (db w); st_ListUserSessions S i w = (rs, w')\<rbrakk> \<Longrightarrow> \<not> isl rs"
    and CreateUser_total: "\<lbrakk>iv (db w); shd (uuids w) = Some i; fu i (a_users (view (db w)));
        a_users (view (db w)) i = None; name_free ci (cp_Username p) (view (db w));
        cp_Role p \<in> {RoleAdmin, RoleMember}; st_CreateUser S p w = (ru, w')\<rbrakk> \<Longrightarrow> \<not> isl ru"
    and UpdateUser_total: "\<lbrakk>iv (db w); up_ID up \<in> dom (a_users (view (db w)));
        set_option (up_Role up) \<subseteq> {RoleAdmin, RoleMember}; set_option (up_Status up) \<subseteq> {StatusActive, StatusDisabled};
        st_UpdateUser S up w = (ru, w')\<rbrakk> \<Longrightarrow> \<not> isl ru"

end
