(* ===== verification/Service.thy ===== *)
theory Service
  imports Token Store
begin

text \<open>
  \<^verbatim>\<open>internal/service/service.go\<close>: the use cases of the account service, one definition per
  method, over an arbitrary \<open>Store\<close>. The logger is the log of the world, \<^verbatim>\<open>s.now\<close> its clock.
  Where the code drops an error (\<^verbatim>\<open>_ = f()\<close>) the model uses \<open>ignore_err\<close>, which still lets a
  panic or an endless loop through.
\<close>

definition dummyPHC :: string where
  "dummyPHC = ''$argon2id$v=19$m=19456,t=2,p=1$AAAAAAAAAAAAAAAAAAAAAA$Wn8+Vf2pTLXqRJmZ0uMy4kL7d0h5cW1oQ2s3b1p4c2E''"

record 'd Service =
  s_store :: "'d Store"
  s_hasher :: Hasher
  s_tokens :: TokenIssuer
  s_refreshTTL :: duration

definition Service_New :: "'d Store \<Rightarrow> Hasher \<Rightarrow> TokenIssuer \<Rightarrow> duration \<Rightarrow> 'd Service" where
  "Service_New st hasher tokens refreshTTL =
     \<lparr>s_store = st, s_hasher = hasher, s_tokens = tokens,
      s_refreshTTL = (if refreshTTL \<le> 0 then 30 * 24 * Hour else refreshTTL)\<rparr>"

lemma Service_New_fields [simp]:
  "s_store (Service_New st h t d) = st" "s_hasher (Service_New st h t d) = h" "s_tokens (Service_New st h t d) = t"
  by (simp_all add: Service_New_def)

record Session =
  ss_AccessToken :: string
  ss_RefreshToken :: string
  ss_TokenID :: uuid
  ss_User :: User
  ss_MustChange :: bool

record SessionInfo =
  si_ID :: uuid
  si_DeviceName :: "string option"
  si_IssuedAt :: instant
  si_ExpiresAt :: instant
  si_Current :: bool

definition ignore_err :: "(err + 'a) \<times> 'd world \<Rightarrow> (err + unit) \<times> 'd world" where
  "ignore_err rw =
     (case rw of
        (Inl e, w) \<Rightarrow> (if abrupt e then Inl e else Inr (), w)
      | (Inr _, w) \<Rightarrow> (Inr (), w))"

section \<open>Bootstrap\<close>

definition Bootstrap :: "'x ext_scheme \<Rightarrow> 'd Service \<Rightarrow> string \<Rightarrow> string \<Rightarrow> ('d, unit) io" where
  "Bootstrap E s username password w =
     (if username = [] then (Inr (), w) else
      case st_CountUsers (s_store s) w of
        (Inl e, w1) \<Rightarrow> (Inl e, w1)
      | (Inr n, w1) \<Rightarrow>
        if n > 0 then (Inr (), w1)
        else if password = [] then (Inl (Other ''service: bootstrap admin requires a password''), w1)
        else case st_CreateUser (s_store s)
                    \<lparr>cp_Username = username, cp_DisplayName = username, cp_Role = RoleAdmin\<rparr> w1 of
          (Inl e, w2) \<Rightarrow> (Inl e, w2)
        | (Inr u, w2) \<Rightarrow>
          (case Hash E (s_hasher s) password w2 of
            (Inl e, w3) \<Rightarrow> (Inl e, w3)
          | (Inr phc, w3) \<Rightarrow>
            (case st_SetCredential (s_store s) (u_ID u) phc True w3 of
              (Inl e, w4) \<Rightarrow> (Inl e, w4)
            | (Inr _, w4) \<Rightarrow>
              (Inr (), log_event Info ''bootstrap admin created''
                 [(''event'', LogStr ''bootstrap_admin''), (''username'', LogStr username)] w4))))"

section \<open>Login and sessions\<close>

definition openSession :: "'x ext_scheme \<Rightarrow> 'd Service \<Rightarrow> User \<Rightarrow> string \<Rightarrow> ('d, Session) io" where
  "openSession E s user deviceName w =
     (case NewRefreshToken E w of
        (Inl e, w1) \<Rightarrow> (Inl e, w1)
      | (Inr (opaque, hash), w1) \<Rightarrow>
        (case uuid_NewV7 w1 of
          (Inl e, w2) \<Rightarrow> (Inl e, w2)
        | (Inr i, w2) \<Rightarrow>
          (let device = (if deviceName = [] then None else Some deviceName) in
           case time_now w2 of (now, w3) \<Rightarrow>
           (case st_CreateRefreshToken (s_store s)
                   \<lparr>t_ID = i, t_UserID = u_ID user, t_TokenHash = hash, t_DeviceName = device,
                    t_IssuedAt = now, t_ExpiresAt = now + s_refreshTTL s,
                    t_RevokedAt = None, t_ReplacedBy = None\<rparr> w3 of
              (Inl e, w4) \<Rightarrow> (Inl e, w4)
            | (Inr _, w4) \<Rightarrow>
              (case Mint E (s_tokens s) (u_ID user) (u_Username user) [u_Role user] now w4 of
                 (Inl e, w5) \<Rightarrow> (Inl e, w5)
               | (Inr access, w5) \<Rightarrow>
                 (Inr \<lparr>ss_AccessToken = access, ss_RefreshToken = opaque, ss_TokenID = i,
                       ss_User = user, ss_MustChange = False\<rparr>, w5))))))"

definition login_failure :: "string \<Rightarrow> string \<Rightarrow> string \<Rightarrow> 'd world \<Rightarrow> 'd world" where
  "login_failure msg username reason =
     log_event Info msg [(''event'', LogStr ''login_failure''), (''username'', LogStr username),
                         (''reason'', LogStr reason)]"

definition rehash :: "'x ext_scheme \<Rightarrow> 'd Service \<Rightarrow> uuid \<Rightarrow> string \<Rightarrow> bool \<Rightarrow> ('d, unit) io" where
  "rehash E s userID password mustChange w =
     (case Hash E (s_hasher s) password w of
        (Inl e, w1) \<Rightarrow> (if abrupt e then Inl e else Inr (), w1)
      | (Inr phc, w1) \<Rightarrow> ignore_err (st_SetCredential (s_store s) userID phc mustChange w1))"

text \<open>What \<^verbatim>\<open>Login\<close> does once the password has been verified.\<close>

definition admit :: "'x ext_scheme \<Rightarrow> 'd Service \<Rightarrow> string \<Rightarrow> string \<Rightarrow> string \<Rightarrow> User \<Rightarrow> Credential \<Rightarrow> bool \<Rightarrow>
    ('d, Session) io" where
  "admit E s username password deviceName user cred needsRehash w2 =
     (if u_Status user \<noteq> StatusActive
      then (Inl ErrAccountDisabled, login_failure ''login refused'' username ''disabled'' w2)
      else
        (case (if needsRehash then rehash E s (u_ID user) password (c_MustChange cred) w2
               else (Inr (), w2)) of
           (Inl e, w3) \<Rightarrow> (Inl e, w3)
         | (Inr _, w3) \<Rightarrow>
           (case openSession E s user deviceName w3 of
              (Inl e, w4) \<Rightarrow> (Inl e, w4)
            | (Inr sess, w4) \<Rightarrow>
              (Inr (sess\<lparr>ss_MustChange := c_MustChange cred\<rparr>),
               log_event Info ''login'' [(''event'', LogStr ''login_success''),
                                         (''username'', LogStr username)] w4))))"

definition Login :: "'x ext_scheme \<Rightarrow> 'd Service \<Rightarrow> string \<Rightarrow> string \<Rightarrow> string \<Rightarrow> ('d, Session) io" where
  "Login E s username password deviceName w =
     (case st_GetUserByUsername (s_store s) username w of
        (Inl e, w1) \<Rightarrow>
          if e = ErrNotFound then
            (if Verify E (s_hasher s) password dummyPHC = Inl Panicked then (Inl Panicked, w1)
             else (Inl ErrInvalidCredentials, login_failure ''login failed'' username ''unknown user'' w1))
          else (Inl e, w1)
      | (Inr user, w1) \<Rightarrow>
        (case st_GetCredential (s_store s) (u_ID user) w1 of
           (Inl e, w2) \<Rightarrow>
             if e = ErrNotFound then
               (if Verify E (s_hasher s) password dummyPHC = Inl Panicked then (Inl Panicked, w2)
                else (Inl ErrInvalidCredentials, w2))
             else (Inl e, w2)
         | (Inr cred, w2) \<Rightarrow>
           (case Verify E (s_hasher s) password (c_PasswordHash cred) of
              Inl e \<Rightarrow>
                if e = ErrWrongPassword
                then (Inl ErrInvalidCredentials, login_failure ''login failed'' username ''wrong password'' w2)
                else (Inl e, w2)
            | Inr needsRehash \<Rightarrow>
                admit E s username password deviceName user cred needsRehash w2)))"

section \<open>Rotation\<close>

text \<open>What \<^verbatim>\<open>Refresh\<close> does after it has found the token and the active owner.\<close>

definition device_of :: "RefreshToken \<Rightarrow> string" where
  "device_of tok = (case t_DeviceName tok of None \<Rightarrow> [] | Some d \<Rightarrow> d)"

definition rotate_session :: "'x ext_scheme \<Rightarrow> 'd Service \<Rightarrow> RefreshToken \<Rightarrow> User \<Rightarrow> ('d, Session) io" where
  "rotate_session E s tok user w3 =
     (case openSession E s user (device_of tok) w3 of
        (Inl e, w4) \<Rightarrow> (Inl e, w4)
      | (Inr sess, w4) \<Rightarrow>
        (case st_ReplaceRefreshToken (s_store s) (t_ID tok) (ss_TokenID sess) w4 of
           (Inl e, w5) \<Rightarrow>
             if abrupt e then (Inl e, w5) else
             (case ignore_err (st_RevokeRefreshToken (s_store s) (ss_TokenID sess) w5) of
                (Inl e', w6) \<Rightarrow> (Inl e', w6)
              | (Inr _, w6) \<Rightarrow> (Inl ErrInvalidSession, w6))
         | (Inr _, w5) \<Rightarrow>
             (case st_GetCredential (s_store s) (u_ID user) w5 of
                (Inl e, w6) \<Rightarrow> (if abrupt e then Inl e else Inr sess, w6)
              | (Inr cred, w6) \<Rightarrow> (Inr (sess\<lparr>ss_MustChange := c_MustChange cred\<rparr>), w6))))"

definition Refresh :: "'x ext_scheme \<Rightarrow> 'd Service \<Rightarrow> string \<Rightarrow> ('d, Session) io" where
  "Refresh E s refreshToken w =
     (case st_GetRefreshTokenByHash (s_store s) (HashRefreshToken E refreshToken) w of
        (Inl e, w1) \<Rightarrow> (Inl (if e = ErrNotFound then ErrInvalidSession else e), w1)
      | (Inr tok, w1) \<Rightarrow>
        (case time_now w1 of (now, w2) \<Rightarrow>
         if \<not> Active tok now then
           (if t_ReplacedBy tok \<noteq> None then
              (case ignore_err (st_RevokeRefreshTokenChain (s_store s) (t_ID tok) w2) of
                 (Inl e, w3) \<Rightarrow> (Inl e, w3)
               | (Inr _, w3) \<Rightarrow>
                   (Inl ErrInvalidSession,
                    log_event Warn ''refresh token reuse detected; chain revoked''
                      [(''event'', LogStr ''token_reuse''), (''user_id'', LogUUID (t_UserID tok))] w3))
            else (Inl ErrInvalidSession, w2))
         else
           (case st_GetUser (s_store s) (t_UserID tok) w2 of
              (Inl e, w3) \<Rightarrow> (Inl e, w3)
            | (Inr user, w3) \<Rightarrow>
              if u_Status user \<noteq> StatusActive then
                (case ignore_err (st_RevokeRefreshToken (s_store s) (t_ID tok) w3) of
                   (Inl e, w4) \<Rightarrow> (Inl e, w4)
                 | (Inr _, w4) \<Rightarrow> (Inl ErrAccountDisabled, w4))
              else
                rotate_session E s tok user w3)))"

definition Logout :: "'x ext_scheme \<Rightarrow> 'd Service \<Rightarrow> string \<Rightarrow> ('d, unit) io" where
  "Logout E s refreshToken w =
     (case st_GetRefreshTokenByHash (s_store s) (HashRefreshToken E refreshToken) w of
        (Inl e, w1) \<Rightarrow> (if e = ErrNotFound then Inr () else Inl e, w1)
      | (Inr tok, w1) \<Rightarrow>
        (case st_RevokeRefreshToken (s_store s) (t_ID tok) w1 of
           (Inl e, w2) \<Rightarrow> (if e \<noteq> ErrNotFound then Inl e else Inr (), w2)
         | (Inr _, w2) \<Rightarrow> (Inr (), w2)))"

section \<open>Users\<close>

definition Service_GetUser :: "'d Service \<Rightarrow> uuid \<Rightarrow> ('d, User) io" where
  "Service_GetUser s i = st_GetUser (s_store s) i"

definition Service_ListUsers :: "'d Service \<Rightarrow> ('d, User list) io" where
  "Service_ListUsers s = st_ListUsers (s_store s)"

definition UpdateProfile :: "'d Service \<Rightarrow> uuid \<Rightarrow> string \<Rightarrow> ('d, User) io" where
  "UpdateProfile s userID displayName =
     st_UpdateUser (s_store s) \<lparr>up_ID = userID, up_DisplayName = Some displayName, up_Email = None,
                                up_Role = None, up_Status = None\<rparr>"

record ServiceUpdateUserParams =
  sp_ID :: uuid
  sp_DisplayName :: "string option"
  sp_Role :: "string option"
  sp_Status :: "string option"

definition Service_UpdateUser :: "'d Service \<Rightarrow> ServiceUpdateUserParams \<Rightarrow> ('d, User) io" where
  "Service_UpdateUser s p w =
     (case st_UpdateUser (s_store s)
             \<lparr>up_ID = sp_ID p, up_DisplayName = sp_DisplayName p, up_Email = None,
              up_Role = sp_Role p, up_Status = sp_Status p\<rparr> w of
        (Inl e, w1) \<Rightarrow> (Inl e, w1)
      | (Inr u, w1) \<Rightarrow>
        if sp_Status p = Some StatusDisabled then
          (case st_RevokeUserRefreshTokens (s_store s) (sp_ID p) None w1 of
             (Inl e, w2) \<Rightarrow> (Inl e, w2)
           | (Inr _, w2) \<Rightarrow>
             (Inr u, log_event Info ''user disabled; sessions revoked''
                [(''event'', LogStr ''user_disabled''), (''user_id'', LogUUID (sp_ID p))] w2))
        else (Inr u, w1))"

definition ChangePassword ::
  "'x ext_scheme \<Rightarrow> 'd Service \<Rightarrow> uuid \<Rightarrow> string \<Rightarrow> string \<Rightarrow> uuid option \<Rightarrow> ('d, unit) io" where
  "ChangePassword E s userID current newPassword keepTokenID w =
     (case st_GetCredential (s_store s) userID w of
        (Inl e, w1) \<Rightarrow> (Inl e, w1)
      | (Inr cred, w1) \<Rightarrow>
        (case Verify E (s_hasher s) current (c_PasswordHash cred) of
           Inl e \<Rightarrow> (Inl (if e = ErrWrongPassword then ErrInvalidCredentials else e), w1)
         | Inr _ \<Rightarrow>
           (case Hash E (s_hasher s) newPassword w1 of
              (Inl e, w2) \<Rightarrow> (Inl e, w2)
            | (Inr phc, w2) \<Rightarrow>
              (case st_SetCredential (s_store s) userID phc False w2 of
                 (Inl e, w3) \<Rightarrow> (Inl e, w3)
               | (Inr _, w3) \<Rightarrow>
                 (case st_RevokeUserRefreshTokens (s_store s) userID keepTokenID w3 of
                    (Inl e, w4) \<Rightarrow> (Inl e, w4)
                  | (Inr _, w4) \<Rightarrow>
                    (Inr (), log_event Info ''password changed''
                       [(''event'', LogStr ''password_change''), (''user_id'', LogUUID userID)] w4))))))"

definition temp_alphabet :: string where
  "temp_alphabet = ''abcdefghjkmnpqrstuvwxyzABCDEFGHJKMNPQRSTUVWXYZ23456789''"

definition temporaryPassword :: "('d, string) io" where
  "temporaryPassword w =
     (case rand_read 16 w of
        (Inl e, w1) \<Rightarrow> (Inl (Other ''generate temp password''), w1)
      | (Inr raw, w1) \<Rightarrow>
        (Inr (map (\<lambda>b. temp_alphabet ! (unat b mod length temp_alphabet)) raw), w1))"

definition setTempPassword :: "'x ext_scheme \<Rightarrow> 'd Service \<Rightarrow> uuid \<Rightarrow> ('d, string) io" where
  "setTempPassword E s userID w =
     (case temporaryPassword w of
        (Inl e, w1) \<Rightarrow> (Inl e, w1)
      | (Inr temp, w1) \<Rightarrow>
        (case Hash E (s_hasher s) temp w1 of
           (Inl e, w2) \<Rightarrow> (Inl e, w2)
         | (Inr phc, w2) \<Rightarrow>
           (case st_SetCredential (s_store s) userID phc True w2 of
              (Inl e, w3) \<Rightarrow> (Inl e, w3)
            | (Inr _, w3) \<Rightarrow> (Inr temp, w3))))"

definition Service_CreateUser ::
  "'x ext_scheme \<Rightarrow> 'd Service \<Rightarrow> string \<Rightarrow> string \<Rightarrow> string \<Rightarrow> ('d, User \<times> string) io" where
  "Service_CreateUser E s username displayName role w =
     (case st_CreateUser (s_store s)
             \<lparr>cp_Username = username, cp_DisplayName = displayName, cp_Role = role\<rparr> w of
        (Inl e, w1) \<Rightarrow> (Inl e, w1)
      | (Inr u, w1) \<Rightarrow>
        (case setTempPassword E s (u_ID u) w1 of
           (Inl e, w2) \<Rightarrow> (Inl e, w2)
         | (Inr temp, w2) \<Rightarrow>
           (Inr (u, temp), log_event Info ''user created''
              [(''event'', LogStr ''user_created''), (''username'', LogStr username),
               (''role'', LogStr role)] w2)))"

definition ResetPassword :: "'x ext_scheme \<Rightarrow> 'd Service \<Rightarrow> uuid \<Rightarrow> ('d, string) io" where
  "ResetPassword E s userID w =
     (case st_GetUser (s_store s) userID w of
        (Inl e, w1) \<Rightarrow> (Inl e, w1)
      | (Inr _, w1) \<Rightarrow>
        (case setTempPassword E s userID w1 of
           (Inl e, w2) \<Rightarrow> (Inl e, w2)
         | (Inr temp, w2) \<Rightarrow>
           (case st_RevokeUserRefreshTokens (s_store s) userID None w2 of
              (Inl e, w3) \<Rightarrow> (Inl e, w3)
            | (Inr _, w3) \<Rightarrow>
              (Inr temp, log_event Info ''password reset''
                 [(''event'', LogStr ''password_reset''), (''user_id'', LogUUID userID)] w3))))"

section \<open>Session management\<close>

definition CurrentSessionID ::
  "'x ext_scheme \<Rightarrow> 'd Service \<Rightarrow> string \<Rightarrow> 'd world \<Rightarrow> uuid option \<times> 'd world" where
  "CurrentSessionID E s refreshToken w =
     (if refreshToken = [] then (None, w) else
      case st_GetRefreshTokenByHash (s_store s) (HashRefreshToken E refreshToken) w of
        (Inl e, w1) \<Rightarrow> (None, w1)
      | (Inr tok, w1) \<Rightarrow>
        (case time_now w1 of (now, w2) \<Rightarrow> (if \<not> Active tok now then None else Some (t_ID tok), w2)))"

definition ListSessions :: "'d Service \<Rightarrow> uuid \<Rightarrow> uuid option \<Rightarrow> ('d, SessionInfo list) io" where
  "ListSessions s userID currentTokenID w =
     (case st_ListUserSessions (s_store s) userID w of
        (Inl e, w1) \<Rightarrow> (Inl e, w1)
      | (Inr tokens, w1) \<Rightarrow>
        (Inr (map (\<lambda>t. \<lparr>si_ID = t_ID t, si_DeviceName = t_DeviceName t, si_IssuedAt = t_IssuedAt t,
                        si_ExpiresAt = t_ExpiresAt t, si_Current = (currentTokenID = Some (t_ID t))\<rparr>) tokens),
         w1))"

definition RevokeSession :: "'d Service \<Rightarrow> uuid \<Rightarrow> uuid \<Rightarrow> ('d, unit) io" where
  "RevokeSession s userID sessionID w =
     (case st_ListUserSessions (s_store s) userID w of
        (Inl e, w1) \<Rightarrow> (Inl e, w1)
      | (Inr sessions, w1) \<Rightarrow>
        if list_ex (\<lambda>t. t_ID t = sessionID) sessions
        then st_RevokeRefreshToken (s_store s) sessionID w1
        else (Inl ErrNotFound, w1))"

end
