(* ===== verification/Store_Machine.thy ===== *)
theory Store_Machine
  imports Store
begin

text \<open>
  The abstract store as a state machine. \<open>astep\<close> has one rule per kind of change the service
  may cause, with the guard under which it happens; the service lemmas show that every
  request is a run of such steps, whatever fails underneath. What holds of every run is
  proved here once, by rule induction: the tables stay linked, no row disappears, a dead
  token never comes back and a token never changes hands.
\<close>

inductive astep :: "astore \<Rightarrow> astore \<Rightarrow> bool" where
  create_user: "a_users a i = None \<Longrightarrow> astep a (put_user (new_user p i now) a)"
| update_user: "a_users a i = Some u \<Longrightarrow> u_ID u = i \<Longrightarrow> astep a (put_user (apply_update up now u) a)"
| set_cred: "i \<in> dom (a_users a) \<Longrightarrow> astep a (put_cred i h mc now a)"
| open_session: "a_toks a (t_ID t) = None \<Longrightarrow> t_UserID t \<in> dom (a_users a) \<Longrightarrow> t_RevokedAt t = None \<Longrightarrow>
    t_ReplacedBy t = None \<Longrightarrow> astep a (put_tok t a)"
| rotate: "a_toks a old = Some t \<Longrightarrow> t_ID t = old \<Longrightarrow> t_ReplacedBy t = None \<Longrightarrow> old \<noteq> new \<Longrightarrow>
    a_toks a new = Some n \<Longrightarrow> t_ReplacedBy n = None \<Longrightarrow> t_UserID n = t_UserID t \<Longrightarrow>
    astep a (put_tok (replace_at now new t) a)"
| revoke: "astep a (revoke_where P now a)"

inductive_cases astepE: "astep a a'"

abbreviation arun :: "astore \<Rightarrow> astore \<Rightarrow> bool" where
  "arun \<equiv> astep\<^sup>*\<^sup>*"

lemma arunI: "astep a b \<Longrightarrow> arun a b"
  by (rule r_into_rtranclp)

lemma arun_maybe: "b = a \<or> astep a b \<Longrightarrow> arun a b"
  by (auto intro: arunI)

lemma arun_trans [trans]: "arun a b \<Longrightarrow> arun b c \<Longrightarrow> arun a c"
  by (rule rtranclp_trans)

lemma astep_linked: "astep a b \<Longrightarrow> linked a \<Longrightarrow> linked b"
  by (induction rule: astep.induct)
     (auto intro: linked_put_user linked_put_cred linked_put_tok linked_replace linked_revoke_where)

lemma arun_linked: "arun a b \<Longrightarrow> linked a \<Longrightarrow> linked b"
  by (induction rule: rtranclp_induct) (auto intro: astep_linked)

text \<open>A token that is revoked or rotated stays so.\<close>

definition dead :: "astore \<Rightarrow> uuid \<Rightarrow> bool" where
  "dead a i \<longleftrightarrow> (\<exists>t. a_toks a i = Some t \<and> (t_RevokedAt t \<noteq> None \<or> t_ReplacedBy t \<noteq> None))"

lemma dead_not_Active: "dead a i \<Longrightarrow> a_toks a i = Some t \<Longrightarrow> \<not> Active t now"
  by (auto simp: dead_def Active_def)

lemma dead_revoke_where: "dead a i \<Longrightarrow> dead (revoke_where P now a) i"
  by (auto simp: dead_def store_simps simp del: not_None_eq)

lemma astep_dead: "astep a b \<Longrightarrow> dead a i \<Longrightarrow> dead b i"
proof (induction rule: astep.induct)
  case (revoke P now a)
  then show ?case by (rule dead_revoke_where)
qed (auto simp: dead_def store_simps)

lemma arun_dead: "arun a b \<Longrightarrow> dead a i \<Longrightarrow> dead b i"
  by (induction rule: rtranclp_induct) (auto intro: astep_dead)

text \<open>The identity of a token, its owner, its hash and its expiry are fixed at creation.\<close>

lemma astep_token:
  "astep a b \<Longrightarrow> a_toks a i = Some t \<Longrightarrow>
     \<exists>t'. a_toks b i = Some t' \<and> t_ID t' = t_ID t \<and> t_UserID t' = t_UserID t \<and>
          t_TokenHash t' = t_TokenHash t \<and> t_ExpiresAt t' = t_ExpiresAt t"
  by (induction rule: astep.induct) (auto simp: store_simps)

lemma arun_token:
  "arun a b \<Longrightarrow> a_toks a i = Some t \<Longrightarrow>
     \<exists>t'. a_toks b i = Some t' \<and> t_ID t' = t_ID t \<and> t_UserID t' = t_UserID t \<and>
          t_TokenHash t' = t_TokenHash t \<and> t_ExpiresAt t' = t_ExpiresAt t"
proof (induction rule: rtranclp_induct)
  case (step b c)
  then obtain t' where "a_toks b i = Some t'" "t_ID t' = t_ID t" "t_UserID t' = t_UserID t"
    "t_TokenHash t' = t_TokenHash t" "t_ExpiresAt t' = t_ExpiresAt t" by auto
  with astep_token [OF step.hyps(2), of i t'] show ?case by auto
qed auto

lemma astep_user: "astep a b \<Longrightarrow> a_users a i = Some u \<Longrightarrow> \<exists>u'. a_users b i = Some u' \<and> u_Username u' = u_Username u"
  by (induction rule: astep.induct) (auto simp: store_simps)

lemma arun_user: "arun a b \<Longrightarrow> a_users a i = Some u \<Longrightarrow> \<exists>u'. a_users b i = Some u' \<and> u_Username u' = u_Username u"
proof (induction rule: rtranclp_induct)
  case (step b c)
  then obtain u' where "a_users b i = Some u'" "u_Username u' = u_Username u" by auto
  with astep_user [OF step.hyps(2), of i u'] show ?case by auto
qed auto

text \<open>The rotation chain of a token only ever holds tokens of the same user.\<close>

lemma chain_same_user:
  assumes "linked a" "a_toks a x = Some t" "y \<in> chain a x"
  shows "\<exists>s. a_toks a y = Some s \<and> t_UserID s = t_UserID t"
proof -
  from assms(3) have "(x, y) \<in> (rotated a)\<^sup>*" by (simp add: chain_def)
  then show ?thesis
  proof (induction rule: rtrancl_induct)
    case base
    with assms(2) show ?case by simp
  next
    case (step y z)
    then obtain s where s: "a_toks a y = Some s" "t_UserID s = t_UserID t" by auto
    from step.hyps(2) s(1) have "t_ReplacedBy s = Some z" by (auto simp: rotated_def)
    with assms(1) s show ?case by (auto simp: linked_def elim!: rot_okD)
  qed
qed

end
