(* ===== verification/Service_Laws.thy ===== *)
theory Service_Laws
  imports Service Store_Machine
begin

text \<open>
  What the methods of \<^verbatim>\<open>internal/service/service.go\<close> guarantee over any store that keeps
  \<open>store_contract\<close>, proved inside that locale. Every request is a run of the abstract store
  machine, so it keeps the tables linked and never revives a token, whichever call below it
  fails; the other lemmas say what a successful answer and what each error mean.
\<close>

section \<open>Vocabulary\<close>

definition safe :: "('d \<Rightarrow> astore) \<Rightarrow> ('d \<Rightarrow> bool) \<Rightarrow> 'd world \<Rightarrow> 'd world \<Rightarrow> bool" where
  "safe view iv w w' \<longleftrightarrow> iv (db w') \<and> arun (view (db w)) (view (db w'))"

text \<open>The hash of the refresh token that an answer of the entropy source leads to.\<close>

definition drawn_hash :: "'x crypto_scheme \<Rightarrow> (nat \<Rightarrow> byte) \<Rightarrow> bytes" where
  "drawn_hash E f = HashRefreshToken E (b64_encode RawURLEncoding (map f [0..<32]))"

text \<open>No id and no refresh token still to be drawn is already in the store.\<close>

definition fresh_draws ::
  "(uuid \<Rightarrow> bytes \<Rightarrow> (uuid \<rightharpoonup> RefreshToken) \<Rightarrow> bool) \<Rightarrow> 'x crypto_scheme \<Rightarrow> 'd world \<Rightarrow> (uuid \<rightharpoonup> RefreshToken) \<Rightarrow> bool" where
  "fresh_draws fr E w m \<longleftrightarrow>
     (\<forall>f i. Some f \<in> sset (entropy w) \<longrightarrow> Some i \<in> sset (uuids w) \<longrightarrow> fr i (drawn_hash E f) m)"

text \<open>The row \<^verbatim>\<open>openSession\<close> stores for a session it returns.\<close>

definition session_row :: "'x crypto_scheme \<Rightarrow> duration \<Rightarrow> (instant \<Rightarrow> instant) \<Rightarrow> User \<Rightarrow> string \<Rightarrow> instant \<Rightarrow> uuid \<Rightarrow> string \<Rightarrow> RefreshToken" where
  "session_row E d ts user device now i opaque =
     \<lparr>t_ID = i, t_UserID = u_ID user, t_TokenHash = HashRefreshToken E opaque,
      t_DeviceName = (if device = [] then None else Some device), t_IssuedAt = ts now,
      t_ExpiresAt = ts (now + d), t_RevokedAt = None, t_ReplacedBy = None\<rparr>"

lemma session_row_fields [simp]:
  "t_ID (session_row E d ts user device now i opaque) = i"
  "t_UserID (session_row E d ts user device now i opaque) = u_ID user"
  "t_TokenHash (session_row E d ts user device now i opaque) = HashRefreshToken E opaque"
  "t_RevokedAt (session_row E d ts user device now i opaque) = None"
  "t_ReplacedBy (session_row E d ts user device now i opaque) = None"
  "t_ExpiresAt (session_row E d ts user device now i opaque) = ts (now + d)"
  by (simp_all add: session_row_def)

text \<open>
  \<open>opened\<close>: the second state is the first with one new row, the row of a session of \<open>user\<close>,
  under an id and a hash that were free.
\<close>

definition opened :: "'x crypto_scheme \<Rightarrow> duration \<Rightarrow> (instant \<Rightarrow> instant) \<Rightarrow> User \<Rightarrow> string \<Rightarrow> uuid \<Rightarrow> string \<Rightarrow>
    astore \<Rightarrow> astore \<Rightarrow> bool" where
  "opened E d ts user device i opaque a a' \<longleftrightarrow>
     (\<exists>now. tok_fresh (session_row E d ts user device now i opaque) a \<and>
            a' = put_tok (session_row E d ts user device now i opaque) a)"

lemma openedE:
  assumes "opened E d ts user device i opaque a a'"
  obtains now where "a_toks a i = None" "a' = put_tok (session_row E d ts user device now i opaque) a"
  using assms by (auto simp: opened_def tok_fresh_def)

lemma opened_fields:
  assumes "opened E d ts user device i opaque a a'"
  shows "a_users a' = a_users a" "a_creds a' = a_creds a" "j \<noteq> i \<Longrightarrow> a_toks a' j = a_toks a j"
    "\<exists>t. a_toks a' i = Some t \<and> t_UserID t = u_ID user \<and> t_TokenHash t = HashRefreshToken E opaque \<and>
         t_RevokedAt t = None \<and> t_ReplacedBy t = None"
    "a_toks a i = None"
  using assms by (auto elim!: openedE simp: store_simps)

lemma opened_astep:
  "opened E d ts user device i opaque a a' \<Longrightarrow> u_ID user \<in> dom (a_users a) \<Longrightarrow> astep a a'"
  by (auto elim!: openedE intro!: astep.open_session)

text \<open>
  \<open>granted\<close>: the row of the session was added, and the access token was minted at the same
  instant for the same user.
\<close>

definition granted :: "'x ext_scheme \<Rightarrow> 'd Service \<Rightarrow> (instant \<Rightarrow> instant) \<Rightarrow> User \<Rightarrow> string \<Rightarrow> Session \<Rightarrow>
    astore \<Rightarrow> astore \<Rightarrow> bool" where
  "granted E s ts user device sess a a' \<longleftrightarrow>
     (\<exists>now. tok_fresh (session_row E (s_refreshTTL s) ts user device now (ss_TokenID sess) (ss_RefreshToken sess)) a \<and>
        a' = put_tok (session_row E (s_refreshTTL s) ts user device now (ss_TokenID sess) (ss_RefreshToken sess)) a \<and>
        minted E (s_tokens s) (u_ID user) (u_Username user) [u_Role user] now (ss_AccessToken sess))"

lemma granted_opened:
  "granted E s ts user device sess a a' \<Longrightarrow>
     opened E (s_refreshTTL s) ts user device (ss_TokenID sess) (ss_RefreshToken sess) a a'"
  by (auto simp: granted_def opened_def)

lemma granted_cong:
  "granted E s ts user device sess a a' \<Longrightarrow> ss_TokenID sess' = ss_TokenID sess \<Longrightarrow>
     ss_RefreshToken sess' = ss_RefreshToken sess \<Longrightarrow> ss_AccessToken sess' = ss_AccessToken sess \<Longrightarrow>
     granted E s ts user device sess' a a'"
  by (simp add: granted_def)

lemma granted_MustChange [simp]:
  "granted E s ts user device (sess\<lparr>ss_MustChange := b\<rparr>) a a' = granted E s ts user device sess a a'"
  by (simp add: granted_def)

lemma fresh_draws_stl:
  "fresh_draws fr E w m \<Longrightarrow> sset (entropy w') \<subseteq> sset (entropy w) \<Longrightarrow> sset (uuids w') \<subseteq> sset (uuids w) \<Longrightarrow>
     fresh_draws fr E w' m"
  unfolding fresh_draws_def by blast

lemma ignore_err_Inl: "ignore_err x = (Inl e, w) \<longleftrightarrow> x = (Inl e, w) \<and> abrupt e"
  by (auto simp: ignore_err_def split: prod.splits sum.splits if_splits)

lemma ignore_err_Inr:
  "ignore_err x = (Inr u, w) \<longleftrightarrow> (\<exists>r. x = (r, w) \<and> (\<forall>e. r = Inl e \<longrightarrow> \<not> abrupt e))"
  by (auto simp: ignore_err_def split: prod.splits sum.splits if_splits)

section \<open>Consequences of the contract\<close>

context store_contract begin

abbreviation V :: "'d world \<Rightarrow> astore" where
  "V w \<equiv> view (db w)"

text \<open>Reads leave everything but the clock alone.\<close>

lemma reads:
  "iv (db w) \<Longrightarrow> st_GetUser S i w = (r1, w') \<Longrightarrow> read_only view iv w r1 w'"
  "iv (db w) \<Longrightarrow> st_GetUserByUsername S n w = (r2, w') \<Longrightarrow> read_only view iv w r2 w'"
  "iv (db w) \<Longrightarrow> st_ListUsers S w = (r3, w') \<Longrightarrow> read_only view iv w r3 w'"
  "iv (db w) \<Longrightarrow> st_CountUsers S w = (r4, w') \<Longrightarrow> read_only view iv w r4 w'"
  "iv (db w) \<Longrightarrow> st_GetCredential S i w = (r5, w') \<Longrightarrow> read_only view iv w r5 w'"
  "iv (db w) \<Longrightarrow> st_GetRefreshTokenByHash S h w = (r6, w') \<Longrightarrow> read_only view iv w r6 w'"
  using GetUser GetUserByUsername ListUsers CountUsers GetCredential GetRefreshTokenByHash
  by metis+

lemma undisturbedD:
  assumes "undisturbed view iv w r w'"
  shows "iv (db w')" "V w' = V w" "entropy w' = entropy w" "uuids w' = uuids w" "logs w' = logs w"
    "safe view iv w w'" "r = Inl e \<Longrightarrow> \<not> abrupt e"
  using assms by (auto simp: undisturbed_def frame_def safe_def)

lemma read_onlyD:
  assumes "read_only view iv w r w'"
  shows "iv (db w')" "V w' = V w" "entropy w' = entropy w" "uuids w' = uuids w" "logs w' = logs w"
    "safe view iv w w'" "r = Inl e \<Longrightarrow> \<not> abrupt e" "clock w' = clock w"
  using assms by (auto simp: read_only_def undisturbed_def frame_def safe_def)

text \<open>Writes, whether they report success or not, are runs of the abstract machine.\<close>

lemma frameD:
  assumes "frame iv w w'"
  shows "iv (db w')" "entropy w' = entropy w" "logs w' = logs w"
  using assms by (auto simp: frame_def)

lemma wrote_cases:
  assumes "wrote r P a a'"
  obtains (same) e where "r = Inl e" "\<not> abrupt e" "a' = a"
    | (effect) x where "P x a'" "\<And>y. r = Inr y \<Longrightarrow> x = y" "\<And>e. r = Inl e \<Longrightarrow> \<not> abrupt e"
  using assms by (auto simp: wrote_def split: sum.splits)

lemma wrote_not_abrupt: "wrote r P a a' \<Longrightarrow> r = Inl e \<Longrightarrow> \<not> abrupt e"
  by (auto simp: wrote_def)

lemma CreateUser_safe:
  assumes "iv (db w)" "\<And>i. shd (uuids w) = Some i \<Longrightarrow> fu i (a_users (V w))" "st_CreateUser S p w = (r, w')"
  shows "safe view iv w w'"
proof -
  note law = CreateUser [OF assms]
  then have "V w' = V w \<or> (\<exists>i now. a_users (V w) i = None \<and> V w' = put_user (new_user p i now) (V w))"
    by (auto elim!: wrote_cases)
  then have "arun (V w) (V w')" using astep.create_user by (intro arun_maybe) metis
  with law show ?thesis by (auto simp: safe_def frame_def)
qed

lemma UpdateUser_safe:
  assumes "iv (db w)" "st_UpdateUser S up w = (r, w')"
  shows "safe view iv w w'"
proof -
  note law = UpdateUser [OF assms]
  then have "V w' = V w \<or> (\<exists>u now. a_users (V w) (up_ID up) = Some u \<and> V w' = put_user (apply_update up now u) (V w))"
    by (auto elim!: wrote_cases)
  then have "arun (V w) (V w')"
    using keyed_user_ID [OF keyed [OF assms(1)]] astep.update_user by (intro arun_maybe) metis
  with law show ?thesis by (auto simp: safe_def frame_def)
qed

lemma SetCredential_safe:
  assumes "iv (db w)" "i \<in> dom (a_users (V w))" "st_SetCredential S i ph mc w = (r, w')"
  shows "safe view iv w w'" "a_users (V w') = a_users (V w)" "a_toks (V w') = a_toks (V w)"
proof -
  note law = SetCredential [OF assms(1,3)]
  then have eff: "V w' = V w \<or> (\<exists>now. V w' = put_cred i ph mc now (V w))"
    by (auto elim!: wrote_cases)
  then have "arun (V w) (V w')" using assms(2) astep.set_cred by (intro arun_maybe) metis
  with law show "safe view iv w w'" by (auto simp: safe_def frame_def)
  show "a_users (V w') = a_users (V w)" "a_toks (V w') = a_toks (V w)"
    using eff by (auto simp: store_simps)
qed

text \<open>A write that revokes: every kind of revocation has this shape.\<close>

lemma revoke_safe:
  assumes "frame iv w w'" "wrote r (\<lambda>_ a'. \<exists>now. a' = revoke_where P now (V w)) (V w) (V w')"
  shows "safe view iv w w'"
proof -
  have "V w' = V w \<or> (\<exists>now. V w' = revoke_where P now (V w))" using assms(2) by (auto elim!: wrote_cases)
  then have "arun (V w) (V w')" using astep.revoke by (intro arun_maybe) metis
  with assms(1) show ?thesis by (auto simp: safe_def frame_def)
qed

lemma revokes_safe:
  "iv (db w) \<Longrightarrow> st_RevokeRefreshToken S i w = (r, w') \<Longrightarrow> safe view iv w w'"
  "iv (db w) \<Longrightarrow> acyclic (rotated (V w)) \<Longrightarrow> st_RevokeRefreshTokenChain S i w = (r, w') \<Longrightarrow> safe view iv w w'"
  "iv (db w) \<Longrightarrow> st_RevokeUserRefreshTokens S i ex w = (r, w') \<Longrightarrow> safe view iv w w'"
  by (rule revoke_safe; use RevokeRefreshToken in blast)
     (rule revoke_safe; use RevokeRefreshTokenChain RevokeUserRefreshTokens in blast)+

lemma ReplaceRefreshToken_safe:
  assumes "iv (db w)" "st_ReplaceRefreshToken S old new w = (r, w')"
    and "\<And>t. a_toks (V w) old = Some t \<Longrightarrow> old \<noteq> new \<and>
           (\<exists>n. a_toks (V w) new = Some n \<and> t_ReplacedBy n = None \<and> t_UserID n = t_UserID t)"
  shows "safe view iv w w'"
proof -
  note law = ReplaceRefreshToken [OF assms(1,2)]
  have id: "a_toks (V w) old = Some t \<Longrightarrow> t_ID t = old" for t
    using keyed_tok_ID [OF keyed [OF assms(1)]] .
  from law have "V w' = V w \<or> (\<exists>t now. a_toks (V w) old = Some t \<and> t_ReplacedBy t = None \<and>
      V w' = put_tok (replace_at now new t) (V w))" by (auto elim!: wrote_cases)
  then have "arun (V w) (V w')"
    using assms(3) id astep.rotate by (intro arun_maybe) metis
  with law show ?thesis by (auto simp: safe_def frame_def)
qed

lemma safe_refl: "iv (db w) \<Longrightarrow> safe view iv w w"
  by (simp add: safe_def)

lemma safe_trans: "safe view iv w w1 \<Longrightarrow> safe view iv w1 w2 \<Longrightarrow> safe view iv w w2"
  by (auto simp: safe_def)

lemma safe_linked: "safe view iv w w' \<Longrightarrow> linked (V w) \<Longrightarrow> linked (V w')"
  by (auto simp: safe_def intro: arun_linked)

lemma safe_iv: "safe view iv w w' \<Longrightarrow> iv (db w')"
  by (simp add: safe_def)

section \<open>Opening a session\<close>

lemma CreateRefreshToken_opened:
  assumes "iv (db w)" "fr i (HashRefreshToken E opaque) (a_toks (V w))"
    and "st_CreateRefreshToken S \<lparr>t_ID = i, t_UserID = u_ID user, t_TokenHash = HashRefreshToken E opaque,
           t_DeviceName = (if device = [] then None else Some device), t_IssuedAt = now,
           t_ExpiresAt = now + d, t_RevokedAt = None, t_ReplacedBy = None\<rparr> w = (r, w')"
  shows "frame iv w w'" "uuids w' = uuids w"
    "r = Inr () \<Longrightarrow> tok_fresh (session_row E d ts user device now i opaque) (V w) \<and>
       V w' = put_tok (session_row E d ts user device now i opaque) (V w)"
    "r = Inl e \<Longrightarrow> \<not> abrupt e \<and> (V w' = V w \<or> opened E d ts user device i opaque (V w) (V w'))"
  using CreateRefreshToken [OF assms(1) _ _ _ assms(3)] assms(2)
  by (auto simp: wrote_def opened_def session_row_def tok_fresh_def)

lemma openSession_law:
  assumes st: "s_store s = S" and iv: "iv (db w)" and fresh: "fresh_draws fr E w (a_toks (V w))"
    and run: "openSession E s user device w = (r, w')"
  shows "iv (db w') \<and> logs w' = logs w \<and>
    (case r of
       Inr sess \<Rightarrow>
         granted E s ts user device sess (V w) (V w') \<and>
         ss_User sess = user \<and> \<not> ss_MustChange sess \<and> length (ss_RefreshToken sess) = 43
     | Inl e \<Rightarrow> V w' = V w \<or> (\<exists>i opaque. opened E (s_refreshTTL s) ts user device i opaque (V w) (V w')))"
proof -
  obtain r1 w1 where nrt: "NewRefreshToken E w = (r1, w1)" by fastforce
  have w1: "w1 = w\<lparr>entropy := stl (entropy w)\<rparr>" using nrt by (rule NewRefreshToken_frame)
  show ?thesis
  proof (cases r1)
    case (Inl e)
    with run nrt w1 iv show ?thesis by (auto simp: openSession_def)
  next
    case (Inr oh)
    then obtain opaque hash where oh: "oh = (opaque, hash)" by fastforce
    obtain f where f: "shd (entropy w) = Some f" "opaque = b64_encode RawURLEncoding (map f [0..<32])"
      using nrt Inr oh by (auto simp: NewRefreshToken_def rand_read_def Let_def split: option.splits)
    have hash: "hash = HashRefreshToken E opaque" "length opaque = 43"
      using NewRefreshToken_Inr [of E w opaque hash w1] nrt Inr oh by auto
    show ?thesis
    proof (cases "shd (uuids w)")
      case None
      with run nrt Inr oh w1 iv show ?thesis by (auto simp: openSession_def uuid_NewV7_def)
    next
      case (Some i)
      define w3 where "w3 = w1\<lparr>uuids := stl (uuids w1), clock := stl (clock w1)\<rparr>"
      define now where "now = shd (clock w1)"
      obtain r4 w4 where crt: "st_CreateRefreshToken S \<lparr>t_ID = i, t_UserID = u_ID user,
           t_TokenHash = HashRefreshToken E opaque,
           t_DeviceName = (if device = [] then None else Some device), t_IssuedAt = now,
           t_ExpiresAt = now + s_refreshTTL s, t_RevokedAt = None, t_ReplacedBy = None\<rparr> w3 = (r4, w4)"
        by fastforce
      have "fr i (HashRefreshToken E opaque) (a_toks (V w))"
        using fresh f Some unfolding fresh_draws_def drawn_hash_def by (metis shd_sset)
      then have law: "frame iv w3 w4" "uuids w4 = uuids w3"
        "r4 = Inr () \<Longrightarrow> tok_fresh (session_row E (s_refreshTTL s) ts user device now i opaque) (V w) \<and>
           V w4 = put_tok (session_row E (s_refreshTTL s) ts user device now i opaque) (V w)"
        "\<And>e. r4 = Inl e \<Longrightarrow> V w4 = V w \<or> opened E (s_refreshTTL s) ts user device i opaque (V w) (V w4)"
        using CreateRefreshToken_opened [OF _ _ crt] iv by (auto simp: w3_def w1)
      have opn: "openSession E s user device w =
        (case r4 of Inl e \<Rightarrow> (Inl e, w4) | Inr _ \<Rightarrow>
          (case Mint E (s_tokens s) (u_ID user) (u_Username user) [u_Role user] now w4 of
                 (Inl e, w5) \<Rightarrow> (Inl e, w5)
               | (Inr access, w5) \<Rightarrow>
                 (Inr \<lparr>ss_AccessToken = access, ss_RefreshToken = opaque, ss_TokenID = i,
                       ss_User = user, ss_MustChange = False\<rparr>, w5)))"
        using nrt Inr oh Some st hash crt
        by (simp add: openSession_def uuid_NewV7_def time_now_def w3_def now_def w1 Let_def split: sum.splits)
      show ?thesis
      proof (cases r4)
        case (Inl e)
        with run law hash opn show ?thesis by (auto simp: frame_def w3_def w1)
      next
        case (Inr u)
        obtain r5 w5 where mint: "Mint E (s_tokens s) (u_ID user) (u_Username user) [u_Role user] now w4 = (r5, w5)"
          by fastforce
        have "db w5 = db w4" "logs w5 = logs w4" using Mint_frame [OF mint] by auto
        moreover have "\<And>tok. r5 = Inr tok \<Longrightarrow> minted E (s_tokens s) (u_ID user) (u_Username user) [u_Role user] now tok"
          using mint by (auto dest: Mint_minted)
        moreover have "opened E (s_refreshTTL s) ts user device i opaque (V w) (V w4)"
          using law(3) Inr by (auto simp: opened_def)
        ultimately show ?thesis
          using run law hash Inr mint opn
          by (auto simp: frame_def granted_def w3_def w1 split: sum.splits)
      qed
    qed
  qed
qed

lemma openSession_cases:
  assumes "s_store s = S" "iv (db w)" "fresh_draws fr E w (a_toks (V w))"
    and "openSession E s user device w = (r, w')"
  obtains (none) e where "r = Inl e" "V w' = V w" "iv (db w')" "logs w' = logs w"
    | (orphan) e i opaque where "r = Inl e" "opened E (s_refreshTTL s) ts user device i opaque (V w) (V w')"
        "iv (db w')" "logs w' = logs w"
    | (ok) sess where "r = Inr sess"
        "granted E s ts user device sess (V w) (V w')"
        "ss_User sess = user" "\<not> ss_MustChange sess" "length (ss_RefreshToken sess) = 43"
        "iv (db w')" "logs w' = logs w"
  using openSession_law [OF assms] by (auto split: sum.splits)

lemma openSession_safe:
  assumes "s_store s = S" "iv (db w)" "fresh_draws fr E w (a_toks (V w))"
    and "openSession E s user device w = (r, w')" and "u_ID user \<in> dom (a_users (V w))"
  shows "safe view iv w w'"
  using assms(1-4)
  by (cases rule: openSession_cases) (use assms(5) in \<open>auto simp: safe_def intro: arunI opened_astep granted_opened [THEN opened_astep]\<close>)

section \<open>Refresh\<close>

text \<open>A successful rotation stores the new session and then replaces the old token by it.\<close>

lemma rotate_session_law:
  assumes st: "s_store s = S" and iv: "iv (db w)" and fresh: "fresh_draws fr E w (a_toks (V w))"
    and tok: "a_toks (V w) (t_ID tok) = Some tok" "t_ReplacedBy tok = None"
    and own: "u_ID user = t_UserID tok" "u_ID user \<in> dom (a_users (V w))"
    and run: "rotate_session E s tok user w = (r, w')"
  shows "safe view iv w w' \<and> logs w' = logs w \<and>
    (\<forall>sess. r = Inr sess \<longrightarrow> ss_User sess = user \<and> length (ss_RefreshToken sess) = 43 \<and>
       (\<exists>a now. granted E s ts user (device_of tok) sess (V w) a \<and>
                V w' = put_tok (replace_at now (ss_TokenID sess) tok) a))"
proof -
  obtain r4 w4 where os: "openSession E s user (device_of tok) w = (r4, w4)" by fastforce
  have safe4: "safe view iv w w4" using openSession_safe [OF st iv fresh os own(2)] .
  from st iv fresh os show ?thesis
  proof (cases rule: openSession_cases)
    case (none e)
    with run os safe4 show ?thesis by (auto simp: rotate_session_def)
  next
    case (orphan e i opaque)
    with run os safe4 show ?thesis by (auto simp: rotate_session_def)
  next
    case (ok sess)
    let ?i = "ss_TokenID sess"
    obtain r5 w5 where rep: "st_ReplaceRefreshToken S (t_ID tok) ?i w4 = (r5, w5)" by fastforce
    note op = opened_fields [OF granted_opened [OF ok(2)]]
    have ne: "t_ID tok \<noteq> ?i" using op(5) tok(1) by auto
    then have tok4: "a_toks (V w4) (t_ID tok) = Some tok" using op(3) tok(1) by simp
    have "safe view iv w4 w5"
      using ReplaceRefreshToken_safe [OF ok(6) rep] op(4) tok4 own(1) ne by auto
    with safe4 have safe5: "safe view iv w w5" by (rule safe_trans)
    note law = ReplaceRefreshToken [OF ok(6) rep]
    show ?thesis
    proof (cases r5)
      case (Inl e)
      then have na: "\<not> abrupt e" using law by (auto simp: wrote_def)
      obtain r6 w6 where rev: "st_RevokeRefreshToken S ?i w5 = (r6, w6)" by fastforce
      have "safe view iv w5 w6" "logs w6 = logs w5"
        using revokes_safe(1) [OF safe_iv [OF safe5] rev] RevokeRefreshToken [OF safe_iv [OF safe5] rev]
        by (auto simp: frame_def)
      moreover have "w' = w6" "\<exists>e'. r = Inl e'"
        using run os ok(1) rep Inl na st rev
        by (auto simp: rotate_session_def ignore_err_def split: sum.splits if_splits)
      ultimately show ?thesis using safe5 law ok(7) by (auto simp: frame_def intro: safe_trans)
    next
      case (Inr u)
      obtain r6 w6 where cred: "st_GetCredential S (u_ID user) w5 = (r6, w6)" by fastforce
      note ro = read_onlyD [OF reads(5) [OF safe_iv [OF safe5] cred]]
      have out: "w' = w6" "\<And>s'. r = Inr s' \<Longrightarrow> ss_User s' = ss_User sess \<and> ss_TokenID s' = ?i \<and>
            ss_RefreshToken s' = ss_RefreshToken sess \<and> ss_AccessToken s' = ss_AccessToken sess"
        using run os ok(1) rep Inr st cred ro(7)
        by (auto simp: rotate_session_def split: sum.splits if_splits)
      have "\<exists>now. V w5 = put_tok (replace_at now ?i tok) (V w4)"
        using law Inr tok4 by (auto simp: wrote_def)
      with ro(2) out(1) obtain now where now: "V w' = put_tok (replace_at now ?i tok) (V w4)" by auto
      have "safe view iv w w'" "logs w' = logs w"
        using safe_trans [OF safe5 ro(6)] ro(5) ok(7) law out(1) by (auto simp: frame_def)
      moreover have "ss_User s' = user \<and> length (ss_RefreshToken s') = 43 \<and>
          granted E s ts user (device_of tok) s' (V w) (V w4) \<and>
          V w' = put_tok (replace_at now (ss_TokenID s') tok) (V w4)" if "r = Inr s'" for s'
        using out(2) [OF that] granted_cong [OF ok(2), of s'] ok(3,5) now by simp
      ultimately show ?thesis by blast
    qed
  qed
qed

text \<open>The ways through \<^verbatim>\<open>Refresh\<close>, as effects on the abstract store.\<close>

lemma by_hash_token:
  assumes "iv (db w)" "st_GetRefreshTokenByHash S h w = (Inr tok, w1)"
    and "a_toks (V w) i = Some t" "t_TokenHash t = h"
  shows "tok = t" "t_ID t = i"
proof -
  have "a_toks (V w) (t_ID tok) = Some tok" "t_TokenHash tok = h"
    using GetRefreshTokenByHash [OF assms(1,2)] by auto
  with assms keyed_hash_unique [OF keyed [OF assms(1)]] have "t_ID tok = i" by metis
  with \<open>a_toks (V w) (t_ID tok) = Some tok\<close> assms(3) show "tok = t" by simp
  show "t_ID t = i" using keyed_tok_ID [OF keyed [OF assms(1)] assms(3)] .
qed

lemma GetUser_Inr:
  assumes "iv (db w)" "st_GetUser S i w = (Inr u, w1)"
  shows "a_users (V w) i = Some u" "u_ID u = i"
  using GetUser [OF assms] keyed_user_ID [OF keyed [OF assms(1)]] by auto

lemma Refresh_cases:
  assumes st: "s_store s = S" and iv: "iv (db w)"
    and run: "Refresh E s refreshToken w = (r, w')"
  obtains (lookup) e where "r = Inl e" "V w' = V w" "iv (db w')" "\<not> abrupt e" "logs w' = logs w"
      "isl (fst (st_GetRefreshTokenByHash S (HashRefreshToken E refreshToken) w))"
    | (stale) tok where "r = Inl ErrInvalidSession" "V w' = V w" "iv (db w')" "t_ReplacedBy tok = None"
        "a_toks (V w) (t_ID tok) = Some tok" "t_TokenHash tok = HashRefreshToken E refreshToken" "\<not> Active tok (shd (clock w))"
    | (reuse) tok r3 w2 w3 where "a_toks (V w) (t_ID tok) = Some tok"
        "t_TokenHash tok = HashRefreshToken E refreshToken" "t_ReplacedBy tok \<noteq> None"
        "V w2 = V w" "iv (db w2)" "logs w2 = logs w" "st_RevokeRefreshTokenChain S (t_ID tok) w2 = (r3, w3)"
        "(\<exists>e. r3 = Inl e \<and> abrupt e \<and> r = Inl e \<and> w' = w3) \<or>
         r = Inl ErrInvalidSession \<and> w' = log_event Warn ''refresh token reuse detected; chain revoked''
           [(''event'', LogStr ''token_reuse''), (''user_id'', LogUUID (t_UserID tok))] w3"
    | (no_user) tok e where "r = Inl e" "V w' = V w" "iv (db w')" "\<not> abrupt e" "a_toks (V w) (t_ID tok) = Some tok"
        "t_TokenHash tok = HashRefreshToken E refreshToken" "t_ReplacedBy tok = None"
    | (disabled) tok user r4 w3 where "a_toks (V w) (t_ID tok) = Some tok"
        "t_TokenHash tok = HashRefreshToken E refreshToken" "t_ReplacedBy tok = None"
        "a_users (V w) (t_UserID tok) = Some user" "u_Status user \<noteq> StatusActive"
        "V w3 = V w" "iv (db w3)" "logs w3 = logs w" "st_RevokeRefreshToken S (t_ID tok) w3 = (r4, w')" "isl r"
        "\<And>e. r = Inl e \<Longrightarrow> abrupt e \<Longrightarrow> r4 = Inl e"
    | (rotate) tok user w3 where "a_toks (V w) (t_ID tok) = Some tok"
        "t_TokenHash tok = HashRefreshToken E refreshToken" "Active tok (shd (clock w))"
        "a_users (V w) (t_UserID tok) = Some user" "u_ID user = t_UserID tok" "u_Status user = StatusActive"
        "V w3 = V w" "iv (db w3)" "logs w3 = logs w" "entropy w3 = entropy w" "uuids w3 = uuids w"
        "rotate_session E s tok user w3 = (r, w')"
proof -
  obtain r1 w1 where get: "st_GetRefreshTokenByHash S (HashRefreshToken E refreshToken) w = (r1, w1)" by fastforce
  note ro1 = read_onlyD [OF reads(6) [OF iv get]]
  show thesis
  proof (cases r1)
    case (Inl e)
    with run get st ro1 lookup show thesis by (auto simp: Refresh_def split: if_splits)
  next
    case (Inr tok)
    have tok: "a_toks (V w) (t_ID tok) = Some tok" "t_TokenHash tok = HashRefreshToken E refreshToken"
      using GetRefreshTokenByHash [OF iv get] Inr by auto
    define now where "now = shd (clock w)"
    define w2 where "w2 = w1\<lparr>clock := stl (clock w1)\<rparr>"
    have tn: "time_now w1 = (now, w2)" using ro1(8) by (simp add: time_now_def now_def w2_def)
    have w2: "V w2 = V w" "iv (db w2)" "logs w2 = logs w" "entropy w2 = entropy w" "uuids w2 = uuids w"
      using ro1 by (simp_all add: w2_def)
    show thesis
    proof (cases "Active tok now")
      case False
      obtain r3 w3 where ch: "st_RevokeRefreshTokenChain S (t_ID tok) w2 = (r3, w3)" by fastforce
      show thesis
      proof (cases "t_ReplacedBy tok")
        case None
        with False run get Inr tn st w2 tok show thesis
          by (intro stale [of tok]) (auto simp: Refresh_def now_def)
      next
        case (Some n)
        with False run get Inr tn st ch
        have "(\<exists>e. r3 = Inl e \<and> abrupt e \<and> r = Inl e \<and> w' = w3) \<or>
         r = Inl ErrInvalidSession \<and> w' = log_event Warn ''refresh token reuse detected; chain revoked''
           [(''event'', LogStr ''token_reuse''), (''user_id'', LogUUID (t_UserID tok))] w3"
          by (auto simp: Refresh_def ignore_err_def split: sum.splits if_splits)
        with Some tok w2 ch show thesis by (intro reuse [of tok w2 r3 w3]) simp_all
      qed
    next
      case True
      obtain r3 w3 where gu: "st_GetUser S (t_UserID tok) w2 = (r3, w3)" by fastforce
      note ro3 = read_onlyD [OF reads(1) [OF w2(2) gu]]
      have rb: "t_ReplacedBy tok = None" using True by (simp add: Active_def)
      show thesis
      proof (cases r3)
        case (Inl e)
        with True run get Inr tn st gu ro3 w2 tok rb show thesis
          by (intro no_user [of e tok]) (auto simp: Refresh_def)
      next
        case (Inr user)
        have us: "a_users (V w) (t_UserID tok) = Some user" "u_ID user = t_UserID tok"
          using GetUser_Inr [OF w2(2)] gu Inr w2 by auto
        have run': "(if u_Status user \<noteq> StatusActive then
                (case ignore_err (st_RevokeRefreshToken S (t_ID tok) w3) of
                   (Inl e, w4) \<Rightarrow> (Inl e, w4)
                 | (Inr _, w4) \<Rightarrow> (Inl ErrAccountDisabled, w4))
              else rotate_session E s tok user w3) = (r, w')"
          using True run get \<open>r1 = Inr tok\<close> tn st gu Inr by (auto simp: Refresh_def)
        show thesis
        proof (cases "u_Status user = StatusActive")
          case st_ok: True
          with run' rotate [OF tok _ us] True ro3 w2 show thesis by (simp add: now_def)
        next
          case False
          obtain r4 w4 where rv: "st_RevokeRefreshToken S (t_ID tok) w3 = (r4, w4)" by fastforce
          with False run' have "w' = w4" "isl r" "\<And>e. r = Inl e \<Longrightarrow> abrupt e \<Longrightarrow> r4 = Inl e"
            by (auto simp: ignore_err_def split: sum.splits if_splits)
          with False rv disabled [OF tok rb us(1)] ro3 w2 show thesis by simp
        qed
      qed
    qed
  qed
qed

lemma fresh_draws_same:
  "fresh_draws fr E w m \<Longrightarrow> entropy w' = entropy w \<Longrightarrow> uuids w' = uuids w \<Longrightarrow> fresh_draws fr E w' m"
  by (auto simp: fresh_draws_def)

lemma rotate_case:
  assumes "s_store s = S" "fresh_draws fr E w (a_toks (V w))"
    and "a_toks (V w) (t_ID tok) = Some tok" "Active tok now"
    and "a_users (V w) (t_UserID tok) = Some user" "u_ID user = t_UserID tok"
    and "V w3 = V w" "iv (db w3)" "entropy w3 = entropy w" "uuids w3 = uuids w"
    and "rotate_session E s tok user w3 = (r, w')"
  shows "safe view iv w w' \<and> logs w' = logs w3 \<and>
    (\<forall>sess. r = Inr sess \<longrightarrow> ss_User sess = user \<and> length (ss_RefreshToken sess) = 43 \<and>
       (\<exists>a now. granted E s ts user (device_of tok) sess (V w) a \<and>
                V w' = put_tok (replace_at now (ss_TokenID sess) tok) a))"
  using rotate_session_law [of s w3 E tok user r w'] assms fresh_draws_same [of E w "a_toks (V w)" w3]
  by (auto simp: safe_def Active_def)

lemma Refresh_safe:
  assumes "s_store s = S" "iv (db w)" "linked (V w)" "fresh_draws fr E w (a_toks (V w))"
    and "Refresh E s refreshToken w = (r, w')"
  shows "safe view iv w w'"
  using assms(1,2,5)
proof (cases rule: Refresh_cases)
  case (reuse tok r3 w2 w3)
  then have "safe view iv w2 w3" using assms(3) by (intro revokes_safe(2)) (auto simp: linked_def)
  with reuse show ?thesis by (auto simp: safe_def)
next
  case (disabled tok user r4 w3)
  then have "safe view iv w3 w'" by (intro revokes_safe(1))
  with disabled show ?thesis by (auto simp: safe_def)
next
  case (rotate tok user w3)
  then show ?thesis using rotate_case [OF assms(1,4) rotate(1,3,4,5,7,8,10,11,12)] by blast
qed (auto simp: safe_def)

text \<open>A refresh that succeeds: who may, and what becomes of the two tokens.\<close>

lemma Refresh_ok:
  assumes "s_store s = S" "iv (db w)" "fresh_draws fr E w (a_toks (V w))"
    and "Refresh E s refreshToken w = (Inr sess, w')"
  shows "\<exists>tok user a now. a_toks (V w) (t_ID tok) = Some tok \<and>
    t_TokenHash tok = HashRefreshToken E refreshToken \<and> Active tok (shd (clock w)) \<and>
    a_users (V w) (t_UserID tok) = Some user \<and> u_Status user = StatusActive \<and> ss_User sess = user \<and>
    granted E s ts user (device_of tok) sess (V w) a \<and>
    V w' = put_tok (replace_at now (ss_TokenID sess) tok) a"
  using assms(1,2,4)
proof (cases rule: Refresh_cases)
  case (rotate tok user w3)
  then show ?thesis using rotate_case [OF assms(1,3) rotate(1,3,4,5,7,8,10,11,12)] by blast
qed auto

text \<open>A token that was rotated already: no session, and its whole chain is revoked if the store can.\<close>

lemma Refresh_reuse:
  assumes "s_store s = S" "iv (db w)" "linked (V w)"
    and "a_toks (V w) i = Some t" "t_TokenHash t = HashRefreshToken E refreshToken" "t_ReplacedBy t \<noteq> None"
    and "Refresh E s refreshToken w = (r, w')"
  shows "isl r \<and> (V w' = V w \<or> (\<exists>now. V w' = revoke_where (\<lambda>x. t_ID x \<in> chain (V w) i) now (V w)))"
proof -
  have same: "tok = t \<and> t_ID t = i" if "a_toks (V w) (t_ID tok) = Some tok" "t_TokenHash tok = t_TokenHash t" for tok
    using that assms(4) keyed_hash_unique [OF keyed [OF assms(2)]] keyed_tok_ID [OF keyed [OF assms(2)]]
    by (metis option.inject)
  from assms(1,2,7) show ?thesis
  proof (cases rule: Refresh_cases)
    case (reuse tok r3 w2 w3)
    then have tok: "tok = t" "t_ID t = i" using same assms(5) by auto
    have "V w3 = V w \<or> (\<exists>now. V w3 = revoke_where (\<lambda>x. t_ID x \<in> chain (V w) i) now (V w))"
      using RevokeRefreshTokenChain [OF reuse(5) _ reuse(7)] assms(3) reuse(4) tok
      by (auto simp: linked_def elim!: wrote_cases)
    with reuse show ?thesis by auto
  next
    case (rotate tok user w3)
    then have "tok = t" using same assms(5) by auto
    with rotate assms(6) show ?thesis by (auto simp: Active_def)
  next
    case (disabled tok user r4 w3)
    then have "tok = t" using same assms(5) by auto
    with disabled assms(6) show ?thesis by auto
  qed auto
qed

section \<open>Login\<close>

lemma SetCredential_effect:
  assumes "iv (db w)" "st_SetCredential S i ph mc w = (r, w')"
  shows "iv (db w')" "logs w' = logs w" "entropy w' = entropy w" "uuids w' = uuids w"
    "V w' = V w \<or> (\<exists>now. V w' = put_cred i ph mc now (V w))" "r = Inl e \<Longrightarrow> \<not> abrupt e"
    "r = Inr u \<Longrightarrow> \<exists>now. V w' = put_cred i ph mc now (V w)"
  using SetCredential [OF assms] by (auto simp: frame_def wrote_def split: sum.splits)

text \<open>Re-hashing on login never blocks it, unless the key derivation itself panics.\<close>

lemma rehash_law:
  assumes st: "s_store s = S" and iv: "iv (db w)" and run: "rehash E s i pw mc w = (r, w')"
  shows "iv (db w') \<and> logs w' = logs w \<and> uuids w' = uuids w \<and> sset (entropy w') \<subseteq> sset (entropy w) \<and>
    (V w' = V w \<or> (\<exists>phc now. hash_of E (s_hasher s) pw phc \<and>
       V w' = put_cred i phc mc now (V w))) \<and> (\<forall>e. r = Inl e \<longrightarrow> abrupt e)"
proof -
  obtain r1 w1 where hash: "Hash E (s_hasher s) pw w = (r1, w1)" by fastforce
  have w1: "w1 = w\<lparr>entropy := stl (entropy w)\<rparr>" using hash by (rule Hash_frame)
  have sub: "sset (stl (entropy w)) \<subseteq> sset (entropy w)" by (metis stl_sset subsetI)
  show ?thesis
  proof (cases r1)
    case (Inl e)
    with run hash w1 iv sub show ?thesis by (auto simp: rehash_def split: if_splits)
  next
    case (Inr phc)
    obtain r2 w2 where set: "st_SetCredential S i phc mc w1 = (r2, w2)" by fastforce
    have "w' = w2" "r = Inr ()"
      using run hash Inr set st SetCredential_effect(6) [OF _ set] iv w1
      by (auto simp: rehash_def ignore_err_def split: sum.splits if_splits)
    with SetCredential_effect [OF _ set] Hash_hash_of [of E "s_hasher s" pw w phc w1] hash Inr w1 iv sub
    show ?thesis by auto
  qed
qed

lemma admit_law:
  assumes st: "s_store s = S" and iv: "iv (db w)" and fresh: "fresh_draws fr E w (a_toks (V w))"
    and run: "admit E s username password deviceName user cred b w = (r, w')"
    and act: "u_Status user = StatusActive" and known: "u_ID user \<in> dom (a_users (V w))"
  shows "safe view iv w w' \<and>
    (\<forall>sess. r = Inr sess \<longrightarrow> ss_User sess = user \<and> ss_MustChange sess = c_MustChange cred \<and>
       length (ss_RefreshToken sess) = 43 \<and>
       (\<exists>a. (a = V w \<or> (\<exists>phc now. b \<and> hash_of E (s_hasher s) password phc \<and>
                 a = put_cred (u_ID user) phc (c_MustChange cred) now (V w))) \<and>
            granted E s ts user deviceName sess a (V w')))"
proof -
  obtain r3 w3 where re: "(if b then rehash E s (u_ID user) password (c_MustChange cred) w else (Inr (), w)) = (r3, w3)"
    by fastforce
  have law: "iv (db w3) \<and> uuids w3 = uuids w \<and> sset (entropy w3) \<subseteq> sset (entropy w) \<and>
    (V w3 = V w \<or> (\<exists>phc now. b \<and> hash_of E (s_hasher s) password phc \<and>
                 V w3 = put_cred (u_ID user) phc (c_MustChange cred) now (V w)))"
    using rehash_law [OF st iv, of E "u_ID user" password "c_MustChange cred" r3 w3] re iv
    by (auto split: if_splits)
  then have same: "a_users (V w3) = a_users (V w)" "a_toks (V w3) = a_toks (V w)"
    by (auto simp: store_simps)
  have safe3: "safe view iv w w3"
    using law known astep.set_cred unfolding safe_def by (metis arun_maybe)
  show ?thesis
  proof (cases r3)
    case (Inl e)
    with run re act safe3 show ?thesis by (auto simp: admit_def)
  next
    case (Inr u)
    have fresh3: "fresh_draws fr E w3 (a_toks (V w3))"
      using fresh_draws_stl [OF fresh, of w3] law same by simp
    obtain r4 w4 where os: "openSession E s user deviceName w3 = (r4, w4)" by fastforce
    have safe4: "safe view iv w w4"
      using safe_trans [OF safe3 openSession_safe [OF st _ fresh3 os]] law known same by simp
    have res: "case r4 of Inl e \<Rightarrow> r = Inl e \<and> w' = w4 | Inr sess \<Rightarrow> r = Inr (sess\<lparr>ss_MustChange := c_MustChange cred\<rparr>) \<and>
        w' = log_event Info ''login'' [(''event'', LogStr ''login_success''), (''username'', LogStr username)] w4"
      using run re act Inr os by (auto simp: admit_def split: sum.splits)
    then show ?thesis
      using safe4 openSession_law [OF st _ fresh3 os] law by (auto simp: safe_def split: sum.splits)
  qed
qed

lemma Login_cases:
  assumes st: "s_store s = S" and iv: "iv (db w)"
    and run: "Login E s username password deviceName w = (r, w')"
  obtains (refused) e where "r = Inl e" "V w' = V w" "iv (db w')"
    | (disabled) user cred b where "r = Inl ErrAccountDisabled" "V w' = V w" "iv (db w')"
        "a_users (V w) (u_ID user) = Some user" "ci (u_Username user) = ci username"
        "a_creds (V w) (u_ID user) = Some cred" "Verify E (s_hasher s) password (c_PasswordHash cred) = Inr b"
        "u_Status user \<noteq> StatusActive"
    | (admitted) user cred b w2 where
        "a_users (V w) (u_ID user) = Some user" "ci (u_Username user) = ci username"
        "a_creds (V w) (u_ID user) = Some cred" "Verify E (s_hasher s) password (c_PasswordHash cred) = Inr b"
        "u_Status user = StatusActive" "V w2 = V w" "iv (db w2)" "entropy w2 = entropy w" "uuids w2 = uuids w"
        "logs w2 = logs w" "admit E s username password deviceName user cred b w2 = (r, w')"
proof -
  obtain r1 w1 where gu: "st_GetUserByUsername S username w = (r1, w1)" by fastforce
  note ro1 = read_onlyD [OF reads(2) [OF iv gu]]
  show thesis
  proof (cases r1)
    case (Inl e)
    with run gu st ro1 refused show thesis
      by (auto simp: Login_def login_failure_def split: if_splits)
  next
    case (Inr user)
    have us: "a_users (V w) (u_ID user) = Some user" "ci (u_Username user) = ci username"
      using GetUserByUsername [OF iv gu] Inr by auto
    obtain r2 w2 where gc: "st_GetCredential S (u_ID user) w1 = (r2, w2)" by fastforce
    note ro2 = read_onlyD [OF reads(5) [OF ro1(1) gc]]
    show thesis
    proof (cases r2)
      case (Inl e)
      with run gu \<open>r1 = Inr user\<close> gc st ro1 ro2 refused show thesis
        by (auto simp: Login_def split: if_splits)
    next
      case (Inr cred)
      have cr: "a_creds (V w) (u_ID user) = Some cred"
        using GetCredential [OF ro1(1) gc] Inr ro1 by auto
      show thesis
      proof (cases "Verify E (s_hasher s) password (c_PasswordHash cred)")
        case (Inl e)
        with run gu \<open>r1 = Inr user\<close> gc Inr st ro1 ro2 refused show thesis
          by (auto simp: Login_def login_failure_def split: if_splits)
      next
        case ok: (Inr b)
        have ad: "admit E s username password deviceName user cred b w2 = (r, w')"
          using run gu \<open>r1 = Inr user\<close> gc Inr st ok by (simp add: Login_def)
        show thesis
        proof (cases "u_Status user = StatusActive")
          case True
          with admitted [OF us cr ok _ _ _ _ _ _ ad] ro1 ro2 show thesis by simp
        next
          case False
          with ad have "r = Inl ErrAccountDisabled" "V w' = V w2" "db w' = db w2"
            by (auto simp: admit_def login_failure_def)
          with False disabled [OF _ _ _ us cr ok] ro1 ro2 show thesis by simp
        qed
      qed
    qed
  qed
qed

lemma admitted_law:
  assumes "s_store s = S" "fresh_draws fr E w (a_toks (V w))"
    and "a_users (V w) (u_ID user) = Some user" "u_Status user = StatusActive"
    and "V w2 = V w" "iv (db w2)" "entropy w2 = entropy w" "uuids w2 = uuids w"
    and "admit E s username password deviceName user cred b w2 = (r, w')"
  shows "safe view iv w w' \<and>
    (\<forall>sess. r = Inr sess \<longrightarrow> ss_User sess = user \<and> ss_MustChange sess = c_MustChange cred \<and>
       (\<exists>a. (a = V w \<or> (\<exists>phc now. b \<and> hash_of E (s_hasher s) password phc \<and> a = put_cred (u_ID user) phc (c_MustChange cred) now (V w))) \<and>
            granted E s ts user deviceName sess a (V w')))"
proof -
  have "fresh_draws fr E w2 (a_toks (V w2))" using assms fresh_draws_same by metis
  from admit_law [OF assms(1,6) this assms(9,4)] assms show ?thesis
    unfolding safe_def by (simp add: domI)
qed

lemma Login_safe:
  assumes "s_store s = S" "iv (db w)" "fresh_draws fr E w (a_toks (V w))"
    and "Login E s username password deviceName w = (r, w')"
  shows "safe view iv w w'"
  using assms(1,2,4)
proof (cases rule: Login_cases)
  case (admitted user cred b w2)
  then show ?thesis using admitted_law [OF assms(1,3) admitted(1,5,6,7,8,9,11)] by blast
qed (auto simp: safe_def)

text \<open>A session is opened for the holder of the password of an active account and nobody else.\<close>

lemma Login_ok:
  assumes "s_store s = S" "iv (db w)" "fresh_draws fr E w (a_toks (V w))"
    and "Login E s username password deviceName w = (Inr sess, w')"
  shows "\<exists>user cred b a. a_users (V w) (u_ID user) = Some user \<and> ci (u_Username user) = ci username \<and>
    a_creds (V w) (u_ID user) = Some cred \<and> Verify E (s_hasher s) password (c_PasswordHash cred) = Inr b \<and>
    u_Status user = StatusActive \<and> ss_User sess = user \<and> ss_MustChange sess = c_MustChange cred \<and>
    (a = V w \<or> (\<exists>phc now. b \<and> hash_of E (s_hasher s) password phc \<and> a = put_cred (u_ID user) phc (c_MustChange cred) now (V w))) \<and>
    granted E s ts user deviceName sess a (V w')"
  using assms(1,2,4)
proof (cases rule: Login_cases)
  case (admitted user cred b w2)
  then show ?thesis using admitted_law [OF assms(1,3) admitted(1,5,6,7,8,9,11)] by metis
qed auto

text \<open>Whoever is not admitted leaves the store as it was.\<close>

lemma Login_refused:
  assumes "s_store s = S" "iv (db w)"
    and no: "\<And>user cred b. a_users (V w) (u_ID user) = Some user \<Longrightarrow> ci (u_Username user) = ci username \<Longrightarrow>
      a_creds (V w) (u_ID user) = Some cred \<Longrightarrow> Verify E (s_hasher s) password (c_PasswordHash cred) = Inr b \<Longrightarrow>
      u_Status user \<noteq> StatusActive"
    and "Login E s username password deviceName w = (r, w')"
  shows "isl r \<and> V w' = V w"
  using assms(1,2,4)
proof (cases rule: Login_cases)
  case (admitted user cred b w2)
  with no show ?thesis by blast
qed auto

end

end
