(* ===== verification/Account_Laws.thy ===== *)
theory Account_Laws
  imports Service_Laws
begin

text \<open>
  Logout and the account management methods of \<^verbatim>\<open>internal/service/service.go\<close> over any store
  that keeps \<open>store_contract\<close>: each is a run of the abstract store machine, and what its
  success means for the tables.
\<close>

context store_contract begin

section \<open>Logout and sessions\<close>

lemma RevokeRefreshToken_effect:
  assumes "iv (db w)" "st_RevokeRefreshToken S i w = (r, w')"
  shows "iv (db w')" "logs w' = logs w" "r = Inl e \<Longrightarrow> \<not> abrupt e"
    "r = Inr u \<Longrightarrow> \<exists>now. V w' = revoke_where (\<lambda>t. t_ID t = i) now (V w)"
    "V w' = V w \<or> (\<exists>now. V w' = revoke_where (\<lambda>t. t_ID t = i) now (V w))"
    "r = Inl ErrNotFound \<Longrightarrow> V w' = V w \<and> (\<forall>t. a_toks (V w) i = Some t \<longrightarrow> t_RevokedAt t \<noteq> None)"
  using RevokeRefreshToken [OF assms] by (auto simp: frame_def wrote_def split: sum.splits)

lemma revoked_dead:
  "a_toks a i = Some t \<Longrightarrow> t_ID t = i \<Longrightarrow> \<exists>t'. a_toks (revoke_where (\<lambda>t. t_ID t = i) now a) i = Some t' \<and> t_RevokedAt t' \<noteq> None"
  by (auto simp: store_simps simp del: not_None_eq)

lemma Logout_cases:
  assumes st: "s_store s = S" and iv: "iv (db w)" and run: "Logout E s refreshToken w = (r, w')"
  obtains (unknown) "r = Inr ()" "V w' = V w" "iv (db w')"
      "\<And>i t. a_toks (V w) i = Some t \<Longrightarrow> t_TokenHash t \<noteq> HashRefreshToken E refreshToken"
    | (failed) e where "r = Inl e" "V w' = V w" "iv (db w')" "\<not> abrupt e"
    | (found) tok w1 r2 where "a_toks (V w) (t_ID tok) = Some tok" "t_TokenHash tok = HashRefreshToken E refreshToken"
        "iv (db w1)" "V w1 = V w" "st_RevokeRefreshToken S (t_ID tok) w1 = (r2, w')"
        "r = Inr () \<longleftrightarrow> r2 = Inr () \<or> r2 = Inl ErrNotFound"
proof -
  obtain r1 w1 where get: "st_GetRefreshTokenByHash S (HashRefreshToken E refreshToken) w = (r1, w1)" by fastforce
  note ro1 = read_onlyD [OF reads(6) [OF iv get]]
  note law = GetRefreshTokenByHash [OF iv get]
  show thesis
  proof (cases r1)
    case (Inl e)
    with run get st have "r = (if e = ErrNotFound then Inr () else Inl e)" "w' = w1"
      by (auto simp: Logout_def)
    with Inl law ro1 unknown failed show thesis by (cases "e = ErrNotFound") auto
  next
    case (Inr tok)
    obtain r2 w2 where rv: "st_RevokeRefreshToken S (t_ID tok) w1 = (r2, w2)" by fastforce
    with run get Inr st have "w' = w2" "r = Inr () \<longleftrightarrow> r2 = Inr () \<or> r2 = Inl ErrNotFound"
      by (auto simp: Logout_def split: sum.splits if_splits)
    with found [of tok w1 r2] law Inr ro1 rv show thesis by simp
  qed
qed

lemma Logout_safe:
  assumes "s_store s = S" "iv (db w)" "Logout E s refreshToken w = (r, w')"
  shows "safe view iv w w'"
  using assms
proof (cases rule: Logout_cases)
  case (found tok w1 r2)
  then have "safe view iv w1 w'" by (intro revokes_safe(1))
  with found show ?thesis by (simp add: safe_def)
qed (auto simp: safe_def)

text \<open>After a logout no token with that hash is active.\<close>

lemma Logout_ok:
  assumes "s_store s = S" "iv (db w)" "Logout E s refreshToken w = (Inr (), w')"
    and tok: "a_toks (V w') i = Some t" "t_TokenHash t = HashRefreshToken E refreshToken"
  shows "t_RevokedAt t \<noteq> None"
  using assms(1,2,3)
proof (cases rule: Logout_cases)
  case unknown
  with tok show ?thesis by auto
next
  case (found tk w1 r2)
  have id: "i = t_ID tk"
  proof -
    obtain t0 where "a_toks (V w) i = Some t0" "t_TokenHash t0 = t_TokenHash t"
      using RevokeRefreshToken_effect(5) [OF found(3,5)] tok found(4) by (auto simp: store_simps)
    then show ?thesis using keyed_hash_unique [OF keyed [OF assms(2)]] found tok(2) by metis
  qed
  have "t_ID tk = i" "a_toks (V w1) i = Some tk" using id found by simp_all
  moreover have "r2 = Inr () \<or> r2 = Inl ErrNotFound" using found(6) by simp
  ultimately show ?thesis
    using RevokeRefreshToken_effect(4,6) [OF found(3,5)] tok(1) id
    by (auto simp: store_simps)
qed auto

lemma RevokeSession_law:
  assumes st: "s_store s = S" and iv: "iv (db w)" and run: "RevokeSession s userID sessionID w = (r, w')"
  shows "safe view iv w w'"
    "V w' = V w \<or> (\<exists>t now. a_toks (V w) sessionID = Some t \<and> t_UserID t = userID \<and> Active t (tm w) \<and>
       V w' = revoke_where (\<lambda>t. t_ID t = sessionID) now (V w))"
    "r = Inr () \<Longrightarrow> \<exists>t now. a_toks (V w) sessionID = Some t \<and> t_UserID t = userID \<and> Active t (tm w) \<and>
       V w' = revoke_where (\<lambda>t. t_ID t = sessionID) now (V w)"
proof -
  obtain r1 w1 where ls: "st_ListUserSessions S userID w = (r1, w1)" by fastforce
  note law = ListUserSessions [OF iv ls]
  then have ro1: "iv (db w1)" "V w1 = V w" "safe view iv w w1"
    using undisturbedD [of w r1 w1] by auto
  have mem: "\<exists>t. a_toks (V w) sessionID = Some t \<and> t_UserID t = userID \<and> Active t (tm w)"
    if "r1 = Inr l" "list_ex (\<lambda>t. t_ID t = sessionID) l" for l
    using that law keyed_tok_ID [OF keyed [OF iv]] by (auto simp: list_ex_iff ran_def)
  consider (no) "V w' = V w" "w' = w1" "isl r"
    | (yes) l where "r1 = Inr l" "list_ex (\<lambda>t. t_ID t = sessionID) l" "st_RevokeRefreshToken S sessionID w1 = (r, w')"
    using run ls st ro1 by (auto simp: RevokeSession_def split: sum.splits if_splits)
  note cases = this
  show "safe view iv w w'"
  proof (cases rule: cases)
    case no
    with ro1 show ?thesis by simp
  next
    case yes
    with revokes_safe(1) [OF ro1(1)] safe_trans [OF ro1(3)] show ?thesis by blast
  qed
  show "V w' = V w \<or> (\<exists>t now. a_toks (V w) sessionID = Some t \<and> t_UserID t = userID \<and> Active t (tm w) \<and>
       V w' = revoke_where (\<lambda>t. t_ID t = sessionID) now (V w))"
    using cases mem RevokeRefreshToken_effect(5) [OF ro1(1)] ro1(2) by metis
  show "\<exists>t now. a_toks (V w) sessionID = Some t \<and> t_UserID t = userID \<and> Active t (tm w) \<and>
       V w' = revoke_where (\<lambda>t. t_ID t = sessionID) now (V w)" if "r = Inr ()"
    using cases mem RevokeRefreshToken_effect(4) [OF ro1(1)] ro1(2) that by (metis sum.disc(2))
qed

section \<open>Users\<close>

lemma UpdateUser_effect:
  assumes "iv (db w)" "st_UpdateUser S up w = (r, w')"
  shows "iv (db w')" "logs w' = logs w" "r = Inl e \<Longrightarrow> \<not> abrupt e"
    "r = Inr u \<Longrightarrow> \<exists>u0 now. a_users (V w) (up_ID up) = Some u0 \<and> u = apply_update up now u0 \<and> V w' = put_user u (V w)"
  using UpdateUser [OF assms] by (auto simp: frame_def wrote_def split: sum.splits)

lemma RevokeUserRefreshTokens_effect:
  assumes "iv (db w)" "st_RevokeUserRefreshTokens S i ex w = (r, w')"
  shows "iv (db w')" "logs w' = logs w" "r = Inl e \<Longrightarrow> \<not> abrupt e"
    "r = Inr u \<Longrightarrow> \<exists>now. V w' = revoke_where (\<lambda>t. t_UserID t = i \<and> \<not> spared ex (t_ID t)) now (V w)"
  using RevokeUserRefreshTokens [OF assms] by (auto simp: frame_def wrote_def split: sum.splits)

lemma UpdateProfile_law:
  assumes "s_store s = S" "iv (db w)" "UpdateProfile s userID displayName w = (r, w')"
  shows "safe view iv w w'"
    "r = Inr u \<Longrightarrow> \<exists>u0 now. a_users (V w) userID = Some u0 \<and>
       u = u0\<lparr>u_DisplayName := displayName, u_UpdatedAt := now\<rparr> \<and> V w' = put_user u (V w)"
proof -
  let ?up = "\<lparr>up_ID = userID, up_DisplayName = Some displayName, up_Email = None, up_Role = None, up_Status = None\<rparr>"
  have run: "st_UpdateUser S ?up w = (r, w')" using assms by (simp add: UpdateProfile_def)
  show "safe view iv w w'" using UpdateUser_safe [OF assms(2) run] .
  show "\<exists>u0 now. a_users (V w) userID = Some u0 \<and>
       u = u0\<lparr>u_DisplayName := displayName, u_UpdatedAt := now\<rparr> \<and> V w' = put_user u (V w)" if "r = Inr u"
    using UpdateUser_effect(4) [OF assms(2) run that] by (auto simp: apply_update_def)
qed

lemma Service_UpdateUser_law:
  assumes st: "s_store s = S" and iv: "iv (db w)" and run: "Service_UpdateUser s p w = (r, w')"
  shows "safe view iv w w'"
    "r = Inr u \<Longrightarrow> \<exists>u0 now. a_users (V w) (sp_ID p) = Some u0 \<and> u_Role u = case_option (u_Role u0) id (sp_Role p) \<and>
       u_Status u = case_option (u_Status u0) id (sp_Status p) \<and> u_Username u = u_Username u0 \<and>
       V w' = (if sp_Status p = Some StatusDisabled
               then revoke_where (\<lambda>t. t_UserID t = sp_ID p) now (put_user u (V w)) else put_user u (V w))"
proof -
  let ?up = "\<lparr>up_ID = sp_ID p, up_DisplayName = sp_DisplayName p, up_Email = None, up_Role = sp_Role p, up_Status = sp_Status p\<rparr>"
  obtain r1 w1 where up: "st_UpdateUser S ?up w = (r1, w1)" by fastforce
  note safe1 = UpdateUser_safe [OF iv up]
  obtain r2 w2 where rv: "st_RevokeUserRefreshTokens S (sp_ID p) None w1 = (r2, w2)" by fastforce
  note safe2 = revokes_safe(3) [OF safe_iv [OF safe1] rv]
  consider (no) "isl r" "w' = w1" | (keep) u' where "sp_Status p \<noteq> Some StatusDisabled" "r1 = Inr u'" "r = r1" "w' = w1"
    | (fail) "isl r" "w' = w2"
    | (kill) u' where "sp_Status p = Some StatusDisabled" "r1 = Inr u'" "r2 = Inr ()" "r = r1" "db w' = db w2"
    using run st up rv by (auto simp: Service_UpdateUser_def split: sum.splits if_splits)
  note cases = this
  show "safe view iv w w'"
    using cases safe1 safe_trans [OF safe1 safe2] by cases (auto simp: safe_def)
  show "\<exists>u0 now. a_users (V w) (sp_ID p) = Some u0 \<and> u_Role u = case_option (u_Role u0) id (sp_Role p) \<and>
       u_Status u = case_option (u_Status u0) id (sp_Status p) \<and> u_Username u = u_Username u0 \<and>
       V w' = (if sp_Status p = Some StatusDisabled
               then revoke_where (\<lambda>t. t_UserID t = sp_ID p) now (put_user u (V w)) else put_user u (V w))"
    if r: "r = Inr u"
  proof -
    from cases r have r1: "r1 = Inr u" by cases auto
    from UpdateUser_effect(4) [OF iv up r1] obtain u0 now where u0: "a_users (V w) (sp_ID p) = Some u0"
      "u = apply_update ?up now u0" "V w1 = put_user u (V w)" by auto
    from cases r have "(if sp_Status p = Some StatusDisabled then r2 = Inr () \<and> db w' = db w2 else w' = w1)"
      by cases auto
    then have "\<exists>now. V w' = (if sp_Status p = Some StatusDisabled
               then revoke_where (\<lambda>t. t_UserID t = sp_ID p) now (put_user u (V w)) else put_user u (V w))"
      using RevokeUserRefreshTokens_effect(4) [OF safe_iv [OF safe1] rv] u0(3) by (auto simp: spared_def)
    with u0 show ?thesis by (auto simp: apply_update_def)
  qed
qed

section \<open>Passwords\<close>

lemma ChangePassword_cases:
  assumes st: "s_store s = S" and iv: "iv (db w)"
    and run: "ChangePassword E s userID current newPassword keep w = (r, w')"
  obtains (refused) e where "r = Inl e" "V w' = V w" "iv (db w')"
    | (verified) cred b w2 phc r3 w3 r4 w4 where "a_creds (V w) userID = Some cred"
        "Verify E (s_hasher s) current (c_PasswordHash cred) = Inr b"
        "V w2 = V w" "iv (db w2)" "hash_of E (s_hasher s) newPassword phc"
        "st_SetCredential S userID phc False w2 = (r3, w3)"
        "st_RevokeUserRefreshTokens S userID keep w3 = (r4, w4)"
        "isl r3 \<and> isl r \<and> w' = w3 \<or> r3 = Inr () \<and> (isl r \<longleftrightarrow> isl r4) \<and> db w' = db w4"
proof -
  obtain r1 w1 where gc: "st_GetCredential S userID w = (r1, w1)" by fastforce
  note ro1 = read_onlyD [OF reads(5) [OF iv gc]]
  show thesis
  proof (cases r1)
    case (Inl e)
    with run gc st ro1 refused show thesis by (auto simp: ChangePassword_def)
  next
    case (Inr cred)
    have cr: "a_creds (V w) userID = Some cred" using GetCredential [OF iv gc] Inr by auto
    obtain r2 w2 where hs: "Hash E (s_hasher s) newPassword w1 = (r2, w2)" by fastforce
    have w2: "V w2 = V w" "iv (db w2)" using Hash_frame [OF hs] ro1 by simp_all
    show thesis
    proof (cases "Verify E (s_hasher s) current (c_PasswordHash cred)")
      case (Inl e)
      with run gc Inr st ro1 refused show thesis by (auto simp: ChangePassword_def)
    next
      case ok: (Inr b)
      show thesis
      proof (cases r2)
        case (Inl e)
        with run gc Inr st ok hs w2 refused show thesis by (auto simp: ChangePassword_def)
      next
        case phc: (Inr phc)
        obtain r3 w3 where sc: "st_SetCredential S userID phc False w2 = (r3, w3)" by fastforce
        obtain r4 w4 where rv: "st_RevokeUserRefreshTokens S userID keep w3 = (r4, w4)" by fastforce
        have "isl r3 \<and> isl r \<and> w' = w3 \<or> r3 = Inr () \<and> (isl r \<longleftrightarrow> isl r4) \<and> db w' = db w4"
          using run gc Inr st ok hs phc sc rv by (auto simp: ChangePassword_def split: sum.splits)
        with verified [OF cr ok w2 Hash_hash_of sc rv] hs phc show thesis by blast
      qed
    qed
  qed
qed

lemma linked_cred_user: "linked a \<Longrightarrow> a_creds a i = Some c \<Longrightarrow> i \<in> dom (a_users a)"
  by (auto simp: linked_def refs_ok_def)

lemma ChangePassword_safe:
  assumes "s_store s = S" "iv (db w)" "linked (V w)"
    and "ChangePassword E s userID current newPassword keep w = (r, w')"
  shows "safe view iv w w'"
  using assms(1,2,4)
proof (cases rule: ChangePassword_cases)
  case (verified cred b w2 phc r3 w3 r4 w4)
  have "userID \<in> dom (a_users (V w2))" using linked_cred_user [OF assms(3)] verified by simp
  then have 3: "safe view iv w2 w3" using SetCredential_safe(1) verified by metis
  have 4: "safe view iv w3 w4" using revokes_safe(3) [OF safe_iv [OF 3]] verified by metis
  from verified 3 safe_trans [OF 3 4] show ?thesis by (auto simp: safe_def)
qed (auto simp: safe_def)

lemma ChangePassword_ok:
  assumes "s_store s = S" "iv (db w)"
    and "ChangePassword E s userID current newPassword keep w = (Inr (), w')"
  shows "\<exists>cred b phc now now'. a_creds (V w) userID = Some cred \<and>
    Verify E (s_hasher s) current (c_PasswordHash cred) = Inr b \<and>
    hash_of E (s_hasher s) newPassword phc \<and>
    V w' = revoke_where (\<lambda>t. t_UserID t = userID \<and> \<not> spared keep (t_ID t)) now'
             (put_cred userID phc False now (V w))"
  using assms
proof (cases rule: ChangePassword_cases)
  case (verified cred b w2 phc r3 w3 r4 w4)
  from verified(8) have ok: "r3 = Inr ()" "r4 = Inr ()" "db w' = db w4" by (cases r4; auto)+
  obtain now where "V w3 = put_cred userID phc False now (V w)"
    using SetCredential_effect(7) [OF verified(4,6)] ok verified(3) by auto
  moreover obtain now' where "V w4 = revoke_where (\<lambda>t. t_UserID t = userID \<and> \<not> spared keep (t_ID t)) now' (V w3)"
    using RevokeUserRefreshTokens_effect(4) [OF SetCredential_effect(1) [OF verified(4,6)] verified(7)] ok by auto
  ultimately show ?thesis using verified(1,2,5) ok by auto
qed auto

text \<open>A wrong current password changes nothing.\<close>

lemma ChangePassword_refused:
  assumes "s_store s = S" "iv (db w)"
    and "\<And>cred b. a_creds (V w) userID = Some cred \<Longrightarrow> Verify E (s_hasher s) current (c_PasswordHash cred) \<noteq> Inr b"
    and "ChangePassword E s userID current newPassword keep w = (r, w')"
  shows "isl r \<and> V w' = V w"
  using assms(1,2,4)
proof (cases rule: ChangePassword_cases)
  case (verified cred b w2 phc r3 w3 r4 w4)
  with assms(3) show ?thesis by blast
qed auto

section \<open>Temporary passwords, new accounts, bootstrap\<close>

text \<open>A temporary password is sixteen characters of the alphabet.\<close>

lemma temporaryPassword_law:
  assumes "temporaryPassword w = (r, w')"
  shows "w' = w\<lparr>entropy := stl (entropy w)\<rparr>"
    "r = Inr temp \<Longrightarrow> length temp = 16 \<and> set temp \<subseteq> set temp_alphabet"
    "r = Inl e \<Longrightarrow> \<not> abrupt e"
proof -
  have pos: "0 < length temp_alphabet" by (simp add: temp_alphabet_def)
  show "w' = w\<lparr>entropy := stl (entropy w)\<rparr>" "r = Inl e \<Longrightarrow> \<not> abrupt e"
    using assms by (auto simp: temporaryPassword_def rand_read_def Let_def split: option.splits)
  show "length temp = 16 \<and> set temp \<subseteq> set temp_alphabet" if "r = Inr temp"
    using assms that pos
    by (auto simp: temporaryPassword_def rand_read_def Let_def split: option.splits intro!: nth_mem mod_less_divisor)
qed

lemma setTempPassword_law:
  assumes st: "s_store s = S" and iv: "iv (db w)" and us: "userID \<in> dom (a_users (V w))"
    and run: "setTempPassword E s userID w = (r, w')"
  shows "safe view iv w w' \<and> logs w' = logs w \<and>
    (V w' = V w \<and> isl r \<or> (\<exists>temp phc now. length temp = 16 \<and> set temp \<subseteq> set temp_alphabet \<and>
       hash_of E (s_hasher s) temp phc \<and> V w' = put_cred userID phc True now (V w) \<and> (\<forall>x. r = Inr x \<longrightarrow> x = temp)))"
proof -
  obtain r1 w1 where tp: "temporaryPassword w = (r1, w1)" by fastforce
  note tpl = temporaryPassword_law [OF tp]
  show ?thesis
  proof (cases r1)
    case (Inl e)
    with run tp tpl(1) iv show ?thesis by (auto simp: setTempPassword_def safe_def)
  next
    case (Inr temp)
    obtain r2 w2 where hs: "Hash E (s_hasher s) temp w1 = (r2, w2)" by fastforce
    have w2: "db w2 = db w" "logs w2 = logs w" using Hash_frame [OF hs] tpl(1) by simp_all
    show ?thesis
    proof (cases r2)
      case (Inl e)
      with run tp Inr hs w2 iv show ?thesis by (auto simp: setTempPassword_def safe_def)
    next
      case phc: (Inr phc)
      obtain r3 w3 where sc: "st_SetCredential S userID phc True w2 = (r3, w3)" by fastforce
      have "safe view iv w w3" using SetCredential_safe(1) [OF _ _ sc] iv us w2 by (auto simp: safe_def)
      moreover have "r = (case r3 of Inl e \<Rightarrow> Inl e | Inr _ \<Rightarrow> Inr temp)" "w' = w3"
        using run tp Inr hs phc sc st by (auto simp: setTempPassword_def split: sum.splits)
      moreover have "V w3 = V w \<and> isl r3 \<or> (\<exists>now. V w3 = put_cred userID phc True now (V w))"
        using SetCredential_effect(5,7) [OF _ sc] iv w2 by (cases r3) auto
      ultimately show ?thesis
        using SetCredential_effect(2) [OF _ sc] iv w2 tpl(2) [OF Inr] Hash_hash_of [of E "s_hasher s" temp w1 phc w2] hs phc
        by (auto split: sum.splits)
    qed
  qed
qed

lemma CreateUser_effect:
  assumes "iv (db w)" "\<And>i. shd (uuids w) = Some i \<Longrightarrow> fu i (a_users (V w))" "st_CreateUser S p w = (r, w')"
  shows "logs w' = logs w" "r = Inl ErrDuplicateUsername \<Longrightarrow> V w' = V w"
    "r = Inr u \<Longrightarrow> \<exists>i now. u = new_user p i now \<and> V w' = put_user u (V w) \<and> a_users (V w) i = None \<and>
       name_free ci (cp_Username p) (V w)"
  using CreateUser [OF assms] by (auto simp: frame_def wrote_def split: sum.splits)

lemma Service_CreateUser_law:
  assumes st: "s_store s = S" and iv: "iv (db w)" and fresh: "\<And>i. shd (uuids w) = Some i \<Longrightarrow> fu i (a_users (V w))"
    and run: "Service_CreateUser E s username displayName role w = (r, w')"
  shows "safe view iv w w'"
    "r = Inr (u, temp) \<Longrightarrow> name_free ci username (V w) \<and> a_users (V w) (u_ID u) = None \<and> u_Role u = role \<and>
       u_Username u = username \<and> u_Status u = StatusActive \<and> length temp = 16 \<and>
       (\<exists>phc now. hash_of E (s_hasher s) temp phc \<and> V w' = put_cred (u_ID u) phc True now (put_user u (V w)))"
proof -
  let ?p = "\<lparr>cp_Username = username, cp_DisplayName = displayName, cp_Role = role\<rparr>"
  obtain r1 w1 where cu: "st_CreateUser S ?p w = (r1, w1)" by fastforce
  note safe1 = CreateUser_safe [OF iv fresh cu]
  have "safe view iv w w' \<and> (r = Inr (u, temp) \<longrightarrow>
       name_free ci username (V w) \<and> a_users (V w) (u_ID u) = None \<and> u_Role u = role \<and>
       u_Username u = username \<and> u_Status u = StatusActive \<and> length temp = 16 \<and>
       (\<exists>phc now. hash_of E (s_hasher s) temp phc \<and> V w' = put_cred (u_ID u) phc True now (put_user u (V w))))"
  proof (cases r1)
    case (Inl e)
    with run cu st safe1 show ?thesis by (auto simp: Service_CreateUser_def)
  next
    case (Inr u1)
    obtain i now where u1: "u1 = new_user ?p i now" "V w1 = put_user u1 (V w)" "a_users (V w) i = None"
        "name_free ci username (V w)" using CreateUser_effect(3) [OF iv fresh cu Inr] by auto
    obtain r2 w2 where tp: "setTempPassword E s (u_ID u1) w1 = (r2, w2)" by fastforce
    have dom: "u_ID u1 \<in> dom (a_users (V w1))" using u1 by (simp add: store_simps)
    note law = setTempPassword_law [OF st safe_iv [OF safe1] dom tp]
    have db: "db w' = db w2" and r: "r = Inr (u, temp) \<Longrightarrow> r2 = Inr temp \<and> u = u1"
      using run cu Inr st tp by (auto simp: Service_CreateUser_def split: sum.splits)
    have "safe view iv w w'" using law safe_trans [OF safe1, of w2] db by (simp add: safe_def)
    moreover have "length temp = 16 \<and> (\<exists>phc now. hash_of E (s_hasher s) temp phc \<and>
        V w' = put_cred (u_ID u) phc True now (put_user u (V w)))" if "r = Inr (u, temp)"
      using law r [OF that] u1(2) db by fastforce
    ultimately show ?thesis using r u1 by auto
  qed
  then show "safe view iv w w'"
    "r = Inr (u, temp) \<Longrightarrow> name_free ci username (V w) \<and> a_users (V w) (u_ID u) = None \<and> u_Role u = role \<and>
       u_Username u = username \<and> u_Status u = StatusActive \<and> length temp = 16 \<and>
       (\<exists>phc now. hash_of E (s_hasher s) temp phc \<and> V w' = put_cred (u_ID u) phc True now (put_user u (V w)))"
    by auto
qed

lemma Service_CreateUser_taken:
  assumes st: "s_store s = S" and iv: "iv (db w)" and fresh: "\<And>i. shd (uuids w) = Some i \<Longrightarrow> fu i (a_users (V w))"
    and taken: "a_users (V w) j = Some v" "ci (u_Username v) = ci username"
    and run: "Service_CreateUser E s username displayName role w = (r, w')"
  shows "isl r \<and> V w' = V w"
proof -
  let ?p = "\<lparr>cp_Username = username, cp_DisplayName = displayName, cp_Role = role\<rparr>"
  obtain r1 w1 where cu: "st_CreateUser S ?p w = (r1, w1)" by fastforce
  have "\<not> name_free ci username (V w)" using taken by (auto simp: name_free_def)
  then have "isl r1" "V w1 = V w"
    using CreateUser [OF iv fresh cu] by (auto simp: wrote_def split: sum.splits)
  with run cu st show ?thesis by (auto simp: Service_CreateUser_def split: sum.splits)
qed

lemma ResetPassword_law:
  assumes st: "s_store s = S" and iv: "iv (db w)" and run: "ResetPassword E s userID w = (r, w')"
  shows "safe view iv w w'"
    "r = Inr temp \<Longrightarrow> length temp = 16 \<and> set temp \<subseteq> set temp_alphabet \<and> userID \<in> dom (a_users (V w)) \<and>
       (\<exists>phc now now'. hash_of E (s_hasher s) temp phc \<and>
          V w' = revoke_where (\<lambda>t. t_UserID t = userID) now' (put_cred userID phc True now (V w)))"
proof -
  obtain r1 w1 where gu: "st_GetUser S userID w = (r1, w1)" by fastforce
  note ro1 = read_onlyD [OF reads(1) [OF iv gu]]
  have "safe view iv w w' \<and> (r = Inr temp \<longrightarrow>
       length temp = 16 \<and> set temp \<subseteq> set temp_alphabet \<and> userID \<in> dom (a_users (V w)) \<and>
       (\<exists>phc now now'. hash_of E (s_hasher s) temp phc \<and>
          V w' = revoke_where (\<lambda>t. t_UserID t = userID) now' (put_cred userID phc True now (V w))))"
  proof (cases r1)
    case (Inl e)
    with run gu st ro1 show ?thesis by (auto simp: ResetPassword_def)
  next
    case (Inr u1)
    have dom: "userID \<in> dom (a_users (V w1))" using GetUser [OF iv gu] Inr ro1(2) by auto
    obtain r2 w2 where tp: "setTempPassword E s userID w1 = (r2, w2)" by fastforce
    note law = setTempPassword_law [OF st ro1(1) dom tp]
    then have safe2: "safe view iv w w2" using safe_trans [OF ro1(6)] by blast
    obtain r3 w3 where rv: "st_RevokeUserRefreshTokens S userID None w2 = (r3, w3)" by fastforce
    note safe3 = safe_trans [OF safe2 revokes_safe(3) [OF safe_iv [OF safe2] rv]]
    consider (no) "isl r" "w' = w2" | (fail) "isl r" "w' = w3" | (ok) t where "r2 = Inr t" "r3 = Inr ()" "r = Inr t" "db w' = db w3"
      using run gu Inr st tp rv by (auto simp: ResetPassword_def split: sum.splits)
    then show ?thesis
    proof cases
      case (ok t)
      obtain phc now where "length t = 16" "set t \<subseteq> set temp_alphabet" "hash_of E (s_hasher s) t phc"
          "V w2 = put_cred userID phc True now (V w)" using law ok(1) ro1(2) by auto
      moreover obtain now' where "V w3 = revoke_where (\<lambda>t. t_UserID t = userID) now' (V w2)"
        using RevokeUserRefreshTokens_effect(4) [OF safe_iv [OF safe2] rv ok(2)] by (auto simp: spared_def)
      moreover have "safe view iv w w'" using safe3 ok(4) by (simp add: safe_def)
      ultimately show ?thesis using ok dom ro1(2) by (metis sum.inject(2))
    qed (use safe2 safe3 in auto)
  qed
  then show "safe view iv w w'"
    "r = Inr temp \<Longrightarrow> length temp = 16 \<and> set temp \<subseteq> set temp_alphabet \<and> userID \<in> dom (a_users (V w)) \<and>
       (\<exists>phc now now'. hash_of E (s_hasher s) temp phc \<and>
          V w' = revoke_where (\<lambda>t. t_UserID t = userID) now' (put_cred userID phc True now (V w)))"
    by auto
qed

lemma no_users: "iv (db w) \<Longrightarrow> card (dom (a_users (V w))) = 0 \<longleftrightarrow> dom (a_users (V w)) = {}"
  using keyed by (auto simp: keyed_def users_keyed_def)

text \<open>The part of \<^verbatim>\<open>Bootstrap\<close> that runs on an empty store.\<close>

lemma Bootstrap_empty:
  assumes st: "s_store s = S" and iv: "iv (db w)" and fresh: "\<And>i. shd (uuids w) = Some i \<Longrightarrow> fu i (a_users (V w))"
    and run: "Bootstrap E s username password w = (r, w')"
    and un: "username \<noteq> []" "st_CountUsers S w = (Inr n, w1)" "\<not> 0 < n"
  shows "safe view iv w w' \<and> (r = Inr () \<longrightarrow> password \<noteq> [] \<and>
    (\<exists>u phc now now'. u = new_user \<lparr>cp_Username = username, cp_DisplayName = username, cp_Role = RoleAdmin\<rparr> (u_ID u) now \<and>
       hash_of E (s_hasher s) password phc \<and> V w' = put_cred (u_ID u) phc True now' (put_user u (V w))))"
proof -
  let ?p = "\<lparr>cp_Username = username, cp_DisplayName = username, cp_Role = RoleAdmin\<rparr>"
  note ro1 = read_onlyD [OF reads(4) [OF iv un(2)]]
  obtain r2 w2 where cu: "st_CreateUser S ?p w1 = (r2, w2)" by fastforce
  have fresh1: "\<And>i. shd (uuids w1) = Some i \<Longrightarrow> fu i (a_users (V w1))" using fresh ro1 by simp
  note safe2 = safe_trans [OF ro1(6) CreateUser_safe [OF ro1(1) fresh1 cu]]
  show ?thesis
  proof (cases "password = [] \<or> isl r2")
    case True
    with run un st cu safe2 ro1 show ?thesis by (auto simp: Bootstrap_def split: sum.splits if_splits)
  next
    case False
    then obtain u where r2: "r2 = Inr u" and pw: "password \<noteq> []" by (cases r2) auto
    obtain i now where u: "u = new_user ?p i now" "V w2 = put_user u (V w)"
      using CreateUser_effect(3) [OF ro1(1) fresh1 cu r2] ro1(2) by auto
    obtain r3 w3 where hs: "Hash E (s_hasher s) password w2 = (r3, w3)" by fastforce
    have w3: "db w3 = db w2" using Hash_frame [OF hs] by simp
    show ?thesis
    proof (cases r3)
      case (Inl e)
      with run un st cu r2 pw hs safe2 w3 show ?thesis by (auto simp: Bootstrap_def safe_def)
    next
      case (Inr phc)
      obtain r4 w4 where sc: "st_SetCredential S (u_ID u) phc True w3 = (r4, w4)" by fastforce
      have iv3: "iv (db w3)" and dom: "u_ID u \<in> dom (a_users (V w3))"
        using safe_iv [OF safe2] w3 u(2) by (simp_all add: store_simps)
      have "safe view iv w w4"
        using safe2 SetCredential_safe(1) [OF iv3 dom sc] w3 by (auto simp: safe_def)
      moreover have "db w' = db w4" "r = Inr () \<Longrightarrow> r4 = Inr ()"
        using run un st cu r2 pw hs Inr sc by (auto simp: Bootstrap_def split: sum.splits)
      moreover have "\<exists>now'. V w4 = put_cred (u_ID u) phc True now' (put_user u (V w))" if "r4 = Inr ()"
        using SetCredential_effect(7) [OF iv3 sc that] w3 u(2) by simp
      moreover have "u = new_user ?p (u_ID u) now" "hash_of E (s_hasher s) password phc"
        using u(1) Hash_hash_of [of E "s_hasher s" password w2 phc w3] hs Inr by simp_all
      ultimately show ?thesis using pw unfolding safe_def by metis
    qed
  qed
qed

lemma Bootstrap_law:
  assumes st: "s_store s = S" and iv: "iv (db w)" and fresh: "\<And>i. shd (uuids w) = Some i \<Longrightarrow> fu i (a_users (V w))"
    and run: "Bootstrap E s username password w = (r, w')"
  shows "safe view iv w w'"
    "username = [] \<or> dom (a_users (V w)) \<noteq> {} \<Longrightarrow> V w' = V w"
    "r = Inr () \<Longrightarrow> username \<noteq> [] \<Longrightarrow> dom (a_users (V w)) = {} \<Longrightarrow>
       (\<exists>u phc now now'. u = new_user \<lparr>cp_Username = username, cp_DisplayName = username, cp_Role = RoleAdmin\<rparr> (u_ID u) now \<and>
         hash_of E (s_hasher s) password phc \<and> V w' = put_cred (u_ID u) phc True now' (put_user u (V w)))"
proof -
  obtain r1 w1 where cn: "st_CountUsers S w = (r1, w1)" by fastforce
  note ro1 = read_onlyD [OF reads(4) [OF iv cn]]
  have cnt: "r1 = Inr n \<Longrightarrow> 0 < n \<longleftrightarrow> dom (a_users (V w)) \<noteq> {}" for n
    using CountUsers [OF iv cn] no_users [OF iv] by auto
  consider (skip) "w' = w \<or> w' = w1" "username = [] \<or> dom (a_users (V w)) \<noteq> {} \<or> isl r"
    | (empty) n where "username \<noteq> []" "r1 = Inr n" "\<not> 0 < n"
    using run st cn cnt by (cases r1) (auto simp: Bootstrap_def split: if_splits)
  note cases = this
  show "safe view iv w w'"
    using cases by cases (use Bootstrap_empty [OF st iv fresh run] cn ro1 iv in \<open>auto simp: safe_def\<close>)
  show "V w' = V w" if "username = [] \<or> dom (a_users (V w)) \<noteq> {}"
    using cases that by cases (use ro1 cnt in auto)
  show "\<exists>u phc now now'. u = new_user \<lparr>cp_Username = username, cp_DisplayName = username, cp_Role = RoleAdmin\<rparr> (u_ID u) now \<and>
         hash_of E (s_hasher s) password phc \<and> V w' = put_cred (u_ID u) phc True now' (put_user u (V w))"
    if "r = Inr ()" "username \<noteq> []" "dom (a_users (V w)) = {}"
    using cases that by cases (use Bootstrap_empty [OF st iv fresh run] cn in auto)
qed

section \<open>Listing sessions\<close>

lemma ListSessions_law:
  assumes st: "s_store s = S" and iv: "iv (db w)" and run: "ListSessions s userID current w = (Inr l, w')"
  shows "V w' = V w" "distinct (map si_ID l)"
    "si_ID ` set l = {i. \<exists>t. a_toks (V w) i = Some t \<and> t_UserID t = userID \<and> Active t (tm w)}"
    "si \<in> set l \<Longrightarrow> si_Current si \<longleftrightarrow> current = Some (si_ID si)"
    "sorted (map (\<lambda>x. - si_IssuedAt x) l)"
proof -
  obtain r1 w1 where ls: "st_ListUserSessions S userID w = (r1, w1)" by fastforce
  note law = ListUserSessions [OF iv ls]
  from run ls st obtain ts where ts: "r1 = Inr ts" "w' = w1" "l = map (\<lambda>t. \<lparr>si_ID = t_ID t, si_DeviceName = t_DeviceName t,
      si_IssuedAt = t_IssuedAt t, si_ExpiresAt = t_ExpiresAt t, si_Current = (current = Some (t_ID t))\<rparr>) ts"
    by (auto simp: ListSessions_def split: sum.splits)
  have mem: "set ts = {t \<in> ran (a_toks (V w)). t_UserID t = userID \<and> Active t (tm w)}" "distinct ts"
    "sorted (map (\<lambda>t. - t_IssuedAt t) ts)" using law ts(1) by auto
  have id: "a_toks (V w) i = Some t \<Longrightarrow> t_ID t = i" for i t using keyed_tok_ID [OF keyed [OF iv]] .
  then have "inj_on t_ID (set ts)" using mem(1) by (auto simp: inj_on_def ran_def)
  then show "distinct (map si_ID l)" using mem(2) ts(3) by (simp add: o_def distinct_map)
  show "V w' = V w" using law ts undisturbedD(2) by metis
  show "si_ID ` set l = {i. \<exists>t. a_toks (V w) i = Some t \<and> t_UserID t = userID \<and> Active t (tm w)}"
    using mem(1) id ts(3) by (auto simp: image_image ran_def image_iff)
  show "si \<in> set l \<Longrightarrow> si_Current si \<longleftrightarrow> current = Some (si_ID si)" using ts(3) by auto
  show "sorted (map (\<lambda>x. - si_IssuedAt x) l)" using mem(3) ts(3) by (simp add: o_def)
qed

lemma CurrentSessionID_law:
  assumes st: "s_store s = S" and iv: "iv (db w)" and run: "CurrentSessionID E s refreshToken w = (c, w')"
  shows "V w' = V w" "iv (db w')"
    "c = Some i \<Longrightarrow> \<exists>t. a_toks (V w) i = Some t \<and> t_TokenHash t = HashRefreshToken E refreshToken \<and> Active t (shd (clock w))"
proof -
  obtain r1 w1 where get: "st_GetRefreshTokenByHash S (HashRefreshToken E refreshToken) w = (r1, w1)" by fastforce
  note ro1 = read_onlyD [OF reads(6) [OF iv get]]
  show "V w' = V w" "iv (db w')" using run get st ro1 iv
    by (auto simp: CurrentSessionID_def time_now_def split: if_splits sum.splits)
  show "\<exists>t. a_toks (V w) i = Some t \<and> t_TokenHash t = HashRefreshToken E refreshToken \<and> Active t (shd (clock w))"
    if "c = Some i"
    using run get st ro1 that GetRefreshTokenByHash [OF iv get]
    by (auto simp: CurrentSessionID_def time_now_def split: if_splits sum.splits)
qed

end

end
