(* ===== verification/Service_Live.thy ===== *)
theory Service_Live
  imports Account_Laws
begin

text \<open>
  Progress: over a store that does not fail on its own (\<open>reliable_store\<close>, an extension of
  \<open>store_contract\<close>) the service methods do succeed when they should, and the best-effort
  revocations whose errors the code drops do take place.
\<close>

text \<open>The entropy source and the UUID generator do not fail; the issuer was built by its constructor.\<close>

definition supplied :: "'d world \<Rightarrow> bool" where
  "supplied w \<longleftrightarrow> None \<notin> sset (entropy w) \<and> None \<notin> sset (uuids w)"

definition built :: "'x ext_scheme \<Rightarrow> TokenIssuer \<Rightarrow> bool" where
  "built E t \<longleftrightarrow> (\<exists>seed d. NewTokenIssuer E seed d = Inr t)"

lemma supplied_sub:
  "supplied w \<Longrightarrow> sset (entropy w') \<subseteq> sset (entropy w) \<Longrightarrow> sset (uuids w') \<subseteq> sset (uuids w) \<Longrightarrow> supplied w'"
  by (auto simp: supplied_def)

lemma suppliedD: "supplied w \<Longrightarrow> (\<exists>f. shd (entropy w) = Some f) \<and> (\<exists>i. shd (uuids w) = Some i)"
  unfolding supplied_def by (metis option.exhaust shd_sset)

lemma Mint_succeeds:
  assumes "jwt_ok E" "built E t" "supplied w"
  shows "\<exists>tok. Mint E t u n rs now w = (Inr tok, w\<lparr>uuids := stl (uuids w)\<rparr>)"
proof -
  from assms(2) obtain seed d where "NewTokenIssuer E seed d = Inr t" by (auto simp: built_def)
  note iss = NewTokenIssuer_Inr [OF this]
  have "\<exists>tok. SignedString E (ti_private t) h c = Inr tok" for h c
    using assms(1) iss by (auto simp: jwt_ok_def)
  moreover from suppliedD [OF assms(3)] obtain j where "shd (uuids w) = Some j" by blast
  ultimately show ?thesis
    by (auto simp: Mint_def uuid_NewV7_def Let_def split: sum.splits) (metis sum.distinct(1))
qed

lemma granted_Verify:
  assumes "granted E s ts user device sess a a'" "jwt_ok E" "built E (s_tokens s)" "is_ascii (u_Role user)"
  shows "\<exists>row now. a_toks a' (ss_TokenID sess) = Some row \<and> t_IssuedAt row = ts now \<and>
    t_TokenHash row = HashRefreshToken E (ss_RefreshToken sess) \<and>
    (\<forall>w2 :: 'b world. shd (clock w2) < (now + ti_ttl (s_tokens s)) div Second * Second \<longrightarrow>
       (\<exists>c. fst (TokenIssuer_Verify E (s_tokens s) (ss_AccessToken sess) w2) = Inr c \<and>
          cl_Subject c = uuid_String E (u_ID user) \<and> cl_Roles c = [u_Role user]))"
proof -
  from assms(3) obtain seed d where iss: "NewTokenIssuer E seed d = Inr (s_tokens s)" by (auto simp: built_def)
  from assms(1) obtain now where
    row: "a' = put_tok (session_row E (s_refreshTTL s) ts user device now (ss_TokenID sess) (ss_RefreshToken sess)) a"
    and mint: "minted E (s_tokens s) (u_ID user) (u_Username user) [u_Role user] now (ss_AccessToken sess)"
    by (auto simp: granted_def)
  have "\<exists>c. fst (TokenIssuer_Verify E (s_tokens s) (ss_AccessToken sess) w2) = Inr c \<and>
      cl_Subject c = uuid_String E (u_ID user) \<and> cl_Roles c = [u_Role user]"
    if "shd (clock w2) < (now + ti_ttl (s_tokens s)) div Second * Second" for w2 :: "'b world"
    using minted_Verify [OF assms(2) iss mint that] assms(4) by fastforce
  with row show ?thesis by (auto simp: store_simps session_row_def)
qed

context reliable_store begin

text \<open>Reuse of a rotated token ends the whole chain.\<close>

lemma Refresh_reuse_kills:
  assumes st: "s_store s = S" and iv: "iv (db w)" and lk: "linked (V w)"
    and tok: "a_toks (V w) i = Some t" "t_TokenHash t = HashRefreshToken E refreshToken" "t_ReplacedBy t \<noteq> None"
    and run: "Refresh E s refreshToken w = (r, w')"
  shows "r = Inl ErrInvalidSession \<and> (\<exists>now. V w' = revoke_where (\<lambda>x. t_ID x \<in> chain (V w) i) now (V w)) \<and>
    logs w' = logs w @ [\<lparr>l_level = Warn, l_msg = ''refresh token reuse detected; chain revoked'',
      l_attrs = [(''event'', LogStr ''token_reuse''), (''user_id'', LogUUID (t_UserID t))]\<rparr>]"
proof -
  obtain r1 w1 where get: "st_GetRefreshTokenByHash S (HashRefreshToken E refreshToken) w = (r1, w1)" by fastforce
  note ro1 = read_onlyD [OF reads(6) [OF iv get]]
  have "r1 \<noteq> Inl e" for e
    using GetRefreshTokenByHash_total [OF iv] GetRefreshTokenByHash [OF iv get] get tok by blast
  then obtain tok' where r1: "r1 = Inr tok'" by (cases r1) auto
  then have t: "tok' = t" "t_ID t = i" using by_hash_token [OF iv _ tok(1,2)] get by auto
  define w2 where "w2 = w1\<lparr>clock := stl (clock w1)\<rparr>"
  obtain r3 w3 where ch: "st_RevokeRefreshTokenChain S i w2 = (r3, w3)" by fastforce
  have w2: "iv (db w2)" "V w2 = V w" "logs w2 = logs w" using ro1 by (simp_all add: w2_def)
  have ac: "acyclic (rotated (V w2))" using lk w2 by (simp add: linked_def)
  have r3: "r3 = Inr ()" using RevokeRefreshTokenChain_total [OF w2(1) ac _ ch] tok(1) w2(2) by auto
  have "\<not> Active t now" for now using tok(3) by (simp add: Active_def)
  with run get r1 t tok(3) ch r3 st have "r = Inl ErrInvalidSession" "w' = log_event Warn ''refresh token reuse detected; chain revoked''
           [(''event'', LogStr ''token_reuse''), (''user_id'', LogUUID (t_UserID t))] w3"
    by (auto simp: Refresh_def time_now_def w2_def ignore_err_def)
  with RevokeRefreshTokenChain [OF w2(1) ac ch] r3 w2 show ?thesis
    by (auto simp: wrote_def frame_def log_event_def)
qed

text \<open>Opening a session succeeds when entropy, ids and the signing key are there.\<close>

lemma openSession_succeeds:
  assumes st: "s_store s = S" and iv: "iv (db w)" and sup: "supplied w"
    and fresh: "fresh_draws fr E w (a_toks (V w))" "fresh_draws fresh_token_key E w (a_toks (V w))"
    and jwt: "jwt_ok E" "built E (s_tokens s)" and us: "u_ID user \<in> dom (a_users (V w))"
  shows "\<exists>sess w'. openSession E s user device w = (Inr sess, w')"
proof -
  from suppliedD [OF sup] obtain f i where fi: "shd (entropy w) = Some f" "shd (uuids w) = Some i" by auto
  define opaque where "opaque = b64_encode RawURLEncoding (map f [0..<32])"
  define w1 where "w1 = w\<lparr>entropy := stl (entropy w)\<rparr>"
  define now where "now = shd (clock w)"
  define w3 where "w3 = w1\<lparr>uuids := stl (uuids w), clock := stl (clock w)\<rparr>"
  have nrt: "NewRefreshToken E w = (Inr (opaque, HashRefreshToken E opaque), w1)"
    using fi by (simp add: NewRefreshToken_def rand_read_def Let_def opaque_def w1_def)
  define t where "t = \<lparr>t_ID = i, t_UserID = u_ID user, t_TokenHash = HashRefreshToken E opaque,
       t_DeviceName = (if device = [] then None else Some device), t_IssuedAt = now,
       t_ExpiresAt = now + s_refreshTTL s, t_RevokedAt = None, t_ReplacedBy = None\<rparr>"
  have key: "fr i (HashRefreshToken E opaque) (a_toks (V w))" "fresh_token_key i (HashRefreshToken E opaque) (a_toks (V w))"
    using fresh fi unfolding fresh_draws_def drawn_hash_def opaque_def by (metis shd_sset)+
  obtain r4 w4 where crt: "st_CreateRefreshToken S t w3 = (r4, w4)" by fastforce
  have "tok_fresh t (V w3)" "fr (t_ID t) (t_TokenHash t) (a_toks (V w3))"
    using key by (simp_all add: t_def w3_def w1_def tok_fresh_def fresh_token_key_def)
  with CreateRefreshToken_total [OF _ _ _ _ _ _ crt] iv us have r4: "r4 = Inr ()"
    by (simp add: t_def w3_def w1_def)
  have "frame iv w3 w4 \<and> uuids w4 = uuids w3"
    using CreateRefreshToken_opened(1,2) [of w3 i E opaque user device now "s_refreshTTL s" r4 w4] crt iv key
    by (simp add: t_def w3_def w1_def)
  then have "supplied w4"
    by (intro supplied_sub [OF sup]) (auto simp: frame_def w3_def w1_def dest: stl_sset)
  then obtain tok where "Mint E (s_tokens s) (u_ID user) (u_Username user) [u_Role user] now w4 =
      (Inr tok, w4\<lparr>uuids := stl (uuids w4)\<rparr>)" using Mint_succeeds [OF jwt] by blast
  with nrt fi r4 crt st show ?thesis
    by (auto simp: openSession_def uuid_NewV7_def time_now_def w3_def w1_def now_def t_def Let_def)
qed

text \<open>
  The rotation itself, once token and owner were read: it succeeds as long as the token has
  not been replaced, whether or not it was revoked in the meantime.
\<close>

lemma rotate_session_succeeds:
  assumes st: "s_store s = S" and iv: "iv (db w)" and sup: "supplied w"
    and fresh: "fresh_draws fr E w (a_toks (V w))" "fresh_draws fresh_token_key E w (a_toks (V w))"
    and jwt: "jwt_ok E" "built E (s_tokens s)"
    and tok: "a_toks (V w) (t_ID t) = Some t'" "t_ReplacedBy t' = None" and us: "u_ID user \<in> dom (a_users (V w))"
  shows "\<exists>sess w'. rotate_session E s t user w = (Inr sess, w')"
proof -
  obtain sess w4 where os: "openSession E s user (device_of t) w = (Inr sess, w4)"
    using openSession_succeeds [OF st iv sup fresh jwt us] by blast
  then have law: "iv (db w4)" "granted E s ts user (device_of t) sess (V w) (V w4)"
    using openSession_law [OF st iv fresh(1) os] by auto
  note op = opened_fields [OF granted_opened [OF law(2)]]
  have t4: "a_toks (V w4) (t_ID t) = Some t'" using op(3,5) tok(1) by (metis option.distinct(1))
  obtain r5 w5 where rep: "st_ReplaceRefreshToken S (t_ID t) (ss_TokenID sess) w4 = (r5, w5)" by fastforce
  have r5: "r5 = Inr ()" using ReplaceRefreshToken_total [OF law(1) t4 tok(2) _ rep] op(4) by auto
  have iv5: "iv (db w5)" using ReplaceRefreshToken [OF law(1) rep] by (auto simp: frame_def)
  obtain r6 w6 where gc: "st_GetCredential S (u_ID user) w5 = (r6, w6)" by fastforce
  note ro6 = read_onlyD [OF reads(5) [OF iv5 gc]]
  show ?thesis using os rep r5 gc st ro6(7) by (cases r6) (auto simp: rotate_session_def)
qed

lemma Refresh_succeeds:
  assumes st: "s_store s = S" and iv: "iv (db w)" and sup: "supplied w"
    and fresh: "fresh_draws fr E w (a_toks (V w))" "fresh_draws fresh_token_key E w (a_toks (V w))"
    and jwt: "jwt_ok E" "built E (s_tokens s)"
    and tok: "a_toks (V w) i = Some t" "t_TokenHash t = HashRefreshToken E refreshToken" "Active t (shd (clock w))"
    and us: "a_users (V w) (t_UserID t) = Some user" "u_Status user = StatusActive"
  shows "\<exists>sess w'. Refresh E s refreshToken w = (Inr sess, w')"
proof -
  obtain r1 w1 where get: "st_GetRefreshTokenByHash S (HashRefreshToken E refreshToken) w = (r1, w1)" by fastforce
  note ro1 = read_onlyD [OF reads(6) [OF iv get]]
  have "r1 \<noteq> Inl e" for e
    using GetRefreshTokenByHash_total [OF iv] GetRefreshTokenByHash [OF iv get] get tok by blast
  then obtain tok' where "r1 = Inr tok'" by (cases r1) auto
  then have r1: "r1 = Inr t" "t_ID t = i" using by_hash_token [OF iv _ tok(1,2)] get by auto
  define w2 where "w2 = w1\<lparr>clock := stl (clock w1)\<rparr>"
  have w2: "iv (db w2)" "V w2 = V w" "entropy w2 = entropy w" "uuids w2 = uuids w" using ro1 by (simp_all add: w2_def)
  obtain r3 w3 where gu: "st_GetUser S (t_UserID t) w2 = (r3, w3)" by fastforce
  note ro3 = read_onlyD [OF reads(1) [OF w2(1) gu]]
  have "r3 = Inr user"
    using GetUser [OF w2(1) gu] GetUser_total [OF w2(1)] gu us(1) w2(2) by (cases r3) auto
  have w3: "iv (db w3)" "V w3 = V w" "entropy w3 = entropy w" "uuids w3 = uuids w" using ro3 w2 by simp_all
  have uid: "u_ID user = t_UserID t" using keyed_user_ID [OF keyed [OF iv] us(1)] .
  have fr3: "fresh_draws fr E w3 (a_toks (V w3))" "fresh_draws fresh_token_key E w3 (a_toks (V w3))"
    using fresh w3 by (simp_all add: fresh_draws_def)
  have "supplied w3" "u_ID user \<in> dom (a_users (V w3))" using sup w3 us(1) uid by (auto simp: supplied_def)
  then obtain sess w4 where "rotate_session E s t user w3 = (Inr sess, w4)"
    using rotate_session_succeeds [OF st w3(1) _ fr3 jwt, of t t user] tok(1,3) r1(2) w3(2) by (auto simp: Active_def)
  then show ?thesis
    using get r1 tok(3) gu \<open>r3 = Inr user\<close> us(2) st ro1(8) by (auto simp: Refresh_def time_now_def w2_def)
qed

lemma rehash_total:
  assumes st: "s_store s = S" and iv: "iv (db w)" and us: "i \<in> dom (a_users (V w))"
    and ok: "argon2_ok E" "sane_hasher (s_hasher s)"
  shows "\<exists>w'. rehash E s i pw mc w = (Inr (), w')"
proof -
  obtain r1 w1 where hs: "Hash E (s_hasher s) pw w = (r1, w1)" by fastforce
  have w1: "w1 = w\<lparr>entropy := stl (entropy w)\<rparr>" using hs by (rule Hash_frame)
  show ?thesis
  proof (cases r1)
    case (Inl e)
    have "\<not> abrupt e"
    proof (cases "shd (entropy w)")
      case None
      with hs Inl show ?thesis by (auto simp: Hash_def rand_read_def)
    next
      case (Some f)
      with Hash_succeeds [OF ok, of w pw] hs Inl show ?thesis by auto
    qed
    with hs Inl show ?thesis by (auto simp: rehash_def)
  next
    case (Inr phc)
    obtain r2 w2 where sc: "st_SetCredential S i phc mc w1 = (r2, w2)" by fastforce
    have "r2 = Inr ()" using SetCredential_total [OF _ _ sc] iv us w1 by simp
    with hs Inr sc st show ?thesis by (auto simp: rehash_def ignore_err_def)
  qed
qed

text \<open>The right password of an active account opens a session.\<close>

lemma Login_succeeds:
  assumes st: "s_store s = S" and iv: "iv (db w)" and sup: "supplied w"
    and fresh: "fresh_draws fr E w (a_toks (V w))" "fresh_draws fresh_token_key E w (a_toks (V w))"
    and jwt: "jwt_ok E" "built E (s_tokens s)" and ok: "argon2_ok E" "sane_hasher (s_hasher s)"
    and us: "a_users (V w) i = Some user" "ci (u_Username user) = ci username" "u_Status user = StatusActive"
    and cr: "a_creds (V w) i = Some cred" "Verify E (s_hasher s) password (c_PasswordHash cred) = Inr b"
  shows "\<exists>sess w'. Login E s username password device w = (Inr sess, w')"
proof -
  obtain r1 w1 where gu: "st_GetUserByUsername S username w = (r1, w1)" by fastforce
  note ro1 = read_onlyD [OF reads(2) [OF iv gu]]
  have uid: "u_ID user = i" using keyed_user_ID [OF keyed [OF iv] us(1)] .
  have uq: "u' = user" if "a_users (V w) (u_ID u') = Some u'" "ci (u_Username u') = ci username" for u'
    using keyed [OF iv] that us(1,2) unfolding keyed_def users_keyed_def by (metis option.inject)
  have r1: "r1 = Inr user"
    using GetUserByUsername [OF iv gu] GetUserByUsername_total [OF iv] gu us(1,2) uq
    by (cases r1) (auto simp: name_free_def)
  obtain r2 w2 where gc: "st_GetCredential S i w1 = (r2, w2)" by fastforce
  note ro2 = read_onlyD [OF reads(5) [OF ro1(1) gc]]
  have r2: "r2 = Inr cred"
    using GetCredential [OF ro1(1) gc] GetCredential_total [OF ro1(1)] gc cr(1) ro1(2) by (cases r2) auto
  have w2: "iv (db w2)" "V w2 = V w" "entropy w2 = entropy w" "uuids w2 = uuids w" using ro1 ro2 by simp_all
  have dom: "i \<in> dom (a_users (V w2))" using us(1) w2 by auto
  obtain w3 where re: "(if b then rehash E s i password (c_MustChange cred) w2 else (Inr (), w2)) = (Inr (), w3)"
    using rehash_total [OF st w2(1) dom ok] by fastforce
  have w3: "iv (db w3)" "uuids w3 = uuids w" "sset (entropy w3) \<subseteq> sset (entropy w)"
    "a_toks (V w3) = a_toks (V w)" "a_users (V w3) = a_users (V w)"
    using rehash_law [OF st w2(1), of E i password "c_MustChange cred" "Inr ()" w3] re w2
    by (auto split: if_splits simp: store_simps)
  have "supplied w3" "fresh_draws fr E w3 (a_toks (V w3))" "fresh_draws fresh_token_key E w3 (a_toks (V w3))"
    using supplied_sub [OF sup, of w3] fresh w3 fresh_draws_stl [of _ E w _ w3] by auto
  then obtain sess w4 where "openSession E s user device w3 = (Inr sess, w4)"
    using openSession_succeeds [OF st w3(1) _ _ _ jwt] us(1) uid w3(5) by (metis domI)
  with gu r1 gc r2 cr(2) us(3) re uid st show ?thesis by (auto simp: Login_def admit_def)
qed

end

end
