(* ===== verification/Account_Live.thy ===== *)
theory Account_Live
  imports Service_Live
begin

text \<open>
  Progress of the account operations: over a store that does not fail on its own, logout,
  password changes and resets, account creation, updates and the bootstrap succeed whenever
  their own guards let them.
\<close>

context reliable_store begin

lemma Logout_succeeds:
  assumes "s_store s = S" "iv (db w)"
  shows "\<exists>w'. Logout E s refreshToken w = (Inr (), w')"
proof -
  obtain r1 w1 where get: "st_GetRefreshTokenByHash S (HashRefreshToken E refreshToken) w = (r1, w1)" by fastforce
  note ro1 = read_onlyD [OF reads(6) [OF assms(2) get]]
  show ?thesis
  proof (cases r1)
    case (Inl e)
    then have "e = ErrNotFound" using GetRefreshTokenByHash_total [OF assms(2)] get by blast
    with Inl get assms show ?thesis by (simp add: Logout_def)
  next
    case (Inr tok)
    obtain r2 w2 where rv: "st_RevokeRefreshToken S (t_ID tok) w1 = (r2, w2)" by fastforce
    have "r2 = Inl e \<Longrightarrow> e = ErrNotFound" for e using RevokeRefreshToken_total [OF ro1(1)] rv by blast
    with Inr get rv assms show ?thesis by (cases r2) (auto simp: Logout_def)
  qed
qed

lemma Hash_goes:
  assumes "supplied w" "argon2_ok E" "sane_hasher h"
  shows "\<exists>phc. Hash E h pw w = (Inr phc, w\<lparr>entropy := stl (entropy w)\<rparr>)"
  using Hash_succeeds [OF assms(2,3)] suppliedD [OF assms(1)] by fastforce

lemma setTempPassword_succeeds:
  assumes "s_store s = S" "iv (db w)" "supplied w" "argon2_ok E" "sane_hasher (s_hasher s)" "i \<in> dom (a_users (V w))"
  shows "\<exists>temp w'. setTempPassword E s i w = (Inr temp, w') \<and> uuids w' = uuids w \<and> sset (entropy w') \<subseteq> sset (entropy w)"
proof -
  from suppliedD [OF assms(3)] obtain f where f: "shd (entropy w) = Some f" by auto
  define w1 where "w1 = w\<lparr>entropy := stl (entropy w)\<rparr>"
  obtain temp where tp: "temporaryPassword w = (Inr temp, w1)"
    using f by (simp add: temporaryPassword_def rand_read_def w1_def)
  have "supplied w1" by (rule supplied_sub [OF assms(3)]) (auto simp: w1_def dest: stl_sset)
  then obtain phc where hs: "Hash E (s_hasher s) temp w1 = (Inr phc, w1\<lparr>entropy := stl (entropy w1)\<rparr>)"
    using Hash_goes assms(4,5) by blast
  obtain r3 w3 where sc: "st_SetCredential S i phc True (w1\<lparr>entropy := stl (entropy w1)\<rparr>) = (r3, w3)" by fastforce
  have "r3 = Inr ()" using SetCredential_total [OF _ _ sc] assms(2,6) by (simp add: w1_def)
  moreover have "uuids w3 = uuids w" "entropy w3 = stl (stl (entropy w))"
    using SetCredential [OF _ sc] assms(2) by (simp_all add: w1_def frame_def)
  moreover have "sset (stl (stl (entropy w))) \<subseteq> sset (entropy w)" by (auto dest!: stl_sset)
  ultimately show ?thesis using tp hs sc assms(1) by (simp add: setTempPassword_def)
qed

lemma ResetPassword_succeeds:
  assumes "s_store s = S" "iv (db w)" "supplied w" "argon2_ok E" "sane_hasher (s_hasher s)" "i \<in> dom (a_users (V w))"
  shows "\<exists>temp w'. ResetPassword E s i w = (Inr temp, w')"
proof -
  obtain r1 w1 where gu: "st_GetUser S i w = (r1, w1)" by fastforce
  note ro1 = read_onlyD [OF reads(1) [OF assms(2) gu]]
  obtain u where r1: "r1 = Inr u"
    using GetUser [OF assms(2) gu] GetUser_total [OF assms(2)] gu assms(6) by (cases r1) auto
  have "supplied w1" using assms(3) ro1 by (simp add: supplied_def)
  then obtain temp w2 where tp: "setTempPassword E s i w1 = (Inr temp, w2)"
    using setTempPassword_succeeds [OF assms(1) ro1(1)] assms(4-6) ro1(2) by fastforce
  have "iv (db w2)" using setTempPassword_law [OF assms(1) ro1(1) _ tp] assms(6) ro1(2) by (simp add: safe_def)
  obtain r3 w3 where rv: "st_RevokeUserRefreshTokens S i None w2 = (r3, w3)" by fastforce
  have "r3 = Inr ()" using RevokeUserRefreshTokens_total [OF \<open>iv (db w2)\<close> rv] .
  with gu r1 tp rv assms(1) show ?thesis by (simp add: ResetPassword_def)
qed

lemma ChangePassword_succeeds:
  assumes "s_store s = S" "iv (db w)" "linked (V w)" "supplied w" "argon2_ok E" "sane_hasher (s_hasher s)"
    and "a_creds (V w) i = Some cred" "Verify E (s_hasher s) current (c_PasswordHash cred) = Inr b"
  shows "\<exists>w'. ChangePassword E s i current newPassword keep w = (Inr (), w')"
proof -
  obtain r1 w1 where gc: "st_GetCredential S i w = (r1, w1)" by fastforce
  note ro1 = read_onlyD [OF reads(5) [OF assms(2) gc]]
  have r1: "r1 = Inr cred"
    using GetCredential [OF assms(2) gc] GetCredential_total [OF assms(2)] gc assms(7) by (cases r1) auto
  define w2 where "w2 = w1\<lparr>entropy := stl (entropy w1)\<rparr>"
  have "supplied w1" using assms(4) ro1 by (simp add: supplied_def)
  then obtain phc where hs: "Hash E (s_hasher s) newPassword w1 = (Inr phc, w2)"
    using Hash_goes assms(5,6) unfolding w2_def by blast
  have dom: "i \<in> dom (a_users (V w2))" using linked_cred_user [OF assms(3,7)] ro1(2) by (simp add: w2_def)
  have iv2: "iv (db w2)" using ro1 by (simp add: w2_def)
  obtain r3 w3 where sc: "st_SetCredential S i phc False w2 = (r3, w3)" by fastforce
  have r3: "r3 = Inr ()" using SetCredential_total [OF iv2 dom sc] .
  obtain r4 w4 where rv: "st_RevokeUserRefreshTokens S i keep w3 = (r4, w4)" by fastforce
  have "r4 = Inr ()" using RevokeUserRefreshTokens_total [OF SetCredential_effect(1) [OF iv2 sc] rv] .
  with gc r1 hs sc r3 rv assms(1,8) show ?thesis by (simp add: ChangePassword_def)
qed

lemma UpdateUser_succeeds:
  assumes "s_store s = S" "iv (db w)" "sp_ID p \<in> dom (a_users (V w))"
    and "set_option (sp_Role p) \<subseteq> {RoleAdmin, RoleMember}" "set_option (sp_Status p) \<subseteq> {StatusActive, StatusDisabled}"
  shows "\<exists>u w'. Service_UpdateUser s p w = (Inr u, w')"
proof -
  let ?up = "\<lparr>up_ID = sp_ID p, up_DisplayName = sp_DisplayName p, up_Email = None, up_Role = sp_Role p, up_Status = sp_Status p\<rparr>"
  obtain r1 w1 where up: "st_UpdateUser S ?up w = (r1, w1)" by fastforce
  obtain u where r1: "r1 = Inr u" using UpdateUser_total [OF assms(2) _ _ _ up] assms(3-5) by (cases r1) auto
  obtain r2 w2 where rv: "st_RevokeUserRefreshTokens S (sp_ID p) None w1 = (r2, w2)" by fastforce
  have "r2 = Inr ()" using RevokeUserRefreshTokens_total [OF UpdateUser_effect(1) [OF assms(2) up] rv] .
  with up r1 rv assms(1) show ?thesis by (simp add: Service_UpdateUser_def)
qed

lemma CreateUser_succeeds:
  assumes "s_store s = S" "iv (db w)" "supplied w" "argon2_ok E" "sane_hasher (s_hasher s)"
    and id: "shd (uuids w) = Some i" "fu i (a_users (V w))" "a_users (V w) i = None"
    and "name_free ci username (V w)" "role \<in> {RoleAdmin, RoleMember}"
  shows "\<exists>u temp w'. Service_CreateUser E s username displayName role w = (Inr (u, temp), w') \<and>
    sset (entropy w') \<subseteq> sset (entropy w) \<and> sset (uuids w') \<subseteq> sset (uuids w)"
proof -
  let ?p = "\<lparr>cp_Username = username, cp_DisplayName = displayName, cp_Role = role\<rparr>"
  obtain r1 w1 where cu: "st_CreateUser S ?p w = (r1, w1)" by fastforce
  have fresh: "\<And>j. shd (uuids w) = Some j \<Longrightarrow> fu j (a_users (V w))" using id by simp
  obtain u where r1: "r1 = Inr u"
    using CreateUser_total [OF assms(2) id _ _ cu] assms(9,10) by (cases r1) auto
  have law: "frame iv w w1" "uuids w1 = uuids w \<or> uuids w1 = stl (uuids w)" using CreateUser [OF assms(2) fresh cu] by auto
  then have sup1: "supplied w1" by (intro supplied_sub [OF assms(3)]) (auto simp: frame_def dest: stl_sset)
  have "V w1 = put_user u (V w)" using CreateUser_effect(3) [OF assms(2) fresh cu r1] by auto
  then have dom: "u_ID u \<in> dom (a_users (V w1))" by (simp add: store_simps)
  have iv1: "iv (db w1)" using law by (simp add: frame_def)
  obtain temp w2 where tp: "setTempPassword E s (u_ID u) w1 = (Inr temp, w2)"
      and w2: "uuids w2 = uuids w1" "sset (entropy w2) \<subseteq> sset (entropy w1)"
    using setTempPassword_succeeds [OF assms(1) iv1 sup1 assms(4,5) dom] by blast
  have "sset (entropy w2) \<subseteq> sset (entropy w) \<and> sset (uuids w2) \<subseteq> sset (uuids w)"
    using w2 law by (auto simp: frame_def dest: stl_sset)
  with cu r1 tp assms(1) show ?thesis by (simp add: Service_CreateUser_def)
qed

text \<open>An account whose password was just set logs in with it and is told to change it.\<close>

lemma new_account_logs_in:
  assumes st: "s_store s = S" and iv: "iv (db w)" and sup: "supplied w"
    and fresh: "fresh_draws fr E w (a_toks (V w))" "fresh_draws fresh_token_key E w (a_toks (V w))"
    and jwt: "jwt_ok E" "built E (s_tokens s)" and ok: "argon2_ok E" "sane_hasher (s_hasher s)"
    and u: "u_Username u = username" "u_Status u = StatusActive" "hash_of E (s_hasher s) pw phc"
      "V w = put_cred (u_ID u) phc True now (put_user u a)"
  shows "\<exists>sess w'. Login E s username pw device w = (Inr sess, w') \<and> ss_User sess = u \<and> ss_MustChange sess"
proof -
  have me: "a_users (V w) (u_ID u) = Some u" by (simp add: u(4) store_simps)
  obtain cred where cred: "a_creds (V w) (u_ID u) = Some cred" "c_PasswordHash cred = phc" "c_MustChange cred"
    by (simp add: u(4) store_simps put_cred_def)
  have ver: "Verify E (s_hasher s) pw (c_PasswordHash cred) = Inr False"
    using hash_of_Verify [OF ok u(3), of "s_hasher s"] cred(2) by simp
  obtain sess w' where lg: "Login E s username pw device w = (Inr sess, w')"
    using Login_succeeds [OF st iv sup fresh jwt ok me _ u(2) cred(1) ver] u(1) by blast
  obtain user c where who: "a_users (V w) (u_ID user) = Some user" "ci (u_Username user) = ci username"
      "a_creds (V w) (u_ID user) = Some c" "ss_User sess = user" "ss_MustChange sess = c_MustChange c"
    using Login_ok [OF st iv fresh(1) lg] by blast
  have same: "u_ID user = u_ID u" using keyed_username_unique [OF keyed [OF iv] who(1) me] who(2) u(1) by simp
  have "ss_User sess = u" using who(1,4) me unfolding same by simp
  moreover have "ss_MustChange sess" using who(3,5) cred(1,3) unfolding same by simp
  ultimately show ?thesis using lg by blast
qed

text \<open>
  The life of a new account: it is created with a temporary password, logs in with it, and is
  told to change it.
\<close>

lemma created_logs_in:
  assumes st: "s_store s = S" and iv: "iv (db w)" and sup: "supplied w"
    and fresh: "fresh_draws fr E w (a_toks (V w))" "fresh_draws fresh_token_key E w (a_toks (V w))"
    and jwt: "jwt_ok E" "built E (s_tokens s)" and ok: "argon2_ok E" "sane_hasher (s_hasher s)"
    and id: "\<And>i. shd (uuids w) = Some i \<Longrightarrow> fu i (a_users (V w)) \<and> a_users (V w) i = None"
    and free: "name_free ci username (V w)" "role \<in> {RoleAdmin, RoleMember}"
  shows "\<exists>u temp w1 sess w2. Service_CreateUser E s username displayName role w = (Inr (u, temp), w1) \<and>
    Login E s username temp device w1 = (Inr sess, w2) \<and> ss_User sess = u \<and> ss_MustChange sess \<and> u_Role u = role"
proof -
  from suppliedD [OF sup] obtain i where i: "shd (uuids w) = Some i" by blast
  obtain u temp w1 where cu: "Service_CreateUser E s username displayName role w = (Inr (u, temp), w1)"
      and w1: "sset (entropy w1) \<subseteq> sset (entropy w)" "sset (uuids w1) \<subseteq> sset (uuids w)"
    using CreateUser_succeeds [OF st iv sup ok i _ _ free] id [OF i] by blast
  have fu: "\<And>i. shd (uuids w) = Some i \<Longrightarrow> fu i (a_users (V w))" using id by blast
  note iv1 = safe_iv [OF Service_CreateUser_law(1) [OF st iv fu cu]]
  from Service_CreateUser_law(2) [OF st iv fu cu refl] obtain phc now where role: "u_Role u = role"
    and u: "u_Username u = username" "u_Status u = StatusActive" "hash_of E (s_hasher s) temp phc"
      "V w1 = put_cred (u_ID u) phc True now (put_user u (V w))" by blast
  have toks: "a_toks (V w1) = a_toks (V w)" by (simp add: u(4) store_simps)
  have fr1: "fresh_draws fr E w1 (a_toks (V w1))" "fresh_draws fresh_token_key E w1 (a_toks (V w1))"
    using fresh_draws_stl [OF _ w1] fresh by (simp_all add: toks)
  from new_account_logs_in [OF st iv1 supplied_sub [OF sup w1] fr1 jwt ok u] cu role show ?thesis by blast
qed

text \<open>The bootstrap of an empty store.\<close>

lemma Bootstrap_succeeds:
  assumes st: "s_store s = S" and iv: "iv (db w)" and sup: "supplied w" and ok: "argon2_ok E" "sane_hasher (s_hasher s)"
    and id: "\<And>i. shd (uuids w) = Some i \<Longrightarrow> fu i (a_users (V w))"
    and empty: "a_users (V w) = Map.empty" "username \<noteq> []" "password \<noteq> []"
  shows "\<exists>w'. Bootstrap E s username password w = (Inr (), w') \<and>
    sset (entropy w') \<subseteq> sset (entropy w) \<and> sset (uuids w') \<subseteq> sset (uuids w)"
proof -
  let ?p = "\<lparr>cp_Username = username, cp_DisplayName = username, cp_Role = RoleAdmin\<rparr>"
  obtain r1 w1 where cn: "st_CountUsers S w = (r1, w1)" by fastforce
  note ro1 = read_onlyD [OF reads(4) [OF iv cn]]
  have r1: "r1 = Inr 0" using CountUsers_total [OF iv cn] CountUsers [OF iv cn] empty(1) by (cases r1) auto
  from suppliedD [OF sup] obtain i where i: "shd (uuids w1) = Some i" using ro1 by auto
  have fresh: "\<And>j. shd (uuids w1) = Some j \<Longrightarrow> fu j (a_users (V w1))" using id ro1 by simp
  obtain r2 w2 where cu: "st_CreateUser S ?p w1 = (r2, w2)" by fastforce
  have "name_free ci username (V w1)" using empty(1) ro1 by (simp add: name_free_def)
  then obtain u where r2: "r2 = Inr u"
    using CreateUser_total [OF ro1(1) i fresh [OF i] _ _ _ cu] empty(1) ro1 by (cases r2) auto
  have law: "frame iv w1 w2" "uuids w2 = uuids w1 \<or> uuids w2 = stl (uuids w1)" using CreateUser [OF ro1(1) fresh cu] by auto
  have sub: "sset (entropy w2) \<subseteq> sset (entropy w)" "sset (uuids w2) \<subseteq> sset (uuids w)"
    using law ro1 by (auto simp: frame_def dest: stl_sset)
  obtain phc where hs: "Hash E (s_hasher s) password w2 = (Inr phc, w2\<lparr>entropy := stl (entropy w2)\<rparr>)"
    using Hash_goes [OF supplied_sub [OF sup sub] ok] by blast
  obtain r3 w3 where sc: "st_SetCredential S (u_ID u) phc True (w2\<lparr>entropy := stl (entropy w2)\<rparr>) = (r3, w3)" by fastforce
  have "V w2 = put_user u (V w1)" using CreateUser_effect(3) [OF ro1(1) fresh cu r2] by auto
  then have r3: "r3 = Inr ()" using SetCredential_total [OF _ _ sc] law by (simp add: frame_def store_simps)
  have "uuids w3 = uuids w2" "entropy w3 = stl (entropy w2)"
    using SetCredential [OF _ sc] law by (simp_all add: frame_def)
  with sub cn r1 cu r2 hs sc r3 empty(2,3) st show ?thesis by (auto simp: Bootstrap_def dest: stl_sset)
qed

end

end
