(* ===== verification/Requests.thy ===== *)
theory Requests
  imports Account_Live
begin

text \<open>
  The service as a whole: a request is one call of a method of \<^verbatim>\<open>service.Service\<close>, a history
  is a sequence of requests, in any order and with any arguments. Over a store that keeps
  \<open>store_contract\<close> every history keeps the tables linked, never revives a token and never
  moves one to another user, whatever fails on the way.
\<close>

datatype request =
    QBootstrap string string
  | QLogin string string string
  | QRefresh string
  | QLogout string
  | QGetUser uuid
  | QListUsers
  | QUpdateProfile uuid string
  | QUpdateUser ServiceUpdateUserParams
  | QChangePassword uuid string string "uuid option"
  | QCreateUser string string string
  | QResetPassword uuid
  | QCurrentSession string
  | QListSessions uuid "uuid option"
  | QRevokeSession uuid uuid

fun serve :: "'x ext_scheme \<Rightarrow> 'd Service \<Rightarrow> request \<Rightarrow> 'd world \<Rightarrow> 'd world" where
  "serve E s (QBootstrap u p) w = snd (Bootstrap E s u p w)"
| "serve E s (QLogin u p d) w = snd (Login E s u p d w)"
| "serve E s (QRefresh t) w = snd (Refresh E s t w)"
| "serve E s (QLogout t) w = snd (Logout E s t w)"
| "serve E s (QGetUser i) w = snd (Service_GetUser s i w)"
| "serve E s QListUsers w = snd (Service_ListUsers s w)"
| "serve E s (QUpdateProfile i d) w = snd (UpdateProfile s i d w)"
| "serve E s (QUpdateUser p) w = snd (Service_UpdateUser s p w)"
| "serve E s (QChangePassword i c n k) w = snd (ChangePassword E s i c n k w)"
| "serve E s (QCreateUser u d r) w = snd (Service_CreateUser E s u d r w)"
| "serve E s (QResetPassword i) w = snd (ResetPassword E s i w)"
| "serve E s (QCurrentSession t) w = snd (CurrentSessionID E s t w)"
| "serve E s (QListSessions i c) w = snd (ListSessions s i c w)"
| "serve E s (QRevokeSession i k) w = snd (RevokeSession s i k w)"

fun serve_all :: "'x ext_scheme \<Rightarrow> 'd Service \<Rightarrow> request list \<Rightarrow> 'd world \<Rightarrow> 'd world" where
  "serve_all E s [] w = w"
| "serve_all E s (q # qs) w = serve_all E s qs (serve E s q w)"

text \<open>
  The random choices of a history do not collide with what is stored when they are made; the
  predicates \<open>fu\<close> and \<open>fr\<close> say what the store at hand needs of this.
\<close>

fun draws_ok :: "(uuid \<Rightarrow> (uuid \<rightharpoonup> User) \<Rightarrow> bool) \<Rightarrow> (uuid \<Rightarrow> bytes \<Rightarrow> (uuid \<rightharpoonup> RefreshToken) \<Rightarrow> bool) \<Rightarrow>
    ('d \<Rightarrow> astore) \<Rightarrow> 'x ext_scheme \<Rightarrow> 'd Service \<Rightarrow> request list \<Rightarrow> 'd world \<Rightarrow> bool" where
  "draws_ok fu fr view E s [] w = True"
| "draws_ok fu fr view E s (q # qs) w \<longleftrightarrow>
     (\<forall>i. shd (uuids w) = Some i \<longrightarrow> fu i (a_users (view (db w)))) \<and>
     fresh_draws fr E w (a_toks (view (db w))) \<and> draws_ok fu fr view E s qs (serve E s q w)"

lemma draws_ok_True: "draws_ok (\<lambda>_ _. True) (\<lambda>_ _ _. True) view E s qs w"
  by (induction qs arbitrary: w) (auto simp: fresh_draws_def)

context store_contract begin

lemma reads_service_safe:
  assumes "s_store s = S" "iv (db w)"
  shows "safe view iv w (snd (Service_GetUser s i w))" "safe view iv w (snd (Service_ListUsers s w))"
    "safe view iv w (snd (CurrentSessionID E s t w))" "safe view iv w (snd (ListSessions s i c w))"
proof -
  show "safe view iv w (snd (Service_GetUser s i w))"
    using read_onlyD(6) [OF reads(1) [OF assms(2) surjective_pairing]] assms(1) by (simp add: Service_GetUser_def)
  show "safe view iv w (snd (Service_ListUsers s w))"
    using read_onlyD(6) [OF reads(3) [OF assms(2) surjective_pairing]] assms(1) by (simp add: Service_ListUsers_def)
  show "safe view iv w (snd (CurrentSessionID E s t w))"
    using CurrentSessionID_law(1,2) [OF assms surjective_pairing, of E t] by (simp add: safe_def)
  obtain r1 w1 where ls: "st_ListUserSessions S i w = (r1, w1)" by fastforce
  have "snd (ListSessions s i c w) = w1" using ls assms(1) by (auto simp: ListSessions_def split: sum.splits)
  then show "safe view iv w (snd (ListSessions s i c w))"
    using ListUserSessions [OF assms(2) ls] undisturbedD(6) by metis
qed

lemma serve_safe:
  assumes "s_store s = S" "iv (db w)" "linked (V w)"
    and "\<And>i. shd (uuids w) = Some i \<Longrightarrow> fu i (a_users (V w))" "fresh_draws fr E w (a_toks (V w))"
  shows "safe view iv w (serve E s q w)"
proof (cases q)
  case (QBootstrap u p)
  then show ?thesis using Bootstrap_law(1) [OF assms(1,2,4) surjective_pairing] by simp
next
  case (QLogin u p d)
  then show ?thesis using Login_safe [OF assms(1,2,5) surjective_pairing] by simp
next
  case (QRefresh t)
  then show ?thesis using Refresh_safe [OF assms(1,2,3,5) surjective_pairing] by simp
next
  case (QLogout t)
  then show ?thesis using Logout_safe [OF assms(1,2) surjective_pairing] by simp
next
  case (QUpdateProfile i d)
  then show ?thesis using UpdateProfile_law(1) [OF assms(1,2) surjective_pairing] by simp
next
  case (QUpdateUser p)
  then show ?thesis using Service_UpdateUser_law(1) [OF assms(1,2) surjective_pairing] by simp
next
  case (QChangePassword i c n k)
  then show ?thesis using ChangePassword_safe [OF assms(1,2,3) surjective_pairing] by simp
next
  case (QCreateUser u d r)
  then show ?thesis using Service_CreateUser_law(1) [OF assms(1,2,4) surjective_pairing] by simp
next
  case (QResetPassword i)
  then show ?thesis using ResetPassword_law(1) [OF assms(1,2) surjective_pairing] by simp
next
  case (QRevokeSession i k)
  then show ?thesis using RevokeSession_law(1) [OF assms(1,2) surjective_pairing] by simp
qed (simp_all add: reads_service_safe [OF assms(1,2)])

lemma history_safe:
  assumes "s_store s = S" "iv (db w)" "linked (V w)" "draws_ok fu fr view E s qs w"
  shows "safe view iv w (serve_all E s qs w) \<and> linked (V (serve_all E s qs w))"
  using assms(2-)
proof (induction qs arbitrary: w)
  case Nil
  then show ?case by (simp add: safe_refl)
next
  case (Cons q qs)
  then have 1: "safe view iv w (serve E s q w)" by (intro serve_safe [OF assms(1)]) auto
  then have "safe view iv (serve E s q w) (serve_all E s qs (serve E s q w)) \<and>
      linked (V (serve_all E s qs (serve E s q w)))"
    using Cons by (intro Cons.IH safe_iv [OF 1] safe_linked [OF 1]) auto
  with safe_trans [OF 1] show ?case by simp
qed

text \<open>What a history cannot do, whatever requests it holds.\<close>

lemma history_dead:
  assumes "s_store s = S" "iv (db w)" "linked (V w)" "draws_ok fu fr view E s qs w" "dead (V w) i"
  shows "dead (V (serve_all E s qs w)) i"
  using history_safe [OF assms(1-4)] assms(5) by (auto simp: safe_def intro: arun_dead)

lemma history_token:
  assumes "s_store s = S" "iv (db w)" "linked (V w)" "draws_ok fu fr view E s qs w" "a_toks (V w) i = Some t"
  shows "\<exists>t'. a_toks (V (serve_all E s qs w)) i = Some t' \<and> t_UserID t' = t_UserID t \<and>
    t_TokenHash t' = t_TokenHash t \<and> t_ExpiresAt t' = t_ExpiresAt t"
  using history_safe [OF assms(1-4)] arun_token [OF _ assms(5)] by (fastforce simp: safe_def)

section \<open>Sessions that are over stay over\<close>

lemma Refresh_dead:
  assumes st: "s_store s = S" and iv: "iv (db w)" and dead: "dead (V w) i"
    and tok: "a_toks (V w) i = Some t" "t_TokenHash t = HashRefreshToken E refreshToken"
  shows "isl (fst (Refresh E s refreshToken w))"
proof -
  obtain r w' where run: "Refresh E s refreshToken w = (r, w')" by fastforce
  have "isl r"
    using st iv run
  proof (cases rule: Refresh_cases)
    case (rotate tk user w3)
    then have "t_ID tk = i" using keyed_hash_unique [OF keyed [OF iv]] tok by metis
    with rotate dead_not_Active [OF dead] show ?thesis by metis
  qed auto
  with run show ?thesis by simp
qed

lemma history_refused:
  assumes "s_store s = S" "iv (db w)" "linked (V w)" "draws_ok fu fr view E s qs w" "dead (V w) i"
    and "a_toks (V w) i = Some t" "t_TokenHash t = HashRefreshToken E refreshToken"
  shows "isl (fst (Refresh E s refreshToken (serve_all E s qs w)))"
proof -
  obtain t' where "a_toks (V (serve_all E s qs w)) i = Some t'" "t_TokenHash t' = HashRefreshToken E refreshToken"
    using history_token [OF assms(1-4,6)] assms(7) by auto
  moreover have "dead (V (serve_all E s qs w)) i" using history_dead [OF assms(1-5)] .
  moreover have "iv (db (serve_all E s qs w))" using history_safe [OF assms(1-4)] by (simp add: safe_def)
  ultimately show ?thesis using Refresh_dead [OF assms(1)] by blast
qed

lemma Logout_ends:
  assumes st: "s_store s = S" and iv: "iv (db w)" and lk: "linked (V w)" and run: "Logout E s refreshToken w = (Inr (), w')"
    and "draws_ok fu fr view E s qs w'"
    and tok: "a_toks (V w) i = Some t" "t_TokenHash t = HashRefreshToken E refreshToken"
  shows "isl (fst (Refresh E s refreshToken (serve_all E s qs w')))"
proof -
  note safe = Logout_safe [OF st iv run]
  then obtain t' where t': "a_toks (V w') i = Some t'" "t_TokenHash t' = HashRefreshToken E refreshToken"
    using arun_token [OF _ tok(1)] tok(2) by (fastforce simp: safe_def)
  have "dead (V w') i" using Logout_ok [OF st iv run t'] t'(1) by (auto simp: dead_def)
  then show ?thesis using history_refused [OF st safe_iv [OF safe] safe_linked [OF safe lk] assms(5) _ t'] by blast
qed

text \<open>Disabling an account ends all its sessions, and it cannot log in.\<close>

lemma disabled_locked_out:
  assumes st: "s_store s = S" and iv: "iv (db w)"
    and run: "Service_UpdateUser s p w = (Inr u, w')" "sp_Status p = Some StatusDisabled"
  shows "u_Status u = StatusDisabled \<and>
    (\<forall>i t. a_toks (V w') i = Some t \<longrightarrow> t_UserID t = sp_ID p \<longrightarrow> dead (V w') i) \<and>
    isl (fst (Login E s (u_Username u) password device w'))"
proof -
  obtain u0 now where u: "a_users (V w) (sp_ID p) = Some u0" "u_Status u = StatusDisabled"
      "V w' = revoke_where (\<lambda>t. t_UserID t = sp_ID p) now (put_user u (V w))"
    using Service_UpdateUser_law(2) [OF st iv run(1) refl] run(2) by auto
  have iv': "iv (db w')" using Service_UpdateUser_law(1) [OF st iv run(1)] by (rule safe_iv)
  have dead: "dead (V w') i" if "a_toks (V w') i = Some t" "t_UserID t = sp_ID p" for i t
    using that unfolding dead_def u(3) by (auto simp: store_simps)
  have me: "a_users (V w') (u_ID u) = Some u" by (simp add: u(3) store_simps)
  have uq: "x = u" if "a_users (V w') (u_ID x) = Some x" "ci (u_Username x) = ci (u_Username u)" for x
    using keyed [OF iv'] that me unfolding keyed_def users_keyed_def by (metis option.inject)
  have na: "u_Status x \<noteq> StatusActive" if "a_users (V w') (u_ID x) = Some x" "ci (u_Username x) = ci (u_Username u)" for x
    using uq [OF that] u(2) by (simp add: StatusActive_def StatusDisabled_def)
  have "isl r" if "Login E s (u_Username u) password device w' = (r, w2)" for r w2
    using Login_refused [OF st iv' _ that] na by blast
  then have "isl (fst (Login E s (u_Username u) password device w'))" by (metis prod.collapse)
  with u(2) dead show ?thesis by blast
qed

end

end
