(* ===== verification/User_Frames.thy ===== *)
theory User_Frames
  imports Requests
begin

text \<open>
  Which operations of the service leave the standing of the users alone: who exists, under
  which name, with which role and status. Logging in and out, refreshing, changing one's
  password or profile and ending one's sessions all do; only user management changes it.
\<close>

definition standing :: "astore \<Rightarrow> uuid \<Rightarrow> (string \<times> string \<times> string) option" where
  "standing a i = map_option (\<lambda>u. (u_Username u, u_Role u, u_Status u)) (a_users a i)"

lemma standing_cong: "a_users a = a_users b \<Longrightarrow> standing a = standing b"
  by (simp add: standing_def fun_eq_iff)

lemma standing_effects [simp]:
  "standing (put_cred i h mc now a) = standing a" "standing (put_tok t a) = standing a"
  "standing (revoke_where P now a) = standing a"
  by (simp_all add: standing_def fun_eq_iff store_simps)

lemma opened_standing: "opened E d ts user device i opaque a a' \<Longrightarrow> standing a' = standing a"
  by (auto elim!: openedE)

context store_contract begin

lemma token_ops_standing:
  "iv (db w) \<Longrightarrow> st_ReplaceRefreshToken S old new w = (r, w') \<Longrightarrow> standing (V w') = standing (V w)"
  "iv (db w) \<Longrightarrow> st_RevokeRefreshToken S i w = (r, w') \<Longrightarrow> standing (V w') = standing (V w)"
  "iv (db w) \<Longrightarrow> acyclic (rotated (V w)) \<Longrightarrow> st_RevokeRefreshTokenChain S i w = (r, w') \<Longrightarrow> standing (V w') = standing (V w)"
  "iv (db w) \<Longrightarrow> st_RevokeUserRefreshTokens S i ex w = (r, w') \<Longrightarrow> standing (V w') = standing (V w)"
  "iv (db w) \<Longrightarrow> st_SetCredential S i ph mc w = (r, w') \<Longrightarrow> standing (V w') = standing (V w)"
  using ReplaceRefreshToken [of w old new r w'] RevokeRefreshToken [of w i r w'] RevokeRefreshTokenChain [of w i r w']
    RevokeUserRefreshTokens [of w i ex r w'] SetCredential [of w i ph mc r w']
  by (auto simp: wrote_def split: sum.splits)

lemma token_ops_iv:
  "iv (db w) \<Longrightarrow> st_ReplaceRefreshToken S old new w = (r, w') \<Longrightarrow> iv (db w')"
  "iv (db w) \<Longrightarrow> st_RevokeUserRefreshTokens S i ex w = (r, w') \<Longrightarrow> iv (db w')"
  "iv (db w) \<Longrightarrow> st_SetCredential S i ph mc w = (r, w') \<Longrightarrow> iv (db w')"
  using ReplaceRefreshToken [of w old new r w'] RevokeUserRefreshTokens [of w i ex r w'] SetCredential [of w i ph mc r w']
  by (auto simp: frame_def)

lemma openSession_standing:
  assumes "s_store s = S" "iv (db w)" "fresh_draws fr E w (a_toks (V w))" "openSession E s user device w = (r, w')"
  shows "standing (V w') = standing (V w) \<and> iv (db w')"
  using assms
  by (cases rule: openSession_cases) (auto dest: opened_standing granted_opened [THEN opened_standing])

lemma rotate_session_standing:
  assumes st: "s_store s = S" and iv: "iv (db w)" and fresh: "fresh_draws fr E w (a_toks (V w))"
    and run: "rotate_session E s tok user w = (r, w')"
  shows "standing (V w') = standing (V w)"
proof -
  obtain r4 w4 where os: "openSession E s user (device_of tok) w = (r4, w4)" by fastforce
  note 4 = openSession_standing [OF st iv fresh os]
  show ?thesis
  proof (cases r4)
    case (Inl e)
    with run os 4 show ?thesis by (simp add: rotate_session_def)
  next
    case (Inr sess)
    obtain r5 w5 where rep: "st_ReplaceRefreshToken S (t_ID tok) (ss_TokenID sess) w4 = (r5, w5)" by fastforce
    have 5: "standing (V w5) = standing (V w)" "iv (db w5)"
      using token_ops_standing(1) [OF _ rep] token_ops_iv(1) [OF _ rep] 4 by auto
    obtain r6 w6 where rev: "st_RevokeRefreshToken S (ss_TokenID sess) w5 = (r6, w6)" by fastforce
    obtain r7 w7 where gc: "st_GetCredential S (u_ID user) w5 = (r7, w7)" by fastforce
    have "w' = w5 \<or> w' = w6 \<or> w' = w7"
      using run os Inr rep rev gc st
      by (auto simp: rotate_session_def ignore_err_def split: sum.splits if_splits)
    then show ?thesis
      using 5 token_ops_standing(2) [OF 5(2) rev] read_onlyD(2) [OF reads(5) [OF 5(2) gc]] by auto
  qed
qed

lemma Refresh_standing:
  assumes "s_store s = S" "iv (db w)" "linked (V w)" "fresh_draws fr E w (a_toks (V w))"
    and "Refresh E s refreshToken w = (r, w')"
  shows "standing (V w') = standing (V w)"
  using assms(1,2,5)
proof (cases rule: Refresh_cases)
  case (reuse tok r3 w2 w3)
  have "acyclic (rotated (V w2))" using assms(3) reuse(4) by (simp add: linked_def)
  with reuse token_ops_standing(3) [of w2] show ?thesis by (auto simp: log_event_def)
next
  case (disabled tok user r4 w3)
  with token_ops_standing(2) [of w3] show ?thesis by simp
next
  case (rotate tok user w3)
  have "fresh_draws fr E w3 (a_toks (V w3))" using assms(4) rotate by (simp add: fresh_draws_def)
  with rotate rotate_session_standing [OF assms(1) _ _ rotate(12)] show ?thesis by simp
qed simp_all

lemma Login_standing:
  assumes "s_store s = S" "iv (db w)" "fresh_draws fr E w (a_toks (V w))"
    and "Login E s username password device w = (r, w')"
  shows "standing (V w') = standing (V w)"
  using assms(1,2,4)
proof (cases rule: Login_cases)
  case (admitted user cred b w2)
  obtain r3 w3 where re: "(if b then rehash E s (u_ID user) password (c_MustChange cred) w2 else (Inr (), w2)) = (r3, w3)"
    by fastforce
  have 3: "iv (db w3)" "standing (V w3) = standing (V w)" "fresh_draws fr E w3 (a_toks (V w3))"
    using rehash_law [OF assms(1) admitted(7), of E "u_ID user" password "c_MustChange cred" r3 w3] re admitted
      assms(3) fresh_draws_stl [of fr E w "a_toks (V w)" w3]
    by (auto split: if_splits simp: store_simps fresh_draws_def)
  show ?thesis
  proof (cases r3)
    case (Inl e)
    with admitted re 3 show ?thesis by (auto simp: admit_def split: sum.splits if_splits)
  next
    case (Inr x)
    obtain r4 w4 where os: "openSession E s user device w3 = (r4, w4)" by fastforce
    have "db w' = db w4" using admitted(11,5) re Inr os by (auto simp: admit_def split: sum.splits)
    then show ?thesis using openSession_standing [OF assms(1) 3(1,3) os] 3(2) by simp
  qed
qed simp_all

lemma Logout_standing:
  assumes "s_store s = S" "iv (db w)" "Logout E s refreshToken w = (r, w')"
  shows "standing (V w') = standing (V w)"
  using assms
proof (cases rule: Logout_cases)
  case (found tok w1 r2)
  with token_ops_standing(2) [of w1] show ?thesis by simp
qed simp_all

lemma RevokeSession_standing:
  assumes "s_store s = S" "iv (db w)" "RevokeSession s userID sessionID w = (r, w')"
  shows "standing (V w') = standing (V w)"
  using RevokeSession_law(2) [OF assms] by auto

lemma ChangePassword_standing:
  assumes "s_store s = S" "iv (db w)" "ChangePassword E s userID current newPassword keep w = (r, w')"
  shows "standing (V w') = standing (V w)"
  using assms
proof (cases rule: ChangePassword_cases)
  case (verified cred b w2 phc r3 w3 r4 w4)
  have "standing (V w3) = standing (V w)" "iv (db w3)"
    using token_ops_standing(5) [OF verified(4,6)] token_ops_iv(3) [OF verified(4,6)] verified(3) by simp_all
  moreover from this have "standing (V w4) = standing (V w)" using token_ops_standing(4) [OF _ verified(7)] by simp
  ultimately show ?thesis using verified(8) by auto
qed simp_all

lemma UpdateProfile_standing:
  assumes "s_store s = S" "iv (db w)" "UpdateProfile s userID displayName w = (r, w')"
  shows "standing (V w') = standing (V w)"
proof -
  let ?up = "\<lparr>up_ID = userID, up_DisplayName = Some displayName, up_Email = None, up_Role = None, up_Status = None\<rparr>"
  have run: "st_UpdateUser S ?up w = (r, w')" using assms by (simp add: UpdateProfile_def)
  have "V w' = V w \<or> (\<exists>u now. a_users (V w) userID = Some u \<and> V w' = put_user (apply_update ?up now u) (V w))"
    using UpdateUser [OF assms(2) run] by (auto elim!: wrote_cases)
  moreover have "a_users (V w) userID = Some u \<Longrightarrow> u_ID u = userID" for u using keyed_user_ID [OF keyed [OF assms(2)]] .
  ultimately show ?thesis by (auto simp: standing_def fun_eq_iff store_simps apply_update_def)
qed

end

end
