(* ===== verification/Json_Body.thy ===== *)
theory Json_Body
  imports Prelude
begin

text \<open>
  What \<^verbatim>\<open>decodeJSON\<close> (\<^verbatim>\<open>internal/httpserver/problem.go\<close>) makes of a request body: the behaviour of
  \<^verbatim>\<open>encoding/json\<close>'s \<^verbatim>\<open>Decoder\<close> with \<^verbatim>\<open>DisallowUnknownFields\<close>, over a \<^verbatim>\<open>MaxBytesReader\<close> of
  64 KiB, on a struct whose fields are strings or pointers to strings. Every other value
  (number, boolean, array, object) is an error for such a field, well-formed or not, so the
  scanner here only has to tell strings and \<^verbatim>\<open>null\<close> from the rest. The text of the decoder's
  error messages is not modelled: a failure is \<open>None\<close>.
\<close>

section \<open>Characters\<close>

abbreviation code :: "char \<Rightarrow> nat" where
  "code \<equiv> of_char"

definition is_ws :: "char \<Rightarrow> bool" where
  "is_ws c \<longleftrightarrow> code c \<in> {32, 9, 13, 10}"

fun skip_ws :: "string \<Rightarrow> string" where
  "skip_ws [] = []"
| "skip_ws (c # cs) = (if is_ws c then skip_ws cs else c # cs)"

definition hex_val :: "char \<Rightarrow> nat option" where
  "hex_val c =
     (let n = code c in
      if 48 \<le> n \<and> n \<le> 57 then Some (n - 48)
      else if 97 \<le> n \<and> n \<le> 102 then Some (n - 87)
      else if 65 \<le> n \<and> n \<le> 70 then Some (n - 55)
      else None)"

definition is_hex :: "char \<Rightarrow> bool" where
  "is_hex c \<longleftrightarrow> hex_val c \<noteq> None"

definition hex4 :: "string \<Rightarrow> nat" where
  "hex4 s = foldl (\<lambda>n c. 16 * n + (case hex_val c of None \<Rightarrow> 0 | Some d \<Rightarrow> d)) 0 s"

text \<open>The UTF-8 form of a code point (\<^verbatim>\<open>utf8.EncodeRune\<close>); surrogates become U+FFFD.\<close>

definition utf8_encode :: "nat \<Rightarrow> string" where
  "utf8_encode r =
     map char_of
      (if r < 128 then [r]
       else if r < 2048 then [192 + r div 64, 128 + r mod 64]
       else if 55296 \<le> r \<and> r \<le> 57343 \<or> 1114112 \<le> r then [239, 191, 189]
       else if r < 65536 then [224 + r div 4096, 128 + r div 64 mod 64, 128 + r mod 64]
       else [240 + r div 262144, 128 + r div 4096 mod 64, 128 + r div 64 mod 64, 128 + r mod 64])"

text \<open>The length of the well-formed multi-byte sequence at the head (\<^verbatim>\<open>utf8.DecodeRune\<close>), 0 if there is none.\<close>

definition utf8_width :: "string \<Rightarrow> nat" where
  "utf8_width s =
     (let cont = (\<lambda>n. 128 \<le> n \<and> n \<le> (191 :: nat)) in
      case map code s of
        a # b # rest \<Rightarrow>
          if 194 \<le> a \<and> a \<le> 223 \<and> cont b then 2
          else (case rest of
            c # rest' \<Rightarrow>
              if cont c \<and> (a = 224 \<and> 160 \<le> b \<and> b \<le> 191 \<or> a = 237 \<and> 128 \<le> b \<and> b \<le> 159 \<or>
                  (225 \<le> a \<and> a \<le> 236 \<or> a = 238 \<or> a = 239) \<and> cont b) then 3
              else (case rest' of
                d # _ \<Rightarrow>
                  if cont c \<and> cont d \<and> (a = 240 \<and> 144 \<le> b \<and> b \<le> 191 \<or> a = 244 \<and> 128 \<le> b \<and> b \<le> 143 \<or>
                      241 \<le> a \<and> a \<le> 243 \<and> cont b) then 4
                  else 0
              | [] \<Rightarrow> 0)
          | [] \<Rightarrow> 0)
      | _ \<Rightarrow> 0)"

section \<open>Strings\<close>

definition simple_escape :: "char \<Rightarrow> bool" where
  "simple_escape e \<longleftrightarrow> e \<in> set [CHR ''b'', CHR ''f'', CHR ''n'', CHR ''r'', CHR ''t'', CHR ''/'', CHR 0x5C, CHR 0x22]"

text \<open>The raw text of a string literal up to its closing quote, and what follows it.\<close>

fun scan_string :: "string \<Rightarrow> (string \<times> string) option" where
  "scan_string [] = None"
| "scan_string (c # cs) =
     (if c = CHR 0x22 then Some ([], cs)
      else if c = CHR 0x5C then
        (case cs of
           [] \<Rightarrow> None
         | e # es \<Rightarrow>
             if e = CHR ''u'' then
               (if length es \<ge> 4 \<and> list_all is_hex (take 4 es)
                then map_option (\<lambda>(r, rest). (c # e # take 4 es @ r, rest)) (scan_string (drop 4 es))
                else None)
             else if simple_escape e
             then map_option (\<lambda>(r, rest). (c # e # r, rest)) (scan_string es)
             else None)
      else if code c < 32 then None
      else map_option (\<lambda>(r, rest). (c # r, rest)) (scan_string cs))"

definition escape_char :: "char \<Rightarrow> char" where
  "escape_char e =
     (if e = CHR ''b'' then char_of (8 :: nat) else if e = CHR ''f'' then char_of (12 :: nat)
      else if e = CHR ''n'' then char_of (10 :: nat) else if e = CHR ''r'' then char_of (13 :: nat)
      else if e = CHR ''t'' then char_of (9 :: nat) else e)"

definition replacement :: string where
  "replacement = utf8_encode 65533"

definition is_surrogate :: "nat \<Rightarrow> bool" where
  "is_surrogate r \<longleftrightarrow> 55296 \<le> r \<and> r \<le> 57343"

definition surrogate_pair :: "nat \<Rightarrow> nat \<Rightarrow> nat option" where
  "surrogate_pair hi lo =
     (if 55296 \<le> hi \<and> hi \<le> 56319 \<and> 56320 \<le> lo \<and> lo \<le> 57343
      then Some (65536 + (hi - 55296) * 1024 + (lo - 56320)) else None)"

definition next_u4 :: "string \<Rightarrow> nat option" where
  "next_u4 s =
     (case s of
        a # b # ds \<Rightarrow> if a = CHR 0x5C \<and> b = CHR ''u'' \<and> length ds \<ge> 4 then Some (hex4 (take 4 ds)) else None
      | _ \<Rightarrow> None)"

function unquote :: "string \<Rightarrow> string" where
  "unquote [] = []"
| "unquote (c # cs) =
     (if c = CHR 0x5C then
        (case cs of
           [] \<Rightarrow> []
         | e # es \<Rightarrow>
             if e = CHR ''u'' then
               (let r = hex4 (take 4 es) in
                if is_surrogate r then
                  (case Option.bind (next_u4 (drop 4 es)) (surrogate_pair r) of
                     Some x \<Rightarrow> utf8_encode x @ unquote (drop 10 es)
                   | None \<Rightarrow> replacement @ unquote (drop 4 es))
                else utf8_encode r @ unquote (drop 4 es))
             else escape_char e # unquote es)
      else if code c < 128 then c # unquote cs
      else (let n = utf8_width (c # cs) in
            if n = 0 then replacement @ unquote cs
            else take n (c # cs) @ unquote (drop n (c # cs))))"
  by pat_completeness auto
termination by (relation "measure length") auto

section \<open>Objects\<close>

text \<open>A value a string field can take: \<^verbatim>\<open>null\<close> or a string.\<close>

datatype json_field = FNull | FStr string

definition parse_value :: "string \<Rightarrow> (json_field \<times> string) option" where
  "parse_value s =
     (case s of
        [] \<Rightarrow> None
      | c # cs \<Rightarrow>
          if c = CHR 0x22 then map_option (\<lambda>(r, rest). (FStr (unquote r), rest)) (scan_string cs)
          else map_option (\<lambda>rest. (FNull, rest)) (cut_prefix ''null'' s))"

lemma skip_ws_length: "length (skip_ws s) \<le> length s"
  by (induction s) auto

lemma scan_string_next:
  assumes "scan_string (c # cs) = Some (r, rest)"
  shows "rest = cs \<or> (\<exists>n r'. scan_string (drop n cs) = Some (r', rest))"
proof (cases "c = CHR 0x22 \<or> c \<noteq> CHR 0x5C")
  case True
  have "scan_string cs = Some (r', rest) \<Longrightarrow> \<exists>n r'. scan_string (drop n cs) = Some (r', rest)" for r'
    by (rule exI [of _ 0]) auto
  with True assms show ?thesis by (auto split: if_splits)
next
  case False
  with assms obtain e es where cs: "cs = e # es" by (cases cs) auto
  have "scan_string es = Some (r', rest) \<Longrightarrow> \<exists>n r'. scan_string (drop n cs) = Some (r', rest)"
    "scan_string (drop 4 es) = Some (r', rest) \<Longrightarrow> \<exists>n r'. scan_string (drop n cs) = Some (r', rest)" for r'
    by (rule exI [of _ 1], simp add: cs) (rule exI [of _ 5], simp add: cs)
  with False assms cs show ?thesis by (auto split: if_splits)
qed

lemma scan_string_length: "scan_string s = Some (r, rest) \<Longrightarrow> length rest < length s"
proof (induction s arbitrary: r rule: length_induct)
  case (1 s)
  then obtain c cs where s: "s = c # cs" by (cases s) auto
  have "length rest < length (drop n cs)" if "scan_string (drop n cs) = Some (r', rest)" for n r'
    using 1(1) [rule_format, of "drop n cs", OF _ that] by (simp add: s)
  then show ?case using scan_string_next [of c cs r rest] 1(2) s by fastforce
qed

lemma cut_prefix_length: "cut_prefix p s = Some r \<Longrightarrow> length r \<le> length s"
  by (induction p s rule: cut_prefix.induct) (auto split: if_splits)

lemma parse_value_length: "parse_value s = Some (v, rest) \<Longrightarrow> length rest \<le> length s"
  by (auto simp: parse_value_def split: list.splits if_splits dest!: scan_string_length cut_prefix_length)

text \<open>One \<^verbatim>\<open>"key": value\<close> member, with what follows it.\<close>

definition parse_member :: "string \<Rightarrow> ((string \<times> json_field) \<times> string) option" where
  "parse_member s =
     (case skip_ws s of
        [] \<Rightarrow> None
      | q # s1 \<Rightarrow>
          if q \<noteq> CHR 0x22 then None
          else (case scan_string s1 of
             None \<Rightarrow> None
           | Some (k, s2) \<Rightarrow>
               (case skip_ws s2 of
                  [] \<Rightarrow> None
                | c # s3 \<Rightarrow>
                    if c \<noteq> CHR '':'' then None
                    else map_option (\<lambda>(v, s4). ((unquote k, v), skip_ws s4)) (parse_value (skip_ws s3)))))"

lemma parse_member_length:
  assumes "parse_member s = Some (m, rest)"
  shows "length rest < length s"
proof -
  from assms obtain q s1 k s2 c s3 v s4 where
    "skip_ws s = q # s1" "scan_string s1 = Some (k, s2)" "skip_ws s2 = c # s3"
    "parse_value (skip_ws s3) = Some (v, s4)" "rest = skip_ws s4"
    by (auto simp: parse_member_def split: list.splits if_splits option.splits)
  then show ?thesis
    using skip_ws_length [of s] skip_ws_length [of s2] skip_ws_length [of s3] skip_ws_length [of s4]
      scan_string_length [of s1 k s2] parse_value_length [of "skip_ws s3" v s4] by simp
qed

function parse_members :: "string \<Rightarrow> (string \<times> json_field) list option" where
  "parse_members s =
     (case parse_member s of
        None \<Rightarrow> None
      | Some (m, rest) \<Rightarrow>
          (case rest of
             [] \<Rightarrow> None
           | c # rest' \<Rightarrow>
               if c = CHR ''}'' then Some [m]
               else if c = CHR '','' then map_option ((#) m) (parse_members rest')
               else None))"
  by pat_completeness auto
termination by (relation "measure length") (auto dest!: parse_member_length)

text \<open>
  The first value of the text, as members: an object, or \<^verbatim>\<open>null\<close>, which leaves the struct as
  it is. \<open>trunc\<close>: the reader stopped at its limit, so there is an error where the text ends.
\<close>

definition parse_body :: "string \<Rightarrow> bool \<Rightarrow> (string \<times> json_field) list option" where
  "parse_body s trunc =
     (case skip_ws s of
        [] \<Rightarrow> None
      | c # cs \<Rightarrow>
          if c = CHR ''{'' then
            (case skip_ws cs of
               [] \<Rightarrow> None
             | c' # _ \<Rightarrow> if c' = CHR ''}'' then Some [] else parse_members cs)
          else (case cut_prefix ''null'' (c # cs) of
             None \<Rightarrow> None
           | Some rest \<Rightarrow> if rest = [] \<and> trunc then None else Some []))"

section \<open>Field names\<close>

text \<open>
  Keys match field names exactly or up to \<^verbatim>\<open>foldName\<close>: ASCII letters in upper case, and the two
  characters outside ASCII whose simple folding is a letter, U+017F for S and U+212A for K.
\<close>

definition upper :: "char \<Rightarrow> char" where
  "upper c = (if 97 \<le> code c \<and> code c \<le> 122 then char_of (code c - 32) else c)"

fun fold_name :: "string \<Rightarrow> string" where
  "fold_name [] = []"
| "fold_name (c # cs) =
     (case cs of
        d # e # ds \<Rightarrow>
          if code c = 197 \<and> code d = 191 then CHR ''S'' # fold_name (e # ds)
          else if code c = 226 \<and> code d = 132 \<and> code e = 170 then CHR ''K'' # fold_name ds
          else upper c # fold_name cs
      | [d] \<Rightarrow> if code c = 197 \<and> code d = 191 then [CHR ''S''] else upper c # fold_name cs
      | [] \<Rightarrow> [upper c])"

definition find_field :: "string list \<Rightarrow> string \<Rightarrow> string option" where
  "find_field names key =
     (if key \<in> set names then Some key else find (\<lambda>f. fold_name f = fold_name key) names)"

fun resolve :: "string list \<Rightarrow> (string \<times> json_field) list \<Rightarrow> (string \<times> json_field) list option" where
  "resolve names [] = Some []"
| "resolve names ((k, v) # ms) =
     (case find_field names k of
        None \<Rightarrow> None
      | Some f \<Rightarrow> map_option ((#) (f, v)) (resolve names ms))"

definition maxBody :: nat where
  "maxBody = 65536"

definition decode_struct :: "string list \<Rightarrow> string \<Rightarrow> (string \<times> json_field) list option" where
  "decode_struct names body =
     Option.bind (parse_body (take maxBody body) (length body > maxBody)) (resolve names)"

text \<open>The names of the struct after decoding: \<^verbatim>\<open>null\<close> leaves a string alone and clears a pointer.\<close>

definition str_field :: "(string \<times> json_field) list \<Rightarrow> string \<Rightarrow> string" where
  "str_field ms f = foldl (\<lambda>x (k, v). if k = f then (case v of FStr s \<Rightarrow> s | FNull \<Rightarrow> x) else x) [] ms"

definition ptr_field :: "(string \<times> json_field) list \<Rightarrow> string \<Rightarrow> string option" where
  "ptr_field ms f = foldl (\<lambda>x (k, v). if k = f then (case v of FStr s \<Rightarrow> Some s | FNull \<Rightarrow> None) else x) None ms"

section \<open>What is accepted\<close>

text \<open>Text that needs no escaping in a JSON string: printable ASCII without quote and backslash.\<close>

definition plain :: "string \<Rightarrow> bool" where
  "plain s \<longleftrightarrow> list_all (\<lambda>c. 32 \<le> code c \<and> code c < 128 \<and> c \<noteq> CHR 0x22 \<and> c \<noteq> CHR 0x5C) s"

definition quoted :: "string \<Rightarrow> string" where
  "quoted s = CHR 0x22 # s @ [CHR 0x22]"

lemma scan_plain: "plain s \<Longrightarrow> scan_string (s @ CHR 0x22 # rest) = Some (s, rest)"
  by (induction s) (auto simp: plain_def)

lemma unquote_plain: "plain s \<Longrightarrow> unquote s = s"
  by (induction s) (auto simp: plain_def)

lemma skip_ws_nonws [simp]: "\<not> is_ws c \<Longrightarrow> skip_ws (c # cs) = c # cs"
  by simp

lemma not_ws [simp]:
  "\<not> is_ws (CHR 0x22)" "\<not> is_ws (CHR '':'')" "\<not> is_ws (CHR '','')" "\<not> is_ws (CHR ''{'')" "\<not> is_ws (CHR ''}'')"
  by (simp_all add: is_ws_def)

lemma parse_member_plain:
  assumes "plain k" "plain v"
  shows "parse_member (quoted k @ CHR '':'' # quoted v @ rest) = Some ((k, FStr v), skip_ws rest)"
  using assms
  by (simp add: parse_member_def quoted_def parse_value_def scan_plain unquote_plain)

text \<open>The compact rendering of an object of plain strings, as a client writes it.\<close>

fun render_members :: "(string \<times> string) list \<Rightarrow> string" where
  "render_members [] = ''}''"
| "render_members [(k, v)] = quoted k @ CHR '':'' # quoted v @ ''}''"
| "render_members ((k, v) # m # ms) = quoted k @ CHR '':'' # quoted v @ CHR '','' # render_members (m # ms)"

definition render_object :: "(string \<times> string) list \<Rightarrow> string" where
  "render_object ms = CHR ''{'' # render_members ms"

lemma parse_members_rendered:
  "ms \<noteq> [] \<Longrightarrow> \<forall>(k, v) \<in> set ms. plain k \<and> plain v \<Longrightarrow>
     parse_members (render_members ms @ rest) = Some (map (\<lambda>(k, v). (k, FStr v)) ms)"
proof (induction ms rule: render_members.induct)
  case (2 k v)
  then show ?case using parse_member_plain [of k v "CHR ''}'' # rest"] by (subst parse_members.simps) simp
next
  case (3 k v m ms)
  then have "parse_members (render_members (m # ms) @ rest) = Some (map (\<lambda>(k, v). (k, FStr v)) (m # ms))" by auto
  moreover have "parse_member (render_members ((k, v) # m # ms) @ rest) =
      Some ((k, FStr v), CHR '','' # render_members (m # ms) @ rest)"
    using parse_member_plain [of k v "CHR '','' # render_members (m # ms) @ rest"] 3 by simp
  ultimately show ?case by (subst parse_members.simps) simp
qed simp

lemma parse_body_rendered:
  assumes "\<forall>(k, v) \<in> set ms. plain k \<and> plain v"
  shows "parse_body (render_object ms @ rest) trunc = Some (map (\<lambda>(k, v). (k, FStr v)) ms)"
proof (cases ms)
  case Nil
  then show ?thesis by (simp add: parse_body_def render_object_def)
next
  case (Cons m ms')
  obtain k v where m: "m = (k, v)" by fastforce
  have "\<exists>cs. render_members ms @ rest = CHR 0x22 # cs" by (cases ms') (auto simp: Cons m quoted_def)
  then obtain cs where cs: "render_members ms @ rest = CHR 0x22 # cs" by blast
  have "parse_members (render_members ms @ rest) = Some (map (\<lambda>(k, v). (k, FStr v)) ms)"
    using Cons assms by (intro parse_members_rendered) auto
  then show ?thesis by (simp add: parse_body_def render_object_def cs)
qed

text \<open>A text cut off inside such an object is refused.\<close>

lemma plain_take: "plain s \<Longrightarrow> plain (take n s)"
  by (auto simp: plain_def list_all_iff dest: in_set_takeD)

lemma scan_plain_open: "plain s \<Longrightarrow> scan_string s = None"
  by (induction s) (auto simp: plain_def)

lemma parse_value_cut: "plain v \<Longrightarrow> m \<le> length v \<Longrightarrow> parse_value (CHR 0x22 # take m v) = None"
  by (simp add: parse_value_def scan_plain_open plain_take)

lemma parse_member_cut:
  assumes "plain k" "plain v" "m < length (quoted k @ CHR '':'' # quoted v)"
  shows "parse_member (take m (quoted k @ CHR '':'' # quoted v)) = None"
proof (cases m)
  case 0
  then show ?thesis by (simp add: parse_member_def)
next
  case (Suc a)
  show ?thesis
  proof (cases "a \<le> length k")
    case True
    with Suc assms show ?thesis by (simp add: parse_member_def quoted_def scan_plain_open plain_take)
  next
    case False
    then obtain b where a: "a = length k + Suc b" using less_imp_Suc_add [of "length k" a] by auto
    then have take: "take m (quoted k @ CHR '':'' # quoted v) = CHR 0x22 # k @ CHR 0x22 # take b (CHR '':'' # quoted v)"
      by (simp add: Suc quoted_def)
    show ?thesis
    proof (cases b)
      case 0
      with assms(1) show ?thesis unfolding take by (simp add: parse_member_def scan_plain)
    next
      case (Suc c)
      have "parse_value (skip_ws (take c (quoted v))) = None"
        using assms(2,3) by (cases c) (simp_all add: quoted_def Suc \<open>m = Suc a\<close> a parse_value_cut, simp add: parse_value_def)
      with assms(1) Suc show ?thesis unfolding take by (simp add: parse_member_def scan_plain)
    qed
  qed
qed

lemma parse_members_open: "parse_member s = None \<or> parse_member s = Some (m, []) \<Longrightarrow> parse_members s = None"
  by (subst parse_members.simps) auto

lemma parse_members_cut:
  "ms \<noteq> [] \<Longrightarrow> \<forall>(k, v) \<in> set ms. plain k \<and> plain v \<Longrightarrow> n < length (render_members ms) \<Longrightarrow>
     parse_members (take n (render_members ms)) = None"
proof (induction ms arbitrary: n rule: render_members.induct)
  case (2 k v)
  let ?m = "quoted k @ CHR '':'' # quoted v"
  have r: "render_members [(k, v)] = ?m @ ''}''" by simp
  have t: "take n (?m @ ''}'') = take n ?m" using 2(3) by (subst take_append) simp
  have "n < length ?m \<or> take n ?m = ?m" by (cases "n < length ?m") (simp_all only: not_less take_all simp_thms)
  then have "parse_member (take n ?m) = None \<or> parse_member (take n ?m) = Some ((k, FStr v), [])"
    using 2(2) parse_member_cut [of k v n] parse_member_plain [of k v "[]"] by auto
  then show ?case unfolding r t by (rule parse_members_open)
next
  case (3 k v m ms)
  let ?m = "quoted k @ CHR '':'' # quoted v"
  let ?r = "render_members (m # ms)"
  have r: "render_members ((k, v) # m # ms) = ?m @ CHR '','' # ?r" by simp
  have kv: "plain k" "plain v" using "3.prems"(2) by auto
  show ?case
  proof (cases "n \<le> length ?m")
    case True
    have t: "take n (?m @ CHR '','' # ?r) = take n ?m" using True by (subst take_append) simp
    have "n < length ?m \<or> take n ?m = ?m" by (cases "n < length ?m") (simp_all only: not_less take_all simp_thms)
    then have "parse_member (take n ?m) = None \<or> parse_member (take n ?m) = Some ((k, FStr v), [])"
      using kv parse_member_cut [of k v n] parse_member_plain [of k v "[]"] by auto
    then show ?thesis unfolding r t by (rule parse_members_open)
  next
    case False
    then obtain j where j: "n = length ?m + Suc j"
      using less_imp_Suc_add [of "length ?m" n] by (metis add_Suc_right not_le)
    have t: "take n (?m @ CHR '','' # ?r) = ?m @ CHR '','' # take j ?r" by (simp add: j)
    have jr: "j < length ?r" using "3.prems"(3) unfolding r by (simp add: j)
    have "parse_members (take j ?r) = None" using "3.IH" [OF _ _ jr] "3.prems"(2) by auto
    moreover have "parse_member (?m @ CHR '','' # take j ?r) = Some ((k, FStr v), CHR '','' # take j ?r)"
      using parse_member_plain [OF kv, of "CHR '','' # take j ?r"] by simp
    ultimately show ?thesis unfolding r t by (subst parse_members.simps) simp
  qed
qed simp

lemma parse_body_cut:
  assumes "\<forall>(k, v) \<in> set ms. plain k \<and> plain v" "n < length (render_object ms)"
  shows "parse_body (take n (render_object ms)) trunc = None"
proof (cases n)
  case 0
  then show ?thesis by (simp add: parse_body_def)
next
  case (Suc a)
  show ?thesis
  proof (cases "a = 0 \<or> ms = []")
    case True
    then show ?thesis using Suc assms(2) by (auto simp: parse_body_def render_object_def)
  next
    case False
    then have "parse_members (take a (render_members ms)) = None"
      using parse_members_cut [of ms a] assms Suc by (simp add: render_object_def)
    moreover obtain b where "a = Suc b" using False by (cases a) auto
    moreover have "\<exists>cs. render_members ms = CHR 0x22 # cs"
      using False by (cases ms rule: render_members.cases) (auto simp: quoted_def)
    ultimately show ?thesis using Suc by (auto simp: parse_body_def render_object_def)
  qed
qed

text \<open>Every key has to match a field.\<close>

lemma resolve_eq:
  "resolve names ms =
     (if \<forall>(k, v) \<in> set ms. find_field names k \<noteq> None
      then Some (map (\<lambda>(k, v). (the (find_field names k), v)) ms) else None)"
  by (induction names ms rule: resolve.induct) (auto split: option.splits)

lemma decode_struct_rendered:
  assumes "\<forall>(k, v) \<in> set ms. plain k \<and> plain v"
  shows "decode_struct names (render_object ms @ rest) =
    (if length (render_object ms) \<le> maxBody then resolve names (map (\<lambda>(k, v). (k, FStr v)) ms) else None)"
proof (cases "length (render_object ms) \<le> maxBody")
  case True
  then have "take maxBody (render_object ms @ rest) = render_object ms @ take (maxBody - length (render_object ms)) rest"
    by simp
  with True show ?thesis by (simp only: decode_struct_def) (simp add: parse_body_rendered [OF assms])
next
  case False
  then show ?thesis using parse_body_cut [OF assms, of maxBody] by (simp add: decode_struct_def)
qed

lemma decode_body_plain:
  assumes "\<forall>(k, v) \<in> set ms. plain k \<and> plain v" "fst ` set ms \<subseteq> set names" "length (render_object ms) \<le> maxBody"
  shows "decode_struct names (render_object ms @ rest) = Some (map (\<lambda>(k, v). (k, FStr v)) ms)"
proof -
  have "find_field names k = Some k" if "(k, v) \<in> set ms" for k v
    using that assms(2) by (force simp: find_field_def)
  then show ?thesis using assms(3) by (auto simp: decode_struct_rendered [OF assms(1)] resolve_eq)
qed

lemma decode_struct_unknown:
  assumes "\<forall>raw. parse_body (take maxBody body) (maxBody < length body) = Some raw \<longrightarrow>
    (\<exists>k v. (k, v) \<in> set raw \<and> find_field names k = None)"
  shows "decode_struct names body = None"
proof (cases "parse_body (take maxBody body) (maxBody < length body)")
  case None
  then show ?thesis by (simp add: decode_struct_def)
next
  case (Some raw)
  with assms obtain k v where "(k, v) \<in> set raw" "find_field names k = None" by blast
  then have "\<not> (\<forall>(k, v) \<in> set raw. find_field names k \<noteq> None)" by force
  then show ?thesis unfolding decode_struct_def Some resolve_eq by simp
qed

end
