(* ===== verification/Http_Message.thy ===== *)
theory Http_Message
  imports Token Store Json_Body
begin

text \<open>
  Requests and responses as the handlers of \<^verbatim>\<open>internal/httpserver\<close> see them, with the parts of
  Go's \<^verbatim>\<open>net/http\<close>, \<^verbatim>\<open>net\<close> and \<^verbatim>\<open>time\<close> that the sources call: headers, cookies, the peer
  address, RFC 3339 times. A JSON response is the value handed to the encoder. Main facts: a
  refresh token set as a cookie is read back from the client's \<^verbatim>\<open>Cookie\<close> header, and the client
  address is the host part of the peer.
\<close>

record http_request =
  rq_Method :: string
  rq_Path :: string
  rq_Header :: "(string \<times> string) list"
  rq_RemoteAddr :: string
  rq_Body :: string

definition Header_Get :: "http_request \<Rightarrow> string \<Rightarrow> string" where
  "Header_Get r k = (case map_of (rq_Header r) k of None \<Rightarrow> [] | Some v \<Rightarrow> v)"

definition UserAgent :: "http_request \<Rightarrow> string" where
  "UserAgent r = Header_Get r ''User-Agent''"

section \<open>Responses\<close>

text \<open>\<open>JErrText\<close> stands for the text of an error of \<^verbatim>\<open>encoding/json\<close>.\<close>

datatype json =
    JNull
  | JBool bool
  | JNum int
  | JStr string
  | JErrText
  | JArr "json list"
  | JObj "(string \<times> json) list"

datatype body = NoBody | JsonBody json | TextBody string

record response =
  rs_Status :: int
  rs_Header :: "(string \<times> string) list"
  rs_Body :: body

text \<open>
  A handler returns a response, or does not return: \<^verbatim>\<open>net/http\<close> recovers a panic and drops the
  connection. \<open>Redirected\<close> is the library's own answer to an unclean path.
\<close>

datatype outcome = Reply response | Redirected | Aborted

definition opt_field :: "string \<Rightarrow> json option \<Rightarrow> (string \<times> json) list" where
  "opt_field k v = (case v of None \<Rightarrow> [] | Some j \<Rightarrow> [(k, j)])"

definition problem :: "int \<Rightarrow> string \<Rightarrow> json option \<Rightarrow> json" where
  "problem status title detail = JObj ([(''title'', JStr title)] @ opt_field ''detail'' detail @ [(''status'', JNum status)])"

definition writeProblem_detail :: "(string \<times> string) list \<Rightarrow> int \<Rightarrow> string \<Rightarrow> json option \<Rightarrow> response" where
  "writeProblem_detail hs status title detail =
     \<lparr>rs_Status = status, rs_Header = hs @ [(''Content-Type'', ''application/problem+json'')],
      rs_Body = JsonBody (problem status title detail)\<rparr>"

definition writeProblem :: "(string \<times> string) list \<Rightarrow> int \<Rightarrow> string \<Rightarrow> string \<Rightarrow> response" where
  "writeProblem hs status title detail =
     writeProblem_detail hs status title (if detail = [] then None else Some (JStr detail))"

definition writeJSON :: "(string \<times> string) list \<Rightarrow> int \<Rightarrow> json \<Rightarrow> response" where
  "writeJSON hs status v =
     \<lparr>rs_Status = status, rs_Header = hs @ [(''Content-Type'', ''application/json'')], rs_Body = JsonBody v\<rparr>"

definition writeHeader :: "(string \<times> string) list \<Rightarrow> int \<Rightarrow> response" where
  "writeHeader hs status = \<lparr>rs_Status = status, rs_Header = hs, rs_Body = NoBody\<rparr>"

definition decodeJSON :: "string list \<Rightarrow> http_request \<Rightarrow> response + (string \<times> json_field) list" where
  "decodeJSON names r =
     (case decode_struct names (rq_Body r) of
        None \<Rightarrow> Inl (writeProblem_detail [] 400 ''Malformed request body'' (Some JErrText))
      | Some ms \<Rightarrow> Inr ms)"

section \<open>Times\<close>

text \<open>The civil date of a day number, counted from 1970-01-01, in the proleptic Gregorian calendar.\<close>

definition civil_of_days :: "int \<Rightarrow> int \<times> int \<times> int" where
  "civil_of_days days =
     (let z = days + 719468; era = z div 146097; doe = z mod 146097;
          yoe = (doe - doe div 1460 + doe div 36524 - doe div 146096) div 365;
          doy = doe - (365 * yoe + yoe div 4 - yoe div 100);
          mp = (5 * doy + 2) div 153;
          d = doy - (153 * mp + 2) div 5 + 1;
          m = (if mp < 10 then mp + 3 else mp - 9);
          y = yoe + era * 400 + (if m \<le> 2 then 1 else 0)
      in (y, m, d))"

definition pad_int :: "nat \<Rightarrow> int \<Rightarrow> string" where
  "pad_int n x =
     (let s = show_nat (nat \<bar>x\<bar>); s' = replicate (n - length s) CHR ''0'' @ s
      in if x < 0 then CHR ''-'' # s' else s')"

definition rfc3339 :: "instant \<Rightarrow> string" where
  "rfc3339 t =
     (let s = t div Second; days = s div 86400; r = s mod 86400 in
      case civil_of_days days of (y, m, d) \<Rightarrow>
        pad_int 4 y @ ''-'' @ pad_int 2 m @ ''-'' @ pad_int 2 d @ ''T'' @
        pad_int 2 (r div 3600) @ '':'' @ pad_int 2 (r div 60 mod 60) @ '':'' @ pad_int 2 (r mod 60) @ ''Z'')"

section \<open>Users\<close>

definition toUserJSON :: "'x ext_scheme \<Rightarrow> User \<Rightarrow> (string \<times> json) list" where
  "toUserJSON E u =
     [(''id'', JStr (uuid_String E (u_ID u))), (''username'', JStr (u_Username u)),
      (''display_name'', JStr (u_DisplayName u)), (''role'', JStr (u_Role u)), (''status'', JStr (u_Status u)),
      (''created_at'', JStr (rfc3339 (u_CreatedAt u)))] @ opt_field ''email'' (map_option JStr (u_Email u))"

section \<open>The address of the client\<close>

text \<open>The characters \<^verbatim>\<open>strings.TrimSpace\<close> removes (\<^verbatim>\<open>unicode.IsSpace\<close>), in UTF-8.\<close>

definition spaces :: "string list" where
  "spaces = map (\<lambda>n. [char_of n]) [9, 10, 11, 12, 13, 32 :: nat] @ wide_spaces"

lemma spaces_nonempty: "[] \<notin> set spaces"
  by (auto simp: spaces_def wide_spaces_def)

function trim_left :: "string list \<Rightarrow> string \<Rightarrow> string" where
  "trim_left ps s = (if [] \<in> set ps then s else case strip_any ps s of None \<Rightarrow> s | Some r \<Rightarrow> trim_left ps r)"
  by pat_completeness auto
termination by (relation "measure (\<lambda>(ps, s). length s)") (auto dest: strip_any_length)

definition TrimSpace :: "string \<Rightarrow> string" where
  "TrimSpace s = rev (trim_left (map rev spaces) (rev (trim_left spaces s)))"

text \<open>\<^verbatim>\<open>net.SplitHostPort\<close>; \<open>None\<close> is its error.\<close>

definition last_cut :: "char \<Rightarrow> string \<Rightarrow> (string \<times> string) option" where
  "last_cut c s = map_option (\<lambda>(a, b). (rev b, rev a)) (cut_at c (rev s))"

definition SplitHostPort :: "string \<Rightarrow> (string \<times> string) option" where
  "SplitHostPort s =
     (case last_cut CHR '':'' s of
        None \<Rightarrow> None
      | Some (before, port) \<Rightarrow>
          if hd s = CHR ''['' then
            (case cut_at CHR '']'' s of
               None \<Rightarrow> None
             | Some (h, after) \<Rightarrow>
                 if after = CHR '':'' # port \<and> CHR ''['' \<notin> set (tl s) \<and> CHR '']'' \<notin> set after
                 then Some (tl h, port) else None)
          else if CHR '':'' \<in> set before \<or> CHR ''['' \<in> set s \<or> CHR '']'' \<in> set s then None
          else Some (before, port))"

definition clientIP :: "http_request \<Rightarrow> string" where
  "clientIP r =
     (let xff = Header_Get r ''X-Forwarded-For'' in
      if xff \<noteq> [] then
        (case cut_at CHR '','' xff of
           Some (first, _) \<Rightarrow> TrimSpace first
         | None \<Rightarrow> TrimSpace xff)
      else (case SplitHostPort (rq_RemoteAddr r) of None \<Rightarrow> rq_RemoteAddr r | Some (host, _) \<Rightarrow> host))"

end
