(* ===== verification/Durations.thy ===== *)
theory Durations
  imports Complex_Main Codec
begin

text \<open>
  The parts of Go's package \<^verbatim>\<open>time\<close> that turn durations into numbers and texts into durations:
  \<^verbatim>\<open>int(d.Seconds())\<close> (\<^verbatim>\<open>httpserver.go\<close>, the age of the cookie) and \<^verbatim>\<open>time.ParseDuration\<close>
  (\<^verbatim>\<open>config.go\<close>, \<^verbatim>\<open>CCC_REFRESH_TTL\<close>). Both go through 64-bit floats, modelled by exact
  rational arithmetic with explicit rounding, and \<^verbatim>\<open>ParseDuration\<close> keeps Go's unsigned 64-bit
  accumulator. Main facts: whole seconds are exact, a parsed duration fits 64 bits, and
  whole numbers of one unit are parsed exactly.
\<close>

section \<open>Seconds of a duration\<close>

fun flog2 :: "nat \<Rightarrow> nat" where
  "flog2 n = (if n < 2 then 0 else Suc (flog2 (n div 2)))"

declare flog2.simps [simp del]

definition clog2 :: "nat \<Rightarrow> nat" where
  "clog2 n = (if n \<le> 1 then 0 else Suc (flog2 (n - 1)))"

definition pow2 :: "int \<Rightarrow> rat" where
  "pow2 e = (if 0 \<le> e then 2 ^ nat e else 1 / 2 ^ nat (- e))"

definition round_even :: "rat \<Rightarrow> int" where
  "round_even q =
     (let f = \<lfloor>q\<rfloor>; r = q - of_int f in
      if r < 1 / 2 then f else if r > 1 / 2 then f + 1 else if even f then f else f + 1)"

text \<open>Rounding of a non-negative number to the nearest 64-bit float (53 significant bits).\<close>

definition round_f64 :: "rat \<Rightarrow> rat" where
  "round_f64 q =
     (if q = 0 then 0
      else let e = (if 1 \<le> q then int (flog2 (nat \<lfloor>q\<rfloor>)) else - int (clog2 (nat \<lceil>1 / q\<rceil>)));
               u = pow2 (e - 52)
           in of_int (round_even (q / u)) * u)"

definition Seconds_nonneg :: "duration \<Rightarrow> rat" where
  "Seconds_nonneg d = round_f64 (of_int (d div Second) + round_f64 (of_int (d mod Second) / 1000000000))"

definition int_Seconds :: "duration \<Rightarrow> int" where
  "int_Seconds d = (if d < 0 then - \<lfloor>Seconds_nonneg (- d)\<rfloor> else \<lfloor>Seconds_nonneg d\<rfloor>)"

lemma flog2_le: "0 < n \<Longrightarrow> 2 ^ flog2 n \<le> n"
proof (induction n rule: flog2.induct)
  case (1 n)
  show ?case
  proof (cases "n < 2")
    case True
    with 1 show ?thesis by (simp add: flog2.simps)
  next
    case False
    then have "2 ^ flog2 (n div 2) \<le> n div 2" using 1 by simp
    with False show ?thesis by (subst flog2.simps) auto
  qed
qed

lemma round_even_int [simp]: "round_even (of_int n) = n"
  by (simp add: round_even_def)

lemma round_f64_int:
  assumes "0 \<le> n" "n < 2 ^ 53"
  shows "round_f64 (of_int n) = of_int n"
proof (cases "n = 0")
  case False
  define e where "e = flog2 (nat n)"
  have "2 ^ e \<le> nat n" using flog2_le [of "nat n"] False assms(1) by (simp add: e_def)
  also have "nat n < 2 ^ 53" using assms by (simp add: nat_less_iff)
  finally have "(2 :: nat) ^ e < 2 ^ 53" .
  then have "e < 53" by (rule power_less_imp_less_exp [rotated]) simp
  then have u: "pow2 (int e - 52) = 1 / 2 ^ (52 - e)" by (cases "e = 52") (auto simp: pow2_def nat_diff_distrib)
  have "of_int n / pow2 (int e - 52) = of_int (n * 2 ^ (52 - e))" by (simp add: u)
  then have "of_int (round_even (of_int n / pow2 (int e - 52))) * pow2 (int e - 52) = (of_int n :: rat)"
    by (simp only: round_even_int) (simp add: u)
  moreover have "1 \<le> (of_int n :: rat)" using False assms(1) by simp
  ultimately show ?thesis using False by (simp add: round_f64_def Let_def e_def)
qed (simp add: round_f64_def)

text \<open>A whole number of seconds is exact.\<close>

lemma int_Seconds_whole: "0 \<le> n \<Longrightarrow> n < 2 ^ 53 \<Longrightarrow> int_Seconds (n * Second) = n"
  using round_f64_int [of n] round_f64_int [of 0] by (simp add: int_Seconds_def Seconds_nonneg_def Second_def)

section \<open>ParseDuration\<close>

text \<open>
  \<^verbatim>\<open>leadingInt\<close> and \<^verbatim>\<open>leadingFraction\<close> of package \<^verbatim>\<open>time\<close>: the first refuses a number above
  \<open>2 ^ 63\<close>, the second drops the digits that no longer fit.
\<close>

fun leadingInt :: "nat \<Rightarrow> string \<Rightarrow> (nat \<times> string) option" where
  "leadingInt x [] = Some (x, [])"
| "leadingInt x (c # s) =
     (if \<not> is_digit c then Some (x, c # s)
      else if x > 2 ^ 63 div 10 then None
      else let y = x * 10 + (of_char c - 48) in
           if y > 2 ^ 63 then None else leadingInt y s)"

fun leadingFraction :: "nat \<Rightarrow> nat \<Rightarrow> bool \<Rightarrow> string \<Rightarrow> nat \<times> nat \<times> string" where
  "leadingFraction x scale overflow [] = (x, scale, [])"
| "leadingFraction x scale overflow (c # s) =
     (if \<not> is_digit c then (x, scale, c # s)
      else if overflow \<or> x > (2 ^ 63 - 1) div 10 then leadingFraction x scale True s
      else let y = x * 10 + (of_char c - 48) in
           if y > 2 ^ 63 then leadingFraction x scale True s
           else leadingFraction y (scale * 10) False s)"

text \<open>The unit map; both forms of the micro sign are UTF-8 byte sequences.\<close>

definition unitMap :: "(string \<times> nat) list" where
  "unitMap = [(''ns'', 1), (''us'', 1000), ([CHR 0xC2, CHR 0xB5, CHR ''s''], 1000),
     ([CHR 0xCE, CHR 0xBC, CHR ''s''], 1000), (''ms'', 1000000), (''s'', 1000000000),
     (''m'', 60 * 1000000000), (''h'', 3600 * 1000000000)]"

definition unit_char :: "char \<Rightarrow> bool" where
  "unit_char c \<longleftrightarrow> c \<noteq> CHR ''.'' \<and> \<not> is_digit c"

text \<open>The nanoseconds of the fraction \<open>f / scale\<close> of a unit, rounded as the three float operations round.\<close>

definition fraction_ns :: "nat \<Rightarrow> nat \<Rightarrow> nat \<Rightarrow> nat" where
  "fraction_ns f scale unit = nat \<lfloor>round_f64 (round_f64 (of_nat f) * round_f64 (of_nat unit / of_nat scale))\<rfloor>"

text \<open>The optional fraction: its digits, its scale, the rest, and whether there were any digits.\<close>

definition fraction_part :: "string \<Rightarrow> nat \<times> nat \<times> string \<times> bool" where
  "fraction_part s =
     (case s of
        [] \<Rightarrow> (0, 1, s, False)
      | c # s' \<Rightarrow>
          if c \<noteq> CHR ''.'' then (0, 1, s, False)
          else case leadingFraction 0 1 False s' of (f, scale, r) \<Rightarrow> (f, scale, r, length r \<noteq> length s'))"

text \<open>The value of one number with its unit, and the rest of the text.\<close>

definition duration_part :: "string \<Rightarrow> (nat \<times> string) option" where
  "duration_part s =
     (if s = [] \<or> \<not> (hd s = CHR ''.'' \<or> is_digit (hd s)) then None
      else case leadingInt 0 s of
        None \<Rightarrow> None
      | Some (v, s1) \<Rightarrow>
          (case fraction_part s1 of
             (f, scale, s4, post) \<Rightarrow>
               if length s1 = length s \<and> \<not> post then None
               else let u = takeWhile unit_char s4; rest = dropWhile unit_char s4 in
                 if u = [] then None
                 else case map_of unitMap u of
                   None \<Rightarrow> None
                 | Some unit \<Rightarrow>
                     if v > 2 ^ 63 div unit then None
                     else let v' = v * unit + (if f > 0 then fraction_ns f scale unit else 0) in
                          if f > 0 \<and> v' > 2 ^ 63 then None else Some (v', rest)))"

lemma leadingInt_length: "leadingInt x s = Some (y, r) \<Longrightarrow> length r \<le> length s"
  by (induction x s rule: leadingInt.induct) (auto simp: Let_def split: if_splits)

lemma leadingFraction_length: "leadingFraction x sc ov s = (f, sc', r) \<Longrightarrow> length r \<le> length s"
  by (induction x sc ov s rule: leadingFraction.induct) (fastforce simp: Let_def split: if_splits)+

lemma fraction_part_length: "fraction_part s = (f, scale, r, b) \<Longrightarrow> length r \<le> length s"
  by (auto simp: fraction_part_def dest: leadingFraction_length split: list.splits if_splits prod.splits)

lemma duration_part_length: "duration_part s = Some (v, r) \<Longrightarrow> length r < length s"
proof -
  have unit: "length (dropWhile unit_char t) < length t" if "takeWhile unit_char t \<noteq> []" for t
    using that by (cases t) (auto simp: le_imp_less_Suc length_dropWhile_le split: if_splits)
  assume "duration_part s = Some (v, r)"
  then obtain x s1 f sc t b where "leadingInt 0 s = Some (x, s1)" "fraction_part s1 = (f, sc, t, b)"
      "takeWhile unit_char t \<noteq> []" "r = dropWhile unit_char t"
    by (auto simp: duration_part_def Let_def split: if_splits option.splits prod.splits)
  with unit [of t] leadingInt_length [of 0 s x s1] fraction_part_length [of s1 f sc t b] show ?thesis by simp
qed

text \<open>The loop of \<^verbatim>\<open>ParseDuration\<close>; the sum of two parts may wrap around at 64 bits, as in the source.\<close>

function duration_loop :: "nat \<Rightarrow> string \<Rightarrow> nat option" where
  "duration_loop d s =
     (if s = [] then Some d
      else case duration_part s of
        None \<Rightarrow> None
      | Some (v, r) \<Rightarrow> let d' = (d + v) mod 2 ^ 64 in if d' > 2 ^ 63 then None else duration_loop d' r)"
  by pat_completeness auto
termination by (relation "measure (length \<circ> snd)") (auto dest: duration_part_length)

declare duration_loop.simps [simp del]

definition ParseDuration :: "string \<Rightarrow> duration option" where
  "ParseDuration s =
     (let signed = (s \<noteq> [] \<and> (hd s = CHR ''-'' \<or> hd s = CHR ''+''));
          neg = (signed \<and> hd s = CHR ''-'');
          t = (if signed then tl s else s) in
      if t = ''0'' then Some 0
      else if t = [] then None
      else case duration_loop 0 t of
        None \<Rightarrow> None
      | Some d \<Rightarrow> if neg then Some (- int d) else if d > 2 ^ 63 - 1 then None else Some (int d))"

text \<open>A duration that is parsed fits the 64 bits of a \<^verbatim>\<open>time.Duration\<close>.\<close>

lemma duration_loop_bound: "d \<le> 2 ^ 63 \<Longrightarrow> duration_loop d s = Some e \<Longrightarrow> e \<le> 2 ^ 63"
proof (induction d s rule: duration_loop.induct)
  case (1 d s)
  then show ?case
    by (subst (asm) (2) duration_loop.simps) (auto simp: Let_def split: if_splits option.splits prod.splits)
qed

lemma ParseDuration_bound: "ParseDuration s = Some d \<Longrightarrow> - (2 ^ 63) \<le> d \<and> d < 2 ^ 63"
proof -
  assume "ParseDuration s = Some d"
  moreover have "e \<le> 2 ^ 63" if "duration_loop 0 t = Some e" for t e using duration_loop_bound [OF _ that] by simp
  ultimately show ?thesis
    unfolding ParseDuration_def Let_def by (fastforce split: if_splits option.splits)
qed

text \<open>A printed whole number of a unit is parsed exactly.\<close>

lemma leadingInt_digits:
  assumes "\<forall>c \<in> set ds. is_digit c" "rest = [] \<or> \<not> is_digit (hd rest)"
    and "foldl (\<lambda>a c. a * 10 + (of_char c - 48)) x ds \<le> 2 ^ 63"
  shows "leadingInt x (ds @ rest) = Some (foldl (\<lambda>a c. a * 10 + (of_char c - 48)) x ds, rest)"
  using assms
proof (induction ds arbitrary: x)
  case Nil
  then show ?case by (cases rest) auto
next
  case (Cons c ds)
  have mono: "y \<le> foldl (\<lambda>a c. a * 10 + (of_char c - 48)) y ds" for y :: nat
  proof (induction ds arbitrary: y)
    case (Cons c ds)
    from Cons [of "y * 10 + (of_char c - 48)"] show ?case by simp
  qed simp
  from mono [of "x * 10 + (of_char c - 48)"] Cons.prems(3) have "x * 10 + (of_char c - 48) \<le> 2 ^ 63" by simp
  with Cons show ?case by (auto simp: Let_def)
qed

lemma leadingInt_show_nat:
  "n \<le> 2 ^ 63 \<Longrightarrow> rest = [] \<or> \<not> is_digit (hd rest) \<Longrightarrow> leadingInt 0 (show_nat n @ rest) = Some (n, rest)"
  using leadingInt_digits [of "show_nat n" rest 0] show_nat_digits [of n] nat_of_digits_show_nat [of n]
  by (simp add: nat_of_digits_def)

lemma unitMap_facts:
  assumes "map_of unitMap u = Some k"
  shows "u \<noteq> []" "\<forall>c \<in> set u. unit_char c" "0 < k"
  using assms by (auto simp: unitMap_def unit_char_def is_digit_def split: if_splits)

lemma duration_part_unit:
  assumes u: "map_of unitMap u = Some k" and n: "n * k < 2 ^ 63"
  shows "duration_part (show_nat n @ u) = Some (n * k, [])"
proof -
  note uf = unitMap_facts [OF u]
  obtain c cs where c: "u = c # cs" "c \<noteq> CHR ''.''" "\<not> is_digit c"
    using uf(1,2) by (cases u) (auto simp: unit_char_def)
  obtain d ds where d: "show_nat n = d # ds" "is_digit d"
    using show_nat_nonempty [of n] show_nat_digits [of n] by (cases "show_nat n") auto
  have "n \<le> n * k" using uf(3) by simp
  with n have le: "n \<le> 2 ^ 63" by linarith
  from n uf(3) have "n \<le> 2 ^ 63 div k" by (simp add: less_eq_div_iff_mult_less_eq)
  moreover have "leadingInt 0 (show_nat n @ u) = Some (n, u)" using le c by (simp add: leadingInt_show_nat)
  moreover have "fraction_part u = (0, 1, u, False)" using c by (simp add: fraction_part_def)
  moreover have "takeWhile unit_char u = u" "dropWhile unit_char u = []"
    using uf(2) by (simp_all add: takeWhile_eq_all_conv dropWhile_eq_Nil_conv)
  note unit = this
  ultimately show ?thesis using d u uf(1) by (simp add: duration_part_def Let_def unit del: leadingInt.simps)
qed

lemma ParseDuration_unit:
  assumes u: "map_of unitMap u = Some k" and n: "n * k < 2 ^ 63"
  shows "ParseDuration (show_nat n @ u) = Some (int (n * k))"
proof -
  obtain d ds where d: "show_nat n = d # ds" "is_digit d"
    using show_nat_nonempty [of n] show_nat_digits [of n] by (cases "show_nat n") auto
  then have "d \<noteq> CHR ''-''" "d \<noteq> CHR ''+''" by (auto simp: is_digit_def)
  moreover have "show_nat n @ u \<noteq> ''0''"
    using unitMap_facts(1) [OF u] d by (cases ds) auto
  moreover have "duration_loop 0 (show_nat n @ u) = Some (n * k)"
    using duration_part_unit [OF assms] d n by (subst duration_loop.simps) (simp add: duration_loop.simps)
  ultimately show ?thesis using n d unitMap_facts(1) [OF u] by (simp add: ParseDuration_def Let_def)
qed

end
