(* ===== verification/Cookies.thy ===== *)
theory Cookies
  imports Http_Message Durations
begin

text \<open>
  The refresh cookie of \<^verbatim>\<open>internal/httpserver/httpserver.go\<close>, with \<^verbatim>\<open>net/http\<close>'s rendering of a
  \<^verbatim>\<open>Set-Cookie\<close> header and its parsing of \<^verbatim>\<open>Cookie\<close> headers.
\<close>

section \<open>Set-Cookie\<close>

record cookie =
  ck_Name :: string
  ck_Value :: string
  ck_Path :: string
  ck_MaxAge :: int
  ck_HttpOnly :: bool
  ck_Secure :: bool
  ck_SameSiteStrict :: bool

definition validCookieValueByte :: "char \<Rightarrow> bool" where
  "validCookieValueByte c \<longleftrightarrow> 32 \<le> code c \<and> code c < 127 \<and> c \<noteq> CHR 0x22 \<and> c \<noteq> CHR '';'' \<and> c \<noteq> CHR 0x5C"

definition validCookiePathByte :: "char \<Rightarrow> bool" where
  "validCookiePathByte c \<longleftrightarrow> 32 \<le> code c \<and> code c < 127 \<and> c \<noteq> CHR '';''"

definition sanitizeCookieValue :: "string \<Rightarrow> string" where
  "sanitizeCookieValue v =
     (let v' = filter validCookieValueByte v in
      if CHR '' '' \<in> set v' \<or> CHR '','' \<in> set v' then quoted v' else v')"

definition Cookie_String :: "cookie \<Rightarrow> string" where
  "Cookie_String c =
     ck_Name c @ ''='' @ sanitizeCookieValue (ck_Value c)
     @ (if ck_Path c = [] then [] else ''; Path='' @ filter validCookiePathByte (ck_Path c))
     @ (if ck_MaxAge c > 0 then ''; Max-Age='' @ show_nat (nat (ck_MaxAge c))
        else if ck_MaxAge c < 0 then ''; Max-Age=0'' else [])
     @ (if ck_HttpOnly c then ''; HttpOnly'' else [])
     @ (if ck_Secure c then ''; Secure'' else [])
     @ (if ck_SameSiteStrict c then ''; SameSite=Strict'' else [])"

record server_config =
  sc_BasePath :: string
  sc_CookieSecure :: bool
  sc_RefreshTTL :: duration

definition refreshCookie :: string where
  "refreshCookie = ''ccc_refresh''"

definition cookiePath :: "server_config \<Rightarrow> string" where
  "cookiePath cfg = sc_BasePath cfg @ ''/v1''"

definition setRefreshCookie :: "server_config \<Rightarrow> string \<Rightarrow> (string \<times> string) list" where
  "setRefreshCookie cfg token =
     [(''Set-Cookie'', Cookie_String
        \<lparr>ck_Name = refreshCookie, ck_Value = token, ck_Path = cookiePath cfg,
         ck_MaxAge = int_Seconds (sc_RefreshTTL cfg), ck_HttpOnly = True,
         ck_Secure = sc_CookieSecure cfg, ck_SameSiteStrict = True\<rparr>)]"

definition clearRefreshCookie :: "server_config \<Rightarrow> (string \<times> string) list" where
  "clearRefreshCookie cfg =
     [(''Set-Cookie'', Cookie_String
        \<lparr>ck_Name = refreshCookie, ck_Value = [], ck_Path = cookiePath cfg,
         ck_MaxAge = -1, ck_HttpOnly = True,
         ck_Secure = sc_CookieSecure cfg, ck_SameSiteStrict = True\<rparr>)]"

section \<open>Cookie\<close>

text \<open>\<^verbatim>\<open>readCookies\<close> with a name to look for; \<open>trim_ascii\<close> is \<^verbatim>\<open>textproto.TrimString\<close>.\<close>

definition trim_ascii :: "string \<Rightarrow> string" where
  "trim_ascii s = rev (dropWhile is_ws (rev (dropWhile is_ws s)))"

definition parseCookieValue :: "string \<Rightarrow> string option" where
  "parseCookieValue raw =
     (let v = (if length raw > 1 \<and> hd raw = CHR 0x22 \<and> last raw = CHR 0x22 then butlast (tl raw) else raw)
      in if list_all validCookieValueByte v then Some v else None)"

definition cookie_part :: "string \<Rightarrow> string \<Rightarrow> string list" where
  "cookie_part name part =
     (case (case cut_at CHR ''='' (trim_ascii part) of Some nv \<Rightarrow> nv | None \<Rightarrow> (trim_ascii part, [])) of (n, v) \<Rightarrow>
        if trim_ascii n = name then (case parseCookieValue v of Some x \<Rightarrow> [x] | None \<Rightarrow> []) else [])"

definition cookieMax :: nat where
  "cookieMax = 3000"

definition readCookies :: "string list \<Rightarrow> string \<Rightarrow> string list" where
  "readCookies lines name =
     (if sum_list (map (\<lambda>l. count_list l CHR '';'' + 1) lines) > cookieMax then []
      else concat (map (\<lambda>l. concat (map (cookie_part name) (split_on CHR '';'' (trim_ascii l)))) lines))"

definition readRefreshCookie :: "http_request \<Rightarrow> string" where
  "readRefreshCookie r =
     (case readCookies (map snd (filter (\<lambda>h. fst h = ''Cookie'') (rq_Header r))) refreshCookie of
        [] \<Rightarrow> []
      | v # _ \<Rightarrow> v)"

section \<open>Round trip\<close>

text \<open>What a browser sends back: the name and value of the cookie it was given.\<close>

definition cookie_pair :: "string \<Rightarrow> string" where
  "cookie_pair set_cookie = (case cut_at CHR '';'' set_cookie of None \<Rightarrow> set_cookie | Some (nv, _) \<Rightarrow> nv)"

definition token_chars :: "string \<Rightarrow> bool" where
  "token_chars s \<longleftrightarrow> set s \<subseteq> set url_alphabet"

lemma url_char_ok:
  assumes "c \<in> set url_alphabet"
  shows "validCookieValueByte c" "c \<noteq> CHR '' ''" "c \<noteq> CHR '',''" "c \<noteq> CHR 0x22" "\<not> is_ws c" "c \<noteq> CHR ''=''"
proof -
  have "\<forall>c \<in> set url_alphabet. validCookieValueByte c \<and> c \<noteq> CHR '' '' \<and> c \<noteq> CHR '','' \<and> c \<noteq> CHR 0x22 \<and> \<not> is_ws c \<and>
      c \<noteq> CHR ''=''" by code_simp
  with assms show "validCookieValueByte c" "c \<noteq> CHR '' ''" "c \<noteq> CHR '',''" "c \<noteq> CHR 0x22" "\<not> is_ws c" "c \<noteq> CHR ''=''"
    by blast+
qed

lemma trim_ascii_id: "s \<noteq> [] \<Longrightarrow> \<not> is_ws (hd s) \<Longrightarrow> \<not> is_ws (last s) \<Longrightarrow> trim_ascii s = s"
proof -
  have hd: "dropWhile is_ws s = s" if "s \<noteq> []" "\<not> is_ws (hd s)" for s
    using that by (cases s) auto
  assume s: "s \<noteq> []" "\<not> is_ws (hd s)" "\<not> is_ws (last s)"
  then show ?thesis using hd [of s] hd [of "rev s"] by (simp add: trim_ascii_def hd_rev)
qed

lemma token_read_back:
  assumes "token_chars token" "token \<noteq> []"
  shows "readCookies [refreshCookie @ ''='' @ token] refreshCookie = [token]"
proof -
  let ?l = "refreshCookie @ ''='' @ token"
  have tok: "validCookieValueByte c" "c \<noteq> CHR 0x22" "\<not> is_ws c" "c \<noteq> CHR '';''" if "c \<in> set token" for c
    using that assms(1) url_char_ok [of c] by (auto simp: token_chars_def validCookieValueByte_def)
  have name: "CHR '';'' \<notin> set refreshCookie" "CHR ''='' \<notin> set refreshCookie" "\<not> is_ws (hd refreshCookie)"
    "trim_ascii refreshCookie = refreshCookie" "refreshCookie \<noteq> []" by code_simp+
  have semi: "CHR '';'' \<notin> set ?l" using name tok(4) by auto
  have trim: "trim_ascii ?l = ?l"
    using name assms(2) tok(3) [of "last token"] by (intro trim_ascii_id) auto
  have "parseCookieValue token = Some token"
    using assms(2) tok(1,2) by (auto simp: parseCookieValue_def list_all_iff)
  then have "cookie_part refreshCookie ?l = [token]"
    using name(4) trim cut_at_append [OF name(2), of token] by (simp add: cookie_part_def)
  moreover have "count_list ?l CHR '';'' = 0" using semi by (simp add: count_list_0_iff)
  ultimately show ?thesis using semi trim by (simp add: readCookies_def cookieMax_def split_on_no_sep)
qed

lemma set_cookie_pair:
  assumes "token_chars token"
  shows "\<exists>v. setRefreshCookie cfg token = [(''Set-Cookie'', v)] \<and> cookie_pair v = refreshCookie @ ''='' @ token"
proof -
  have tok: "validCookieValueByte c \<and> c \<noteq> CHR '' '' \<and> c \<noteq> CHR '',''" if "c \<in> set token" for c
    using that assms url_char_ok [of c] by (auto simp: token_chars_def)
  then have id: "sanitizeCookieValue token = token" by (auto simp: sanitizeCookieValue_def Let_def filter_id_conv)
  have "CHR '';'' \<notin> set refreshCookie" by code_simp
  then have semi: "CHR '';'' \<notin> set (refreshCookie @ ''='' @ token)" using tok by (auto simp: validCookieValueByte_def)
  define rest where "rest = '' Path='' @ filter validCookiePathByte (cookiePath cfg)
     @ (if int_Seconds (sc_RefreshTTL cfg) > 0 then ''; Max-Age='' @ show_nat (nat (int_Seconds (sc_RefreshTTL cfg)))
        else if int_Seconds (sc_RefreshTTL cfg) < 0 then ''; Max-Age=0'' else [])
     @ ''; HttpOnly'' @ (if sc_CookieSecure cfg then ''; Secure'' else []) @ ''; SameSite=Strict''"
  have "setRefreshCookie cfg token = [(''Set-Cookie'', (refreshCookie @ ''='' @ token) @ CHR '';'' # rest)]"
    by (simp add: setRefreshCookie_def Cookie_String_def id cookiePath_def rest_def)
  then show ?thesis using cut_at_append [OF semi, of rest] by (simp add: cookie_pair_def)
qed

lemma NewRefreshToken_chars:
  assumes "NewRefreshToken E w = (Inr (token, h), w')"
  shows "token_chars token" "token \<noteq> []"
proof -
  obtain f where tok: "token = b64_encode RawURLEncoding (map f [0..<32])"
    using assms by (auto simp: NewRefreshToken_def rand_read_def Let_def split: option.splits)
  have "set token \<subseteq> set url_alphabet"
    using b64_encode_chars [OF good_encodings(4), of "map f [0..<32]"] unfolding tok by (auto simp: RawURLEncoding_def)
  then show "token_chars token" by (simp add: token_chars_def)
  have "length token = 43" using b64_encode_raw_length [of RawURLEncoding "map f [0..<32]"] unfolding tok
    by (simp add: RawURLEncoding_def)
  then show "token \<noteq> []" by auto
qed

end
