(* ===== verification/Rate_Limiter.thy ===== *)
theory Rate_Limiter
  imports Prelude
begin

text \<open>
  The rate limiter of \<^verbatim>\<open>internal/httpserver/middleware.go\<close>: a fixed-window counter per key.
  \<open>allow_at\<close> is the body of \<^verbatim>\<open>allow\<close> with the two clock readings as arguments; \<open>allow\<close> takes
  them from the clock of the world. The mutex makes a call atomic, so a sequence of calls is
  a list. Main facts: a key is never admitted more often than the limit between two resets,
  and never more often than twice the limit in any span of time as long as the window.
\<close>

record rateLimiter =
  rl_limit :: int
  rl_window :: duration
  rl_counts :: "(string \<times> int) list"
  rl_reset :: instant

definition count_of :: "(string \<times> int) list \<Rightarrow> string \<Rightarrow> int" where
  "count_of m k = (case map_of m k of None \<Rightarrow> 0 | Some n \<Rightarrow> n)"

definition bump :: "string \<Rightarrow> (string \<times> int) list \<Rightarrow> (string \<times> int) list" where
  "bump k m = AList.update k (count_of m k + 1) m"

definition newRateLimiter :: "int \<Rightarrow> duration \<Rightarrow> 'd world \<Rightarrow> rateLimiter \<times> 'd world" where
  "newRateLimiter limit window w =
     (case time_now w of (now, w1) \<Rightarrow>
        (\<lparr>rl_limit = limit, rl_window = window, rl_counts = [], rl_reset = now + window\<rparr>, w1))"

definition roll :: "instant \<Rightarrow> instant \<Rightarrow> rateLimiter \<Rightarrow> rateLimiter" where
  "roll now now' l = (if now > rl_reset l then l\<lparr>rl_counts := [], rl_reset := now' + rl_window l\<rparr> else l)"

definition allow_at :: "instant \<Rightarrow> instant \<Rightarrow> rateLimiter \<Rightarrow> string list \<Rightarrow> bool \<times> rateLimiter" where
  "allow_at now now' l keys =
     (let l1 = roll now now' l in
      if list_ex (\<lambda>k. count_of (rl_counts l1) k \<ge> rl_limit l1) keys then (False, l1)
      else (True, l1\<lparr>rl_counts := fold bump keys (rl_counts l1)\<rparr>))"

definition allow :: "rateLimiter \<Rightarrow> string list \<Rightarrow> 'd world \<Rightarrow> (bool \<times> rateLimiter) \<times> 'd world" where
  "allow l keys w =
     (case time_now w of (now, w1) \<Rightarrow>
        if now > rl_reset l
        then (case time_now w1 of (now', w2) \<Rightarrow> (allow_at now now' l keys, w2))
        else (allow_at now now l keys, w1))"

section \<open>One call\<close>

lemma count_list_distinct: "distinct keys \<Longrightarrow> count_list keys k = (if k \<in> set keys then 1 else 0)"
  by (induction keys) auto

lemma count_of_bump: "count_of (bump k m) j = count_of m j + (if j = k then 1 else 0)"
  by (simp add: bump_def count_of_def update_conv')

lemma count_of_bumps: "count_of (fold bump keys m) j = count_of m j + int (count_list keys j)"
  by (induction keys arbitrary: m) (simp_all add: count_of_bump)

lemma count_of_Nil [simp]: "count_of [] k = 0"
  by (simp add: count_of_def)

lemma roll_fields [simp]: "rl_limit (roll now now' l) = rl_limit l" "rl_window (roll now now' l) = rl_window l"
  by (simp_all add: roll_def)

lemma allow_at_fields [simp]:
  "rl_limit (snd (allow_at now now' l keys)) = rl_limit l" "rl_window (snd (allow_at now now' l keys)) = rl_window l"
  "rl_reset (snd (allow_at now now' l keys)) = rl_reset (roll now now' l)"
  by (simp_all add: allow_at_def Let_def)

text \<open>Who is admitted, and what an admitted and a refused call leave behind.\<close>

lemma allow_at_admits:
  "fst (allow_at now now' l keys) \<longleftrightarrow> (\<forall>k \<in> set keys. count_of (rl_counts (roll now now' l)) k < rl_limit l)"
  by (auto simp: allow_at_def Let_def list_ex_iff simp flip: not_le)

lemma allow_at_counts:
  "count_of (rl_counts (snd (allow_at now now' l keys))) k =
     count_of (rl_counts (roll now now' l)) k + (if fst (allow_at now now' l keys) then int (count_list keys k) else 0)"
  by (simp add: allow_at_def Let_def count_of_bumps)

text \<open>\<open>under_limit\<close>: no count exceeds the limit. Every call keeps it, if it names a key at most once.\<close>

definition under_limit :: "rateLimiter \<Rightarrow> bool" where
  "under_limit l \<longleftrightarrow> 0 \<le> rl_limit l \<and> (\<forall>k. 0 \<le> count_of (rl_counts l) k \<and> count_of (rl_counts l) k \<le> rl_limit l)"

lemma under_limit_roll: "under_limit l \<Longrightarrow> under_limit (roll now now' l)"
  by (simp add: under_limit_def roll_def)

lemma under_limit_allow:
  assumes "under_limit l" "distinct keys"
  shows "under_limit (snd (allow_at now now' l keys))"
proof -
  let ?l = "roll now now' l"
  have l: "under_limit ?l" using assms(1) by (rule under_limit_roll)
  have "count_of (rl_counts (snd (allow_at now now' l keys))) k \<le> rl_limit l" for k
  proof (cases "fst (allow_at now now' l keys) \<and> k \<in> set keys")
    case True
    then have "count_of (rl_counts ?l) k < rl_limit l" using allow_at_admits by blast
    then show ?thesis using True count_list_distinct [OF assms(2), of k] by (simp add: allow_at_counts)
  next
    case False
    then have "(if fst (allow_at now now' l keys) then int (count_list keys k) else 0) = 0"
      by (auto simp: count_list_0_iff)
    with l show ?thesis by (simp only: allow_at_counts) (simp add: under_limit_def)
  qed
  moreover have "0 \<le> count_of (rl_counts (snd (allow_at now now' l keys))) k" for k
    using l by (simp add: allow_at_counts under_limit_def)
  ultimately show ?thesis using l by (simp add: under_limit_def)
qed

section \<open>Sequences of calls\<close>

type_synonym call = "instant \<times> instant \<times> string list"

fun allow_trace :: "rateLimiter \<Rightarrow> call list \<Rightarrow> (instant \<times> string list \<times> bool) list" where
  "allow_trace l [] = []"
| "allow_trace l ((now, now', keys) # cs) =
     (now, keys, fst (allow_at now now' l keys)) # allow_trace (snd (allow_at now now' l keys)) cs"

text \<open>
  The clock does not run backwards: the readings of the calls are in order. And no call names a
  key twice: the callers pass one key, or two with the different prefixes \<^verbatim>\<open>ip:\<close> and \<^verbatim>\<open>user:\<close>.
\<close>

fun in_order :: "instant \<Rightarrow> call list \<Rightarrow> bool" where
  "in_order t [] = True"
| "in_order t ((now, now', keys) # cs) \<longleftrightarrow> t \<le> now \<and> now \<le> now' \<and> distinct keys \<and> in_order now' cs"

definition admitted_in :: "string \<Rightarrow> instant \<Rightarrow> instant \<Rightarrow> (instant \<times> string list \<times> bool) list \<Rightarrow> int" where
  "admitted_in k a b tr = int (length (filter (\<lambda>(t, keys, ok). ok \<and> k \<in> set keys \<and> a \<le> t \<and> t \<le> b) tr))"

lemma admitted_in_Nil [simp]: "admitted_in k a b [] = 0"
  by (simp add: admitted_in_def)

lemma admitted_in_Cons:
  "admitted_in k a b ((t, keys, ok) # tr) =
     (if ok \<and> k \<in> set keys \<and> a \<le> t \<and> t \<le> b then 1 else 0) + admitted_in k a b tr"
  by (simp add: admitted_in_def)

lemma in_order_mono: "in_order t cs \<Longrightarrow> s \<le> t \<Longrightarrow> in_order s cs"
  by (cases cs) auto

lemma admitted_late: "in_order t cs \<Longrightarrow> b < t \<Longrightarrow> admitted_in k a b (allow_trace l cs) = 0"
proof (induction l cs arbitrary: t rule: allow_trace.induct)
  case (2 l now now' keys cs)
  then have "admitted_in k a b (allow_trace (snd (allow_at now now' l keys)) cs) = 0" by auto
  with 2 show ?case by (auto simp: admitted_in_Cons)
qed simp

text \<open>Up to the next reset a key is admitted at most as often as its count is below the limit.\<close>

lemma admitted_before_reset:
  assumes "in_order t cs" "under_limit l" "b \<le> rl_reset l"
  shows "admitted_in k a b (allow_trace l cs) \<le> rl_limit l - count_of (rl_counts l) k"
  using assms
proof (induction l cs arbitrary: t rule: allow_trace.induct)
  case (1 l)
  then show ?case by (simp add: under_limit_def)
next
  case (2 l now now' keys cs)
  let ?l = "snd (allow_at now now' l keys)"
  show ?case
  proof (cases "now \<le> b")
    case True
    then have same: "roll now now' l = l" using 2 by (simp add: roll_def)
    have "under_limit ?l" using 2 by (intro under_limit_allow) auto
    then have "admitted_in k a b (allow_trace ?l cs) \<le> rl_limit ?l - count_of (rl_counts ?l) k"
      using 2 same by (intro "2.IH" [of now']) auto
    then show ?thesis
      using same allow_at_counts [of now now' l keys k] count_list_0_iff [of keys k]
      by (auto simp: admitted_in_Cons split: if_splits)
  next
    case False
    then have "admitted_in k a b (allow_trace ?l cs) = 0" using 2 by (intro admitted_late [of now']) auto
    with False 2 show ?thesis by (simp add: admitted_in_Cons under_limit_def)
  qed
qed

lemma admitted_from:
  assumes "in_order t cs" "under_limit l" "a \<le> t" "b \<le> a + rl_window l"
  shows "admitted_in k a b (allow_trace l cs) \<le> rl_limit l - count_of (rl_counts l) k + rl_limit l"
  using assms
proof (induction l cs arbitrary: t rule: allow_trace.induct)
  case (1 l)
  then have "0 \<le> rl_limit l" "count_of (rl_counts l) k \<le> rl_limit l" by (simp_all add: under_limit_def)
  then show ?case by simp
next
  case (2 l now now' keys cs)
  let ?l = "snd (allow_at now now' l keys)"
  have w: "under_limit ?l" using 2 by (intro under_limit_allow) auto
  have cnt: "0 \<le> rl_limit l - count_of (rl_counts l) k" using 2 by (simp add: under_limit_def)
  show ?case
  proof (cases "now > rl_reset l")
    case True
    then have r: "roll now now' l = l\<lparr>rl_counts := [], rl_reset := now' + rl_window l\<rparr>" by (simp add: roll_def)
    have "admitted_in k a b (allow_trace ?l cs) \<le> rl_limit ?l - count_of (rl_counts ?l) k"
      using 2 w r by (intro admitted_before_reset [of now']) auto
    then show ?thesis
      using r cnt allow_at_counts [of now now' l keys k] count_list_0_iff [of keys k]
      by (auto simp: admitted_in_Cons split: if_splits)
  next
    case False
    then have same: "roll now now' l = l" by (simp add: roll_def)
    have "admitted_in k a b (allow_trace ?l cs) \<le> rl_limit ?l - count_of (rl_counts ?l) k + rl_limit ?l"
      using 2 w by (intro "2.IH" [of now']) auto
    then show ?thesis
      using same allow_at_counts [of now now' l keys k] count_list_0_iff [of keys k]
      by (auto simp: admitted_in_Cons split: if_splits)
  qed
qed

lemma admitted_span:
  assumes "in_order t cs" "under_limit l" "b \<le> a + rl_window l"
  shows "admitted_in k a b (allow_trace l cs) \<le> 2 * rl_limit l"
  using assms
proof (induction l cs arbitrary: t rule: allow_trace.induct)
  case (1 l)
  then show ?case by (simp add: under_limit_def)
next
  case (2 l now now' keys cs)
  let ?l = "snd (allow_at now now' l keys)"
  show ?case
  proof (cases "a \<le> now")
    case True
    have "in_order now ((now, now', keys) # cs)" using 2 by auto
    from admitted_from [OF this 2(3) True 2(4), of k] 2(3) show ?thesis
      unfolding under_limit_def by (smt (verit, best))
  next
    case False
    have "under_limit ?l" using 2 by (intro under_limit_allow) auto
    then have "admitted_in k a b (allow_trace ?l cs) \<le> 2 * rl_limit ?l" using 2 by (intro "2.IH" [of now']) auto
    with False show ?thesis by (simp add: admitted_in_Cons)
  qed
qed

lemma under_limit_new: "0 \<le> limit \<Longrightarrow> under_limit (fst (newRateLimiter limit window w))"
  by (simp add: under_limit_def newRateLimiter_def time_now_def)

section \<open>A reference\<close>

text \<open>The same decisions, taken by counting the calls admitted in the current window.\<close>

fun ref_trace :: "int \<Rightarrow> duration \<Rightarrow> instant \<Rightarrow> string list list \<Rightarrow> call list \<Rightarrow> (instant \<times> string list \<times> bool) list" where
  "ref_trace limit window until adm [] = []"
| "ref_trace limit window until adm ((now, now', keys) # cs) =
     (let adm1 = (if now > until then [] else adm);
          until1 = (if now > until then now' + window else until);
          ok = (\<forall>k \<in> set keys. int (length (filter (\<lambda>ks. k \<in> set ks) adm1)) < limit)
      in (now, keys, ok) # ref_trace limit window until1 (if ok then keys # adm1 else adm1) cs)"

lemma allow_trace_ref:
  assumes "in_order t cs" "\<forall>k. count_of (rl_counts l) k = int (length (filter (\<lambda>ks. k \<in> set ks) adm))"
  shows "allow_trace l cs = ref_trace (rl_limit l) (rl_window l) (rl_reset l) adm cs"
  using assms
proof (induction l cs arbitrary: t adm rule: allow_trace.induct)
  case (2 l now now' keys cs)
  let ?l = "snd (allow_at now now' l keys)"
  define A where "A = (if now > rl_reset l then [] else adm)"
  define ok where "ok \<longleftrightarrow> (\<forall>k \<in> set keys. int (length (filter (\<lambda>ks. k \<in> set ks) A)) < rl_limit l)"
  have c: "count_of (rl_counts (roll now now' l)) k = int (length (filter (\<lambda>ks. k \<in> set ks) A))" for k
    using 2(3) by (simp add: roll_def A_def)
  have adm: "fst (allow_at now now' l keys) = ok" by (simp add: allow_at_admits c ok_def)
  have dist: "distinct keys" "in_order now' cs" using 2(2) by auto
  have "count_of (rl_counts ?l) k = int (length (filter (\<lambda>ks. k \<in> set ks) (if ok then keys # A else A)))" for k
    by (cases ok) (simp_all add: allow_at_counts adm c count_list_distinct [OF dist(1)])
  with "2.IH" [OF dist(2)]
  have "allow_trace ?l cs = ref_trace (rl_limit ?l) (rl_window ?l) (rl_reset ?l) (if ok then keys # A else A) cs" by blast
  then show ?case by (simp add: adm Let_def flip: A_def ok_def) (simp add: roll_def)
qed simp

section \<open>Properties\<close>

text \<open>
  C18. However many requests arrive, and whatever other keys they name, a key is admitted at
  most twice the limit in any span of time as long as the window, and at most the limit in
  the window that starts with the limiter itself; provided that the clock does not run
  backwards and no call names a key twice.
\<close>

theorem rate_limiter_bound:
  assumes "newRateLimiter limit window w = (l, w')" "0 \<le> limit" "in_order (shd (clock w)) cs"
  shows "admitted_in k a (a + window) (allow_trace l cs) \<le> 2 * limit \<and>
    admitted_in k a (shd (clock w) + window) (allow_trace l cs) \<le> limit"
proof -
  have l: "under_limit l" "rl_limit l = limit" "rl_window l = window" "rl_reset l = shd (clock w) + window" "rl_counts l = []"
    using under_limit_new [OF assms(2), of window w] assms(1) by (auto simp: newRateLimiter_def time_now_def)
  show ?thesis
    using admitted_span [OF assms(3) l(1), of "a + window" a k]
      admitted_before_reset [OF assms(3) l(1), of "shd (clock w) + window" k a] l by simp
qed

theorem rate_limiter_bound_witness:
  "admitted_in ''ip:a'' 5 (5 + 60) (allow_trace (fst (newRateLimiter 1 60 \<lparr>db = (), clock = sconst 0, entropy = sconst None,
     uuids = sconst None, logs = []\<rparr>)) [(5, 5, [''ip:a'']), (6, 6, [''ip:a'']), (62, 62, [''ip:a''])]) \<le> 2 * 1"
  by (rule rate_limiter_bound [OF surjective_pairing, THEN conjunct1]) simp_all

text \<open>
  C19. The counters are exactly what they stand for: the limiter decides every call of a
  sequence like a reference that keeps the key lists of the calls admitted in the current
  window and counts in it. A call is refused if and only if one of its keys occurs in as many
  of them as the limit allows, and a refused call leaves no trace. The clock is assumed not to
  run backwards, and no call to name a key twice.
\<close>

theorem rate_limiter_counts:
  assumes "newRateLimiter limit window w = (l, w')" "in_order (shd (clock w)) cs"
  shows "allow_trace l cs = ref_trace limit window (shd (clock w) + window) [] cs"
  using allow_trace_ref [OF assms(2), of l "[]"] assms(1) by (auto simp: newRateLimiter_def time_now_def)

theorem rate_limiter_counts_witness:
  "allow_trace (fst (newRateLimiter 1 60 \<lparr>db = (), clock = sconst 0, entropy = sconst None, uuids = sconst None, logs = []\<rparr>))
     [(5, 5, [''ip:a'']), (6, 6, [''ip:b'', ''ip:a'']), (7, 7, [''ip:b''])] =
   [(5, [''ip:a''], True), (6, [''ip:b'', ''ip:a''], False), (7, [''ip:b''], True)]"
  by (subst rate_limiter_counts [OF surjective_pairing]) simp_all

end
