(* ===== verification/Http_Server.thy ===== *)
theory Http_Server
  imports Service Cookies Rate_Limiter
begin

text \<open>
  \<^verbatim>\<open>internal/httpserver\<close>: the middleware, the handlers and the routes of the REST API, one
  definition per handler. The state of a running server is the world of the service and the
  two rate limiters; a handler maps a request and that state to an outcome and a new state.
  A panic or an endless loop below a handler (\<open>abrupt\<close>) yields no response.
\<close>

record 'd Server =
  srv_svc :: "'d Service"
  srv_tokens :: TokenIssuer
  srv_cfg :: server_config

record 'd serving =
  sv_world :: "'d world"
  sv_login :: rateLimiter
  sv_refresh :: rateLimiter

type_synonym 'd handler = "http_request \<Rightarrow> 'd serving \<Rightarrow> outcome \<times> 'd serving"

definition reply_err :: "err \<Rightarrow> response \<Rightarrow> outcome" where
  "reply_err e resp = (if abrupt e then Aborted else Reply resp)"

section \<open>Middleware\<close>

definition requireAuth :: "'x ext_scheme \<Rightarrow> 'd Server \<Rightarrow> (Claims \<Rightarrow> 'd handler) \<Rightarrow> 'd handler" where
  "requireAuth E s nxt r st =
     (case cut_prefix ''Bearer '' (Header_Get r ''Authorization'') of
        None \<Rightarrow> (Reply (writeProblem [] 401 ''Missing bearer token'' []), st)
      | Some token \<Rightarrow>
          if token = [] then (Reply (writeProblem [] 401 ''Missing bearer token'' []), st)
          else (case TokenIssuer_Verify E (srv_tokens s) token (sv_world st) of
             (Inl e, w1) \<Rightarrow> (reply_err e (writeProblem [] 401 ''Invalid or expired token'' []), st\<lparr>sv_world := w1\<rparr>)
           | (Inr claims, w1) \<Rightarrow> nxt claims r (st\<lparr>sv_world := w1\<rparr>)))"

definition requireAdmin :: "'x ext_scheme \<Rightarrow> 'd Server \<Rightarrow> 'd handler \<Rightarrow> 'd handler" where
  "requireAdmin E s nxt =
     requireAuth E s (\<lambda>claims r st.
       if ''admin'' \<notin> set (cl_Roles claims) then (Reply (writeProblem [] 403 ''Admin role required'' []), st)
       else nxt r st)"

definition userIDFrom :: "'x ext_scheme \<Rightarrow> Claims \<Rightarrow> uuid option" where
  "userIDFrom E claims = uuid_Parse E (cl_Subject claims)"

section \<open>Keys and sessions\<close>

definition JWK_json :: "JWK \<Rightarrow> json" where
  "JWK_json k = JObj [(''kty'', JStr (jwk_Kty k)), (''crv'', JStr (jwk_Crv k)), (''x'', JStr (jwk_X k)),
                      (''kid'', JStr (jwk_Kid k)), (''use'', JStr (jwk_Use k)), (''alg'', JStr (jwk_Alg k))]"

definition handleJWKS :: "'d Server \<Rightarrow> 'd handler" where
  "handleJWKS s r st =
     (Reply (writeJSON [(''Cache-Control'', ''public, max-age=300'')] 200
        (JObj [(''keys'', JArr (map JWK_json (JWKS (srv_tokens s))))])), st)"

definition handleLogin :: "'x ext_scheme \<Rightarrow> 'd Server \<Rightarrow> 'd handler" where
  "handleLogin E s r st =
     (case decodeJSON [''username'', ''password''] r of
        Inl resp \<Rightarrow> (Reply resp, st)
      | Inr body \<Rightarrow>
          (case allow (sv_login st) [''ip:'' @ clientIP r, ''user:'' @ str_field body ''username''] (sv_world st) of
             ((ok, l), w1) \<Rightarrow>
               if \<not> ok then
                 (Reply (writeProblem [] 429 ''Too many login attempts'' ''Try again in a minute.''),
                  st\<lparr>sv_world := w1, sv_login := l\<rparr>)
               else
                 (case Login E (srv_svc s) (str_field body ''username'') (str_field body ''password'') (UserAgent r) w1 of
                    (Inl e, w2) \<Rightarrow>
                      (reply_err e
                         (if e = ErrInvalidCredentials then writeProblem [] 401 ''Invalid credentials'' []
                          else if e = ErrAccountDisabled then writeProblem [] 403 ''Account disabled'' []
                          else writeProblem [] 500 ''Login failed'' []),
                       st\<lparr>sv_world := w2, sv_login := l\<rparr>)
                  | (Inr sess, w2) \<Rightarrow>
                      (Reply (writeJSON (setRefreshCookie (srv_cfg s) (ss_RefreshToken sess)) 200
                         (JObj [(''access_token'', JStr (ss_AccessToken sess)),
                                (''must_change_password'', JBool (ss_MustChange sess)),
                                (''user'', JObj (toUserJSON E (ss_User sess)))])),
                       st\<lparr>sv_world := w2, sv_login := l\<rparr>))))"

definition handleRefresh :: "'x ext_scheme \<Rightarrow> 'd Server \<Rightarrow> 'd handler" where
  "handleRefresh E s r st =
     (case allow (sv_refresh st) [''ip:'' @ clientIP r] (sv_world st) of
        ((ok, l), w1) \<Rightarrow>
          let st1 = st\<lparr>sv_world := w1, sv_refresh := l\<rparr>; token = readRefreshCookie r in
          if \<not> ok then (Reply (writeProblem [] 429 ''Too many requests'' []), st1)
          else if token = [] then (Reply (writeProblem [] 401 ''No session'' []), st1)
          else (case Refresh E (srv_svc s) token w1 of
             (Inl e, w2) \<Rightarrow>
               (reply_err e (writeProblem (clearRefreshCookie (srv_cfg s)) 401 ''Session expired'' []), st1\<lparr>sv_world := w2\<rparr>)
           | (Inr sess, w2) \<Rightarrow>
               (Reply (writeJSON (setRefreshCookie (srv_cfg s) (ss_RefreshToken sess)) 200
                  (JObj [(''access_token'', JStr (ss_AccessToken sess))])),
                st1\<lparr>sv_world := w2\<rparr>)))"

definition handleLogout :: "'x ext_scheme \<Rightarrow> 'd Server \<Rightarrow> 'd handler" where
  "handleLogout E s r st =
     (let token = readRefreshCookie r; done204 = Reply (writeHeader (clearRefreshCookie (srv_cfg s)) 204) in
      if token = [] then (done204, st)
      else (case Logout E (srv_svc s) token (sv_world st) of
         (Inl e, w1) \<Rightarrow> (reply_err e (writeProblem [] 500 ''Logout failed'' []), st\<lparr>sv_world := w1\<rparr>)
       | (Inr _, w1) \<Rightarrow> (done204, st\<lparr>sv_world := w1\<rparr>)))"

section \<open>The caller's own account\<close>

definition currentUser :: "'x ext_scheme \<Rightarrow> 'd Server \<Rightarrow> Claims \<Rightarrow> 'd serving \<Rightarrow> (outcome + User) \<times> 'd serving" where
  "currentUser E s claims st =
     (case userIDFrom E claims of
        None \<Rightarrow> (Inl (Reply (writeProblem [] 401 ''Invalid token subject'' [])), st)
      | Some i \<Rightarrow>
          (case Service_GetUser (srv_svc s) i (sv_world st) of
             (Inl e, w1) \<Rightarrow> (Inl (reply_err e (writeProblem [] 401 ''Unknown user'' [])), st\<lparr>sv_world := w1\<rparr>)
           | (Inr u, w1) \<Rightarrow> (Inr u, st\<lparr>sv_world := w1\<rparr>)))"

definition handleMe :: "'x ext_scheme \<Rightarrow> 'd Server \<Rightarrow> Claims \<Rightarrow> 'd handler" where
  "handleMe E s claims r st =
     (case currentUser E s claims st of
        (Inl out, st1) \<Rightarrow> (out, st1)
      | (Inr u, st1) \<Rightarrow> (Reply (writeJSON [] 200 (JObj (toUserJSON E u))), st1))"

definition handleUpdateMe :: "'x ext_scheme \<Rightarrow> 'd Server \<Rightarrow> Claims \<Rightarrow> 'd handler" where
  "handleUpdateMe E s claims r st =
     (case currentUser E s claims st of
        (Inl out, st1) \<Rightarrow> (out, st1)
      | (Inr u, st1) \<Rightarrow>
          (case decodeJSON [''display_name''] r of
             Inl resp \<Rightarrow> (Reply resp, st1)
           | Inr body \<Rightarrow>
               if str_field body ''display_name'' = []
               then (Reply (writeProblem [] 400 ''display_name is required'' []), st1)
               else (case UpdateProfile (srv_svc s) (u_ID u) (str_field body ''display_name'') (sv_world st1) of
                  (Inl e, w2) \<Rightarrow> (reply_err e (writeProblem [] 500 ''Update failed'' []), st1\<lparr>sv_world := w2\<rparr>)
                | (Inr u', w2) \<Rightarrow> (Reply (writeJSON [] 200 (JObj (toUserJSON E u'))), st1\<lparr>sv_world := w2\<rparr>))))"

definition handleChangePassword :: "'x ext_scheme \<Rightarrow> 'd Server \<Rightarrow> Claims \<Rightarrow> 'd handler" where
  "handleChangePassword E s claims r st =
     (case currentUser E s claims st of
        (Inl out, st1) \<Rightarrow> (out, st1)
      | (Inr u, st1) \<Rightarrow>
          (case decodeJSON [''current_password'', ''new_password''] r of
             Inl resp \<Rightarrow> (Reply resp, st1)
           | Inr body \<Rightarrow>
               if length (str_field body ''new_password'') < 12
               then (Reply (writeProblem [] 400 ''Password too short'' ''At least 12 characters.''), st1)
               else (case CurrentSessionID E (srv_svc s) (readRefreshCookie r) (sv_world st1) of (keep, w2) \<Rightarrow>
                 (case ChangePassword E (srv_svc s) (u_ID u) (str_field body ''current_password'')
                         (str_field body ''new_password'') keep w2 of
                    (Inl e, w3) \<Rightarrow>
                      (reply_err e (if e = ErrInvalidCredentials then writeProblem [] 401 ''Wrong current password'' []
                                    else writeProblem [] 500 ''Password change failed'' []), st1\<lparr>sv_world := w3\<rparr>)
                  | (Inr _, w3) \<Rightarrow> (Reply (writeHeader [] 204), st1\<lparr>sv_world := w3\<rparr>)))))"

definition sessionJSON :: "'x ext_scheme \<Rightarrow> SessionInfo \<Rightarrow> json" where
  "sessionJSON E si =
     JObj [(''id'', JStr (uuid_String E (si_ID si))),
           (''device_name'', case si_DeviceName si of None \<Rightarrow> JNull | Some d \<Rightarrow> JStr d),
           (''issued_at'', JStr (rfc3339 (si_IssuedAt si))), (''expires_at'', JStr (rfc3339 (si_ExpiresAt si))),
           (''current'', JBool (si_Current si))]"

definition handleListSessions :: "'x ext_scheme \<Rightarrow> 'd Server \<Rightarrow> Claims \<Rightarrow> 'd handler" where
  "handleListSessions E s claims r st =
     (case currentUser E s claims st of
        (Inl out, st1) \<Rightarrow> (out, st1)
      | (Inr u, st1) \<Rightarrow>
          (case CurrentSessionID E (srv_svc s) (readRefreshCookie r) (sv_world st1) of (current, w2) \<Rightarrow>
             (case ListSessions (srv_svc s) (u_ID u) current w2 of
                (Inl e, w3) \<Rightarrow> (reply_err e (writeProblem [] 500 ''Could not list sessions'' []), st1\<lparr>sv_world := w3\<rparr>)
              | (Inr sessions, w3) \<Rightarrow>
                  (Reply (writeJSON [] 200 (JObj [(''sessions'', JArr (map (sessionJSON E) sessions))])),
                   st1\<lparr>sv_world := w3\<rparr>))))"

definition handleRevokeSession :: "'x ext_scheme \<Rightarrow> 'd Server \<Rightarrow> string \<Rightarrow> Claims \<Rightarrow> 'd handler" where
  "handleRevokeSession E s path_id claims r st =
     (case currentUser E s claims st of
        (Inl out, st1) \<Rightarrow> (out, st1)
      | (Inr u, st1) \<Rightarrow>
          (case uuid_Parse E path_id of
             None \<Rightarrow> (Reply (writeProblem [] 400 ''Malformed session id'' []), st1)
           | Some sessionID \<Rightarrow>
               (case RevokeSession (srv_svc s) (u_ID u) sessionID (sv_world st1) of
                  (Inl e, w2) \<Rightarrow>
                    (reply_err e (if e = ErrNotFound then writeProblem [] 404 ''No such session'' []
                                  else writeProblem [] 500 ''Revoke failed'' []), st1\<lparr>sv_world := w2\<rparr>)
                | (Inr _, w2) \<Rightarrow> (Reply (writeHeader [] 204), st1\<lparr>sv_world := w2\<rparr>))))"

section \<open>User management\<close>

definition validRole :: "string \<Rightarrow> bool" where
  "validRole role \<longleftrightarrow> role = RoleAdmin \<or> role = RoleMember"

definition handleCreateUser :: "'x ext_scheme \<Rightarrow> 'd Server \<Rightarrow> 'd handler" where
  "handleCreateUser E s r st =
     (case decodeJSON [''username'', ''display_name'', ''role''] r of
        Inl resp \<Rightarrow> (Reply resp, st)
      | Inr body \<Rightarrow>
          let username = str_field body ''username''; displayName = str_field body ''display_name'';
              role = str_field body ''role'' in
          if username = [] \<or> displayName = [] \<or> \<not> validRole role then
            (Reply (writeProblem [] 400 ''Invalid user fields''
               ''username, display_name, and role (admin|member) are required.''), st)
          else (case Service_CreateUser E (srv_svc s) username displayName role (sv_world st) of
             (Inl e, w1) \<Rightarrow>
               (reply_err e (if e = ErrDuplicateUsername then writeProblem [] 409 ''Username already taken'' []
                             else writeProblem [] 500 ''Create failed'' []), st\<lparr>sv_world := w1\<rparr>)
           | (Inr (u, temp), w1) \<Rightarrow>
               (Reply (writeJSON [] 201 (JObj (toUserJSON E u @ [(''temporary_password'', JStr temp)]))),
                st\<lparr>sv_world := w1\<rparr>)))"

definition handleListUsers :: "'x ext_scheme \<Rightarrow> 'd Server \<Rightarrow> 'd handler" where
  "handleListUsers E s r st =
     (case Service_ListUsers (srv_svc s) (sv_world st) of
        (Inl e, w1) \<Rightarrow> (reply_err e (writeProblem [] 500 ''Could not list users'' []), st\<lparr>sv_world := w1\<rparr>)
      | (Inr users, w1) \<Rightarrow>
          (Reply (writeJSON [] 200 (JObj [(''users'', JArr (map (\<lambda>u. JObj (toUserJSON E u)) users))])),
           st\<lparr>sv_world := w1\<rparr>))"

definition handleUpdateUser :: "'x ext_scheme \<Rightarrow> 'd Server \<Rightarrow> string \<Rightarrow> 'd handler" where
  "handleUpdateUser E s path_id r st =
     (case uuid_Parse E path_id of
        None \<Rightarrow> (Reply (writeProblem [] 400 ''Malformed user id'' []), st)
      | Some i \<Rightarrow>
          (case decodeJSON [''display_name'', ''role'', ''status''] r of
             Inl resp \<Rightarrow> (Reply resp, st)
           | Inr body \<Rightarrow>
               let role = ptr_field body ''role''; status = ptr_field body ''status'' in
               if (case role of None \<Rightarrow> False | Some x \<Rightarrow> \<not> validRole x)
               then (Reply (writeProblem [] 400 ''Invalid role'' []), st)
               else if (case status of None \<Rightarrow> False | Some x \<Rightarrow> x \<noteq> StatusActive \<and> x \<noteq> StatusDisabled)
               then (Reply (writeProblem [] 400 ''Invalid status'' []), st)
               else (case Service_UpdateUser (srv_svc s)
                       \<lparr>sp_ID = i, sp_DisplayName = ptr_field body ''display_name'', sp_Role = role, sp_Status = status\<rparr>
                       (sv_world st) of
                  (Inl e, w1) \<Rightarrow>
                    (reply_err e (if e = ErrNotFound then writeProblem [] 404 ''No such user'' []
                                  else writeProblem [] 500 ''Update failed'' []), st\<lparr>sv_world := w1\<rparr>)
                | (Inr u, w1) \<Rightarrow> (Reply (writeJSON [] 200 (JObj (toUserJSON E u))), st\<lparr>sv_world := w1\<rparr>))))"

definition handleResetPassword :: "'x ext_scheme \<Rightarrow> 'd Server \<Rightarrow> string \<Rightarrow> 'd handler" where
  "handleResetPassword E s path_id r st =
     (case uuid_Parse E path_id of
        None \<Rightarrow> (Reply (writeProblem [] 400 ''Malformed user id'' []), st)
      | Some i \<Rightarrow>
          (case ResetPassword E (srv_svc s) i (sv_world st) of
             (Inl e, w1) \<Rightarrow>
               (reply_err e (if e = ErrNotFound then writeProblem [] 404 ''No such user'' []
                             else writeProblem [] 500 ''Reset failed'' []), st\<lparr>sv_world := w1\<rparr>)
           | (Inr temp, w1) \<Rightarrow>
               (Reply (writeJSON [] 200 (JObj [(''temporary_password'', JStr temp)])), st\<lparr>sv_world := w1\<rparr>)))"

end
