(* ===== verification/Url_Escape.thy ===== *)
theory Url_Escape
  imports Json_Body
begin

text \<open>
  Percent-encoding as Go's \<^verbatim>\<open>net/url\<close> does it: \<^verbatim>\<open>escape\<close> with the modes the sources use (host,
  user information, path) and \<^verbatim>\<open>unescape\<close>. Main facts: decoding inverts encoding in every mode,
  and the characters that delimit the parts of a URL do not survive in user information.
\<close>

section \<open>Decoding\<close>

fun percent_decode :: "string \<Rightarrow> string option" where
  "percent_decode [] = Some []"
| "percent_decode (c # cs) =
     (if c = CHR ''%'' then
        (case cs of
           a # b # rest \<Rightarrow>
             (case (hex_val a, hex_val b) of
                (Some x, Some y) \<Rightarrow> map_option ((#) (char_of (16 * x + y))) (percent_decode rest)
              | _ \<Rightarrow> None)
         | _ \<Rightarrow> None)
      else map_option ((#) c) (percent_decode cs))"

section \<open>Encoding\<close>

datatype url_mode = encodeHost | encodeUserPassword | encodePath

definition url_alnum :: "char \<Rightarrow> bool" where
  "url_alnum c \<longleftrightarrow> 97 \<le> code c \<and> code c \<le> 122 \<or> 65 \<le> code c \<and> code c \<le> 90 \<or> 48 \<le> code c \<and> code c \<le> 57"

definition shouldEscape :: "char \<Rightarrow> url_mode \<Rightarrow> bool" where
  "shouldEscape c mode =
     (if url_alnum c then False
      else if mode = encodeHost \<and> c \<in> set (''!$&'' @ [CHR 0x27] @ ''()*+,;=:[]<>'' @ [CHR 0x22]) then False
      else if c \<in> set ''-_.~'' then False
      else if c \<in> set ''$&+,/:;=?@'' \<and> mode = encodePath then c = CHR ''?''
      else if c \<in> set ''$&+,/:;=?@'' \<and> mode = encodeUserPassword
      then c = CHR ''@'' \<or> c = CHR ''/'' \<or> c = CHR ''?'' \<or> c = CHR '':''
      else True)"

definition upperhex :: "nat \<Rightarrow> char" where
  "upperhex n = ''0123456789ABCDEF'' ! n"

definition escape :: "url_mode \<Rightarrow> string \<Rightarrow> string" where
  "escape mode s =
     concat (map (\<lambda>c. if shouldEscape c mode then [CHR ''%'', upperhex (code c div 16), upperhex (code c mod 16)]
                     else [c]) s)"

lemma escape_Nil [simp]: "escape mode [] = []"
  by (simp add: escape_def)

lemma escape_Cons:
  "escape mode (c # s) =
     (if shouldEscape c mode then CHR ''%'' # upperhex (code c div 16) # upperhex (code c mod 16) # escape mode s
      else c # escape mode s)"
  by (simp add: escape_def)

lemma upperhex_facts:
  assumes "n < 16"
  shows "hex_val (upperhex n) = Some n" "url_alnum (upperhex n)"
proof -
  have "n \<in> {0,1,2,3,4,5,6,7,8,9,10,11,12,13,14,15}" unfolding insert_iff empty_iff using assms by presburger
  then show "hex_val (upperhex n) = Some n" "url_alnum (upperhex n)"
    by (elim insertE; simp add: upperhex_def hex_val_def url_alnum_def)+
qed

lemma code_less: "code c < 256"
  by (metis nat_of_char_less_256)

lemma percent_escaped: "shouldEscape CHR ''%'' mode"
  by (simp add: shouldEscape_def url_alnum_def)

text \<open>Decoding inverts encoding.\<close>

lemma percent_decode_escape: "percent_decode (escape mode s) = Some s"
proof (induction s)
  case (Cons c s)
  have "code c div 16 < 16" "code c mod 16 < 16" using code_less [of c] by (simp_all add: less_mult_imp_div_less)
  then have "hex_val (upperhex (code c div 16)) = Some (code c div 16)"
    "hex_val (upperhex (code c mod 16)) = Some (code c mod 16)" by (simp_all add: upperhex_facts)
  moreover have "char_of (16 * (code c div 16) + code c mod 16) = c" by simp
  moreover have "\<not> shouldEscape c mode \<Longrightarrow> c \<noteq> CHR ''%''" using percent_escaped by blast
  ultimately show ?case using Cons by (simp add: escape_Cons)
qed simp

text \<open>An encoded text holds percent signs, letters, digits and the characters its mode leaves alone.\<close>

lemma escape_chars:
  assumes "x \<in> set (escape mode s)"
  shows "x = CHR ''%'' \<or> \<not> shouldEscape x mode"
proof -
  have alnum: "\<not> shouldEscape (upperhex n) mode" if "n < 16" for n
    using upperhex_facts(2) [OF that] by (simp add: shouldEscape_def)
  have "code c div 16 < 16" "code c mod 16 < 16" for c using code_less [of c] by (simp_all add: less_mult_imp_div_less)
  with alnum have hex: "\<not> shouldEscape (upperhex (code c div 16)) mode" "\<not> shouldEscape (upperhex (code c mod 16)) mode" for c
    by blast+
  from assms show ?thesis
    by (induction s) (auto simp: escape_Cons hex split: if_splits)
qed

lemma escape_plain: "\<forall>c \<in> set s. \<not> shouldEscape c mode \<Longrightarrow> escape mode s = s"
  by (induction s) (simp_all add: escape_Cons)

lemma escape_free: "\<forall>c \<in> set D. shouldEscape c mode \<Longrightarrow> CHR ''%'' \<notin> set D \<Longrightarrow> set (escape mode s) \<inter> set D = {}"
  using escape_chars by blast

lemma escape_userinfo_free: "set (escape encodeUserPassword s) \<inter> set ''@/:?#'' = {}"
  by (rule escape_free) (simp_all add: shouldEscape_def url_alnum_def)

lemma escape_path_free: "set (escape encodePath s) \<inter> set ''?#'' = {}"
  by (rule escape_free) (simp_all add: shouldEscape_def url_alnum_def)

lemma escape_host_free: "set (escape encodeHost s) \<inter> set ''@/?#'' = {}"
  by (rule escape_free) (simp_all add: shouldEscape_def url_alnum_def)

end
