(* ===== verification/Http_Routes.thy ===== *)
theory Http_Routes
  imports Http_Server Url_Escape
begin

text \<open>
  The route table of \<^verbatim>\<open>httpserver.New\<close> and the part of \<^verbatim>\<open>http.ServeMux\<close> that it uses: cleaning of
  the path, matching segment by segment after percent-decoding, wildcards for one segment,
  404 and 405. The base path is assumed to be empty or an absolute, clean path without
  wildcards, as the configuration documents it.
\<close>

section \<open>Paths\<close>

definition pathUnescape :: "string \<Rightarrow> string" where
  "pathUnescape s = (case percent_decode s of None \<Rightarrow> s | Some t \<Rightarrow> t)"

text \<open>\<^verbatim>\<open>path.Clean\<close> of an absolute path, on its segments, and \<^verbatim>\<open>cleanPath\<close>, which keeps a final slash.\<close>

definition clean_segs :: "string list \<Rightarrow> string list" where
  "clean_segs segs = rev (foldl (\<lambda>acc x. if x = [] \<or> x = ''.'' then acc else if x = ''..'' then tl acc else x # acc) [] segs)"

definition cleanPath :: "string \<Rightarrow> string" where
  "cleanPath p =
     (if p = [] then ''/''
      else let q = (if hd p = CHR ''/'' then p else CHR ''/'' # p);
               np = CHR ''/'' # join_with CHR ''/'' (clean_segs (split_on CHR ''/'' q))
           in if last q = CHR ''/'' \<and> np \<noteq> ''/'' then np @ ''/'' else np)"

text \<open>The segments of a path in the order \<^verbatim>\<open>firstSegment\<close> yields them; a final slash is a segment of its own.\<close>

function path_segs :: "string \<Rightarrow> string list" where
  "path_segs [] = []"
| "path_segs (c # cs) =
     (if cs = [] then [[c]]
      else pathUnescape (takeWhile (\<lambda>x. x \<noteq> CHR ''/'') cs) # path_segs (dropWhile (\<lambda>x. x \<noteq> CHR ''/'') cs))"
  by pat_completeness auto
termination by (relation "measure length") (auto simp: le_imp_less_Suc length_dropWhile_le)

section \<open>Routes\<close>

datatype route =
    RJWKS | RLogin | RRefresh | RLogout
  | RMe | RUpdateMe | RChangePassword | RListSessions | RRevokeSession
  | RCreateUser | RListUsers | RUpdateUser | RResetPassword

datatype pat = Lit string | Wild

definition route_table :: "(string \<times> pat list \<times> route) list" where
  "route_table =
     [(''GET'', [Lit ''.well-known'', Lit ''jwks.json''], RJWKS),
      (''POST'', [Lit ''v1'', Lit ''auth'', Lit ''login''], RLogin),
      (''POST'', [Lit ''v1'', Lit ''auth'', Lit ''refresh''], RRefresh),
      (''POST'', [Lit ''v1'', Lit ''auth'', Lit ''logout''], RLogout),
      (''GET'', [Lit ''v1'', Lit ''me''], RMe),
      (''PATCH'', [Lit ''v1'', Lit ''me''], RUpdateMe),
      (''PUT'', [Lit ''v1'', Lit ''me'', Lit ''password''], RChangePassword),
      (''GET'', [Lit ''v1'', Lit ''me'', Lit ''sessions''], RListSessions),
      (''DELETE'', [Lit ''v1'', Lit ''me'', Lit ''sessions'', Wild], RRevokeSession),
      (''POST'', [Lit ''v1'', Lit ''users''], RCreateUser),
      (''GET'', [Lit ''v1'', Lit ''users''], RListUsers),
      (''PATCH'', [Lit ''v1'', Lit ''users'', Wild], RUpdateUser),
      (''POST'', [Lit ''v1'', Lit ''users'', Wild, Lit ''reset-password''], RResetPassword)]"

text \<open>The values of the wildcards, if the segments match.\<close>

fun match_segs :: "pat list \<Rightarrow> string list \<Rightarrow> string list option" where
  "match_segs [] [] = Some []"
| "match_segs (Lit l # ps) (x # xs) = (if l = x then match_segs ps xs else None)"
| "match_segs (Wild # ps) (x # xs) = (if x = ''/'' then None else map_option ((#) x) (match_segs ps xs))"
| "match_segs _ _ = None"

definition method_matches :: "string \<Rightarrow> string \<Rightarrow> bool" where
  "method_matches pm m \<longleftrightarrow> pm = m \<or> pm = ''GET'' \<and> m = ''HEAD''"

definition base_pats :: "string \<Rightarrow> pat list" where
  "base_pats b = map Lit (path_segs b)"

definition matching :: "string \<Rightarrow> string \<Rightarrow> (string \<times> route \<times> string list) list" where
  "matching b path =
     List.map_filter (\<lambda>(m, ps, rt). map_option (\<lambda>vs. (m, rt, vs)) (match_segs (base_pats b @ ps) (path_segs path))) route_table"

definition find_route :: "string \<Rightarrow> string \<Rightarrow> string \<Rightarrow> (route \<times> string list) option" where
  "find_route b m path = map_option snd (find (\<lambda>(pm, _). method_matches pm m) (matching b path))"

text \<open>The methods a 405 response lists, in order.\<close>

definition all_methods :: "string list" where
  "all_methods = [''DELETE'', ''GET'', ''HEAD'', ''PATCH'', ''POST'', ''PUT'']"

definition allowed_methods :: "string \<Rightarrow> string \<Rightarrow> string list" where
  "allowed_methods b path = filter (\<lambda>m. list_ex (\<lambda>(pm, _). method_matches pm m) (matching b path)) all_methods"

definition comma_join :: "string list \<Rightarrow> string" where
  "comma_join xs = concat (map2 (@) ([] # replicate (length xs - 1) '', '') xs)"

definition http_Error :: "(string \<times> string) list \<Rightarrow> string \<Rightarrow> int \<Rightarrow> response" where
  "http_Error hs msg status =
     \<lparr>rs_Status = status,
      rs_Header = hs @ [(''Content-Type'', ''text/plain; charset=utf-8''), (''X-Content-Type-Options'', ''nosniff'')],
      rs_Body = TextBody (msg @ [CHR 0x0A])\<rparr>"

section \<open>The server\<close>

definition arg :: "string list \<Rightarrow> string" where
  "arg vs = (case vs of [] \<Rightarrow> [] | v # _ \<Rightarrow> v)"

definition handler_of :: "'x ext_scheme \<Rightarrow> 'd Server \<Rightarrow> route \<Rightarrow> string list \<Rightarrow> 'd handler" where
  "handler_of E s rt vs =
     (case rt of
        RJWKS \<Rightarrow> handleJWKS s
      | RLogin \<Rightarrow> handleLogin E s
      | RRefresh \<Rightarrow> handleRefresh E s
      | RLogout \<Rightarrow> handleLogout E s
      | RMe \<Rightarrow> requireAuth E s (handleMe E s)
      | RUpdateMe \<Rightarrow> requireAuth E s (handleUpdateMe E s)
      | RChangePassword \<Rightarrow> requireAuth E s (handleChangePassword E s)
      | RListSessions \<Rightarrow> requireAuth E s (handleListSessions E s)
      | RRevokeSession \<Rightarrow> requireAuth E s (handleRevokeSession E s (arg vs))
      | RCreateUser \<Rightarrow> requireAdmin E s (handleCreateUser E s)
      | RListUsers \<Rightarrow> requireAdmin E s (handleListUsers E s)
      | RUpdateUser \<Rightarrow> requireAdmin E s (handleUpdateUser E s (arg vs))
      | RResetPassword \<Rightarrow> requireAdmin E s (handleResetPassword E s (arg vs)))"

definition no_body :: "http_request \<Rightarrow> outcome \<Rightarrow> outcome" where
  "no_body r out = (case out of Reply resp \<Rightarrow> Reply (if rq_Method r = ''HEAD'' then resp\<lparr>rs_Body := NoBody\<rparr> else resp) | x \<Rightarrow> x)"

text \<open>An unclean path is redirected; the handler does not run, and the response is the library's.\<close>

definition ServeHTTP :: "'x ext_scheme \<Rightarrow> 'd Server \<Rightarrow> 'd handler" where
  "ServeHTTP E s r st =
     (let b = sc_BasePath (srv_cfg s); connect = (rq_Method r = ''CONNECT'');
          path = (if connect then rq_Path r else cleanPath (rq_Path r)) in
      if path \<noteq> rq_Path r then (Redirected, st)
      else (case find_route b (rq_Method r) path of
         Some (rt, vs) \<Rightarrow> (case handler_of E s rt vs r st of (out, st1) \<Rightarrow> (no_body r out, st1))
       | None \<Rightarrow>
           (no_body r (Reply (if allowed_methods b path \<noteq> []
              then http_Error [(''Allow'', comma_join (allowed_methods b path))] ''Method Not Allowed'' 405
              else http_Error [] ''404 page not found'' 404)), st)))"

text \<open>A clean path with a route runs its handler.\<close>

lemma ServeHTTP_routed:
  assumes "rq_Method r = ''CONNECT'' \<or> cleanPath (rq_Path r) = rq_Path r"
    and "find_route (sc_BasePath (srv_cfg s)) (rq_Method r) (rq_Path r) = Some (rt, vs)"
  shows "ServeHTTP E s r st = (no_body r (fst (handler_of E s rt vs r st)), snd (handler_of E s rt vs r st))"
  using assms by (auto simp: ServeHTTP_def Let_def split: prod.splits)

definition New :: "'d Service \<Rightarrow> TokenIssuer \<Rightarrow> server_config \<Rightarrow> 'd world \<Rightarrow> 'd Server \<times> 'd serving" where
  "New svc tokens cfg w =
     (case newRateLimiter 10 Minute w of (ll, w1) \<Rightarrow>
        (case newRateLimiter 60 Minute w1 of (rl, w2) \<Rightarrow>
           (\<lparr>srv_svc = svc, srv_tokens = tokens, srv_cfg = cfg\<lparr>sc_BasePath := trim_suffix (sc_BasePath cfg) ''/''\<rparr>\<rparr>,
            \<lparr>sv_world = w2, sv_login = ll, sv_refresh = rl\<rparr>)))"

end
