(* ===== verification/Http_Laws.thy ===== *)
theory Http_Laws
  imports User_Frames Http_Routes
begin

text \<open>
  The REST API over a store that keeps its contract: every request is safe (it is a run of
  the abstract store, so the invariants of the service hold after it), requests outside user
  management leave the standing of the users alone, and protected routes do nothing without a
  valid token.
\<close>

text \<open>
  \<open>quiet\<close>: nothing but the clock and the log can have changed. \<open>modest\<close>: safe, and the
  standing of the users is as before. \<open>ready\<close>: the state in which a request finds the store.
\<close>

definition quiet :: "('d \<Rightarrow> astore) \<Rightarrow> ('d \<Rightarrow> bool) \<Rightarrow> 'd world \<Rightarrow> 'd world \<Rightarrow> bool" where
  "quiet view iv w w' \<longleftrightarrow> iv (db w') \<and> view (db w') = view (db w) \<and> entropy w' = entropy w \<and> uuids w' = uuids w"

definition modest :: "('d \<Rightarrow> astore) \<Rightarrow> ('d \<Rightarrow> bool) \<Rightarrow> 'd world \<Rightarrow> 'd world \<Rightarrow> bool" where
  "modest view iv w w' \<longleftrightarrow> safe view iv w w' \<and> standing (view (db w')) = standing (view (db w))"

definition ready :: "('d \<Rightarrow> astore) \<Rightarrow> ('d \<Rightarrow> bool) \<Rightarrow> (uuid \<Rightarrow> (uuid \<rightharpoonup> User) \<Rightarrow> bool) \<Rightarrow>
    (uuid \<Rightarrow> bytes \<Rightarrow> (uuid \<rightharpoonup> RefreshToken) \<Rightarrow> bool) \<Rightarrow> 'x ext_scheme \<Rightarrow> 'd world \<Rightarrow> bool" where
  "ready view iv fu fr E w \<longleftrightarrow> iv (db w) \<and> linked (view (db w)) \<and>
     (\<forall>i. shd (uuids w) = Some i \<longrightarrow> fu i (a_users (view (db w)))) \<and> fresh_draws fr E w (a_toks (view (db w)))"

lemma quiet_trans: "quiet view iv w w1 \<Longrightarrow> quiet view iv w1 w2 \<Longrightarrow> quiet view iv w w2"
  by (simp add: quiet_def)

lemma quiet_ready: "quiet view iv w w' \<Longrightarrow> ready view iv fu fr E w \<Longrightarrow> ready view iv fu fr E w'"
  by (simp add: quiet_def ready_def fresh_draws_def)

lemma quiet_modest: "quiet view iv w w' \<Longrightarrow> modest view iv w w'"
  by (simp add: quiet_def modest_def safe_def)

lemma modest_after_quiet: "quiet view iv w w1 \<Longrightarrow> modest view iv w1 w2 \<Longrightarrow> modest view iv w w2"
  by (simp add: quiet_def modest_def safe_def)

lemma safe_after_quiet: "quiet view iv w w1 \<Longrightarrow> safe view iv w1 w2 \<Longrightarrow> safe view iv w w2"
  by (simp add: quiet_def safe_def)

lemma modest_safe: "modest view iv w w' \<Longrightarrow> safe view iv w w'"
  by (simp add: modest_def)

lemma ready_iv: "ready view iv fu fr E w \<Longrightarrow> iv (db w)"
  by (simp add: ready_def)

lemma quiet_refl: "iv (db w) \<Longrightarrow> quiet view iv w w"
  by (simp add: quiet_def)

lemma allow_quiet: "allow l ks w = (x, w') \<Longrightarrow> iv (db w) \<Longrightarrow> quiet view iv w w'"
  by (auto simp: allow_def time_now_def quiet_def split: if_splits)

lemma token_Verify_quiet: "TokenIssuer_Verify E t token w = (x, w') \<Longrightarrow> iv (db w) \<Longrightarrow> quiet view iv w w'"
  by (auto simp: TokenIssuer_Verify_def time_now_def quiet_def split: sum.splits)

text \<open>What a bearer token has to be to pass the middleware.\<close>

definition bearer :: "'x ext_scheme \<Rightarrow> 'd Server \<Rightarrow> http_request \<Rightarrow> 'd world \<Rightarrow> Claims option" where
  "bearer E s r w =
     (case cut_prefix ''Bearer '' (Header_Get r ''Authorization'') of
        None \<Rightarrow> None
      | Some token \<Rightarrow> if token = [] then None else
          (case fst (TokenIssuer_Verify E (srv_tokens s) token w) of Inl e \<Rightarrow> None | Inr claims \<Rightarrow> Some claims))"

lemma requireAuth_None:
  assumes "bearer E s r (sv_world st) = None" "iv (db (sv_world st))"
  shows "\<exists>title w'. requireAuth E s nxt r st = (Reply (writeProblem [] 401 title []), st\<lparr>sv_world := w'\<rparr>) \<and>
    quiet view iv (sv_world st) w'"
proof (cases "cut_prefix ''Bearer '' (Header_Get r ''Authorization'')")
  case None
  with assms(2) show ?thesis
    by (intro exI [of _ "''Missing bearer token''"] exI [of _ "sv_world st"]) (simp add: requireAuth_def quiet_refl)
next
  case (Some token)
  show ?thesis
  proof (cases "token = []")
    case True
    with Some assms(2) show ?thesis
      by (intro exI [of _ "''Missing bearer token''"] exI [of _ "sv_world st"]) (simp add: requireAuth_def quiet_refl)
  next
    case False
    obtain x w1 where v: "TokenIssuer_Verify E (srv_tokens s) token (sv_world st) = (x, w1)" by fastforce
    with Some False assms(1) obtain e where e: "x = Inl e" by (cases x) (auto simp: bearer_def)
    have "\<not> abrupt e" using v e by (auto simp: TokenIssuer_Verify_def time_now_def split: sum.splits)
    with Some False v e token_Verify_quiet [where iv = iv and view = view, OF v assms(2)] show ?thesis
      by (intro exI [of _ "''Invalid or expired token''"] exI [of _ w1]) (simp add: requireAuth_def reply_err_def)
  qed
qed

lemma requireAuth_Some:
  assumes "bearer E s r (sv_world st) = Some claims" "iv (db (sv_world st))"
  shows "\<exists>w'. requireAuth E s nxt r st = nxt claims r (st\<lparr>sv_world := w'\<rparr>) \<and> quiet view iv (sv_world st) w'"
proof -
  from assms(1) obtain token where tok: "cut_prefix ''Bearer '' (Header_Get r ''Authorization'') = Some token" "token \<noteq> []"
    by (auto simp: bearer_def split: option.splits if_splits)
  obtain x w1 where v: "TokenIssuer_Verify E (srv_tokens s) token (sv_world st) = (x, w1)" by fastforce
  then have "x = Inr claims" using assms(1) tok by (auto simp: bearer_def split: sum.splits)
  with tok v token_Verify_quiet [where iv = iv and view = view, OF v assms(2)] show ?thesis by (auto simp: requireAuth_def)
qed

text \<open>Admin routes: nothing happens without the admin role; with it the handler runs.\<close>

definition admin_bearer :: "'x ext_scheme \<Rightarrow> 'd Server \<Rightarrow> http_request \<Rightarrow> 'd world \<Rightarrow> bool" where
  "admin_bearer E s r w \<longleftrightarrow> (\<exists>claims. bearer E s r w = Some claims \<and> ''admin'' \<in> set (cl_Roles claims))"

lemma requireAdmin_None:
  assumes "bearer E s r (sv_world st) = None" "iv (db (sv_world st))"
  shows "\<exists>title w'. requireAdmin E s nxt r st = (Reply (writeProblem [] 401 title []), st\<lparr>sv_world := w'\<rparr>) \<and>
    quiet view iv (sv_world st) w'"
  unfolding requireAdmin_def by (rule requireAuth_None [where iv = iv, OF assms])

lemma requireAdmin_Some:
  assumes "bearer E s r (sv_world st) = Some claims" "iv (db (sv_world st))"
  shows "\<exists>w'. requireAdmin E s nxt r st =
      (if ''admin'' \<notin> set (cl_Roles claims) then (Reply (writeProblem [] 403 ''Admin role required'' []), st\<lparr>sv_world := w'\<rparr>)
       else nxt r (st\<lparr>sv_world := w'\<rparr>)) \<and> quiet view iv (sv_world st) w'"
  unfolding requireAdmin_def by (rule requireAuth_Some [where iv = iv, OF assms])

lemma requireAdmin_refused:
  assumes "\<not> admin_bearer E s r (sv_world st)" "iv (db (sv_world st))"
  shows "\<exists>status title w'. requireAdmin E s nxt r st = (Reply (writeProblem [] status title []), st\<lparr>sv_world := w'\<rparr>) \<and>
    status \<in> {401, 403} \<and> quiet view iv (sv_world st) w'"
proof (cases "bearer E s r (sv_world st)")
  case None
  obtain title w' where "requireAdmin E s nxt r st = (Reply (writeProblem [] 401 title []), st\<lparr>sv_world := w'\<rparr>)"
      "quiet view iv (sv_world st) w'"
    using requireAdmin_None [where view = view and iv = iv and nxt = nxt, OF None assms(2)] by blast
  then show ?thesis by (intro exI [of _ 401] exI [of _ title] exI [of _ w']) simp
next
  case (Some claims)
  with assms(1) have no: "''admin'' \<notin> set (cl_Roles claims)" by (simp add: admin_bearer_def)
  obtain w' where "requireAdmin E s nxt r st = (Reply (writeProblem [] 403 ''Admin role required'' []), st\<lparr>sv_world := w'\<rparr>)"
      "quiet view iv (sv_world st) w'"
    using requireAdmin_Some [where view = view and iv = iv and nxt = nxt, OF Some assms(2)] no by auto
  then show ?thesis by (intro exI [of _ 403] exI [of _ "''Admin role required''"] exI [of _ w']) simp
qed

lemma requireAdmin_passed:
  assumes "admin_bearer E s r (sv_world st)" "iv (db (sv_world st))"
  shows "\<exists>w'. requireAdmin E s nxt r st = nxt r (st\<lparr>sv_world := w'\<rparr>) \<and> quiet view iv (sv_world st) w'"
proof -
  obtain claims where c: "bearer E s r (sv_world st) = Some claims" "''admin'' \<in> set (cl_Roles claims)"
    using assms(1) by (auto simp: admin_bearer_def)
  then show ?thesis using requireAdmin_Some [where view = view and iv = iv and nxt = nxt, OF c(1) assms(2)] by simp
qed

section \<open>Sequences of requests\<close>

fun serve_http :: "'x ext_scheme \<Rightarrow> 'd Server \<Rightarrow> http_request list \<Rightarrow> 'd serving \<Rightarrow> 'd serving" where
  "serve_http E s [] st = st"
| "serve_http E s (r # rs) st = serve_http E s rs (snd (ServeHTTP E s r st))"

fun http_draws_ok :: "(uuid \<Rightarrow> (uuid \<rightharpoonup> User) \<Rightarrow> bool) \<Rightarrow> (uuid \<Rightarrow> bytes \<Rightarrow> (uuid \<rightharpoonup> RefreshToken) \<Rightarrow> bool) \<Rightarrow>
    ('d \<Rightarrow> astore) \<Rightarrow> 'x ext_scheme \<Rightarrow> 'd Server \<Rightarrow> http_request list \<Rightarrow> 'd serving \<Rightarrow> bool" where
  "http_draws_ok fu fr view E s [] st = True"
| "http_draws_ok fu fr view E s (r # rs) st \<longleftrightarrow>
     (\<forall>i. shd (uuids (sv_world st)) = Some i \<longrightarrow> fu i (a_users (view (db (sv_world st))))) \<and>
     fresh_draws fr E (sv_world st) (a_toks (view (db (sv_world st)))) \<and>
     http_draws_ok fu fr view E s rs (snd (ServeHTTP E s r st))"

lemma http_draws_ok_True: "http_draws_ok (\<lambda>_ _. True) (\<lambda>_ _ _. True) view E s rs st"
  by (induction rs arbitrary: st) (auto simp: fresh_draws_def)

context store_contract begin

lemma read_only_quiet: "read_only view iv w r w' \<Longrightarrow> quiet view iv w w'"
  using read_onlyD by (auto simp: quiet_def)

lemma undisturbed_quiet: "undisturbed view iv w r w' \<Longrightarrow> quiet view iv w w'"
  using undisturbedD by (auto simp: quiet_def)

lemma CurrentSessionID_quiet:
  assumes "s_store s = S" "iv (db w)" "CurrentSessionID E s refreshToken w = (c, w')"
  shows "quiet view iv w w'"
proof -
  obtain r1 w1 where get: "st_GetRefreshTokenByHash S (HashRefreshToken E refreshToken) w = (r1, w1)" by fastforce
  note ro1 = read_only_quiet [OF reads(6) [OF assms(2) get]]
  have "db w' = db w \<and> entropy w' = entropy w \<and> uuids w' = uuids w \<or>
      db w' = db w1 \<and> entropy w' = entropy w1 \<and> uuids w' = uuids w1"
    using assms get by (auto simp: CurrentSessionID_def time_now_def split: if_splits sum.splits)
  with ro1 assms(2) show ?thesis by (auto simp: quiet_def)
qed

lemma currentUser_quiet:
  assumes "s_store (srv_svc s) = S" "iv (db (sv_world st))" "currentUser E s claims st = (x, st1)"
  shows "quiet view iv (sv_world st) (sv_world st1) \<and> sv_login st1 = sv_login st \<and> sv_refresh st1 = sv_refresh st"
proof (cases "userIDFrom E claims")
  case None
  with assms show ?thesis by (auto simp: currentUser_def quiet_refl)
next
  case (Some i)
  obtain r w1 where gu: "st_GetUser S i (sv_world st) = (r, w1)" by fastforce
  with Some assms read_only_quiet [OF reads(1) [OF assms(2) gu]] show ?thesis
    by (auto simp: currentUser_def Service_GetUser_def split: sum.splits)
qed

section \<open>Handlers outside user management\<close>

lemma handleLogin_modest:
  assumes "s_store (srv_svc s) = S" "ready view iv fu fr E (sv_world st)"
  shows "modest view iv (sv_world st) (sv_world (snd (handleLogin E s r st)))"
proof (cases "decodeJSON [''username'', ''password''] r")
  case (Inl resp)
  with assms show ?thesis by (simp add: handleLogin_def quiet_modest quiet_refl ready_iv)
next
  case (Inr body)
  obtain ok l w1 where al: "allow (sv_login st) [''ip:'' @ clientIP r, ''user:'' @ str_field body ''username''] (sv_world st) = ((ok, l), w1)"
    by (metis prod.collapse)
  note q = allow_quiet [where iv = iv and view = view, OF al ready_iv [OF assms(2)]]
  obtain r2 w2 where lg: "Login E (srv_svc s) (str_field body ''username'') (str_field body ''password'') (UserAgent r) w1 = (r2, w2)"
    by fastforce
  have rd: "ready view iv fu fr E w1" using quiet_ready [OF q assms(2)] .
  then have "modest view iv w1 w2"
    using Login_safe [OF assms(1) _ _ lg] Login_standing [OF assms(1) _ _ lg] by (simp add: modest_def ready_def)
  moreover have "sv_world (snd (handleLogin E s r st)) = w1 \<or> sv_world (snd (handleLogin E s r st)) = w2"
    using Inr al lg by (auto simp: handleLogin_def split: sum.splits)
  ultimately show ?thesis using quiet_modest [OF q] modest_after_quiet [OF q] by auto
qed

lemma handleRefresh_modest:
  assumes "s_store (srv_svc s) = S" "ready view iv fu fr E (sv_world st)"
  shows "modest view iv (sv_world st) (sv_world (snd (handleRefresh E s r st)))"
proof -
  obtain ok l w1 where al: "allow (sv_refresh st) [''ip:'' @ clientIP r] (sv_world st) = ((ok, l), w1)"
    by (metis prod.collapse)
  note q = allow_quiet [where iv = iv and view = view, OF al ready_iv [OF assms(2)]]
  obtain r2 w2 where rf: "Refresh E (srv_svc s) (readRefreshCookie r) w1 = (r2, w2)" by fastforce
  have rd: "ready view iv fu fr E w1" using quiet_ready [OF q assms(2)] .
  then have "modest view iv w1 w2"
    using Refresh_safe [OF assms(1) _ _ _ rf] Refresh_standing [OF assms(1) _ _ _ rf] by (simp add: modest_def ready_def)
  moreover have "sv_world (snd (handleRefresh E s r st)) = w1 \<or> sv_world (snd (handleRefresh E s r st)) = w2"
    using al rf by (auto simp: handleRefresh_def Let_def split: sum.splits)
  ultimately show ?thesis using quiet_modest [OF q] modest_after_quiet [OF q] by auto
qed

lemma handleLogout_modest:
  assumes "s_store (srv_svc s) = S" "ready view iv fu fr E (sv_world st)"
  shows "modest view iv (sv_world st) (sv_world (snd (handleLogout E s r st)))"
proof -
  obtain r1 w1 where lo: "Logout E (srv_svc s) (readRefreshCookie r) (sv_world st) = (r1, w1)" by fastforce
  have "modest view iv (sv_world st) w1"
    using Logout_safe [OF assms(1) _ lo] Logout_standing [OF assms(1) _ lo] ready_iv [OF assms(2)] by (simp add: modest_def)
  moreover have "sv_world (snd (handleLogout E s r st)) = sv_world st \<or> sv_world (snd (handleLogout E s r st)) = w1"
    using lo by (auto simp: handleLogout_def Let_def split: sum.splits)
  ultimately show ?thesis using quiet_modest [OF quiet_refl [where iv = iv and view = view, OF ready_iv [OF assms(2)]]] by auto
qed

text \<open>The handlers that start with \<^verbatim>\<open>currentUser\<close>.\<close>

lemma after_currentUser:
  assumes "s_store (srv_svc s) = S" "ready view iv fu fr E (sv_world st)"
    and "\<And>u st1. currentUser E s claims st = (Inr u, st1) \<Longrightarrow> ready view iv fu fr E (sv_world st1) \<Longrightarrow>
      modest view iv (sv_world st1) (sv_world (snd (f u st1)))"
  shows "modest view iv (sv_world st)
    (sv_world (snd (case currentUser E s claims st of (Inl out, st1) \<Rightarrow> (out, st1) | (Inr u, st1) \<Rightarrow> f u st1)))"
proof -
  obtain x st1 where cu: "currentUser E s claims st = (x, st1)" by fastforce
  have q: "quiet view iv (sv_world st) (sv_world st1)"
    using currentUser_quiet [OF assms(1) ready_iv [OF assms(2)] cu] by simp
  show ?thesis
  proof (cases x)
    case (Inl out)
    with cu quiet_modest [OF q] show ?thesis by simp
  next
    case (Inr u)
    with cu modest_after_quiet [OF q] assms(3) quiet_ready [OF q assms(2)] show ?thesis by simp
  qed
qed

lemma handleMe_modest:
  assumes "s_store (srv_svc s) = S" "ready view iv fu fr E (sv_world st)"
  shows "modest view iv (sv_world st) (sv_world (snd (handleMe E s claims r st)))"
  unfolding handleMe_def
  by (rule after_currentUser [OF assms]) (simp add: quiet_modest quiet_refl ready_iv)

lemma handleUpdateMe_modest:
  assumes "s_store (srv_svc s) = S" "ready view iv fu fr E (sv_world st)"
  shows "modest view iv (sv_world st) (sv_world (snd (handleUpdateMe E s claims r st)))"
  unfolding handleUpdateMe_def
proof (rule after_currentUser [OF assms], goal_cases)
  case (1 u st1)
  then have iv: "iv (db (sv_world st1))" by (auto dest: ready_iv)
  have "modest view iv (sv_world st1) w2" if "UpdateProfile (srv_svc s) i n (sv_world st1) = (x, w2)" for i n x w2
    using UpdateProfile_law(1) [OF assms(1) iv that] UpdateProfile_standing [OF assms(1) iv that] by (simp add: modest_def)
  then show ?case using quiet_modest [OF quiet_refl [where iv = iv and view = view, OF iv]] by (auto split: sum.splits prod.splits)
qed

lemma handleChangePassword_modest:
  assumes "s_store (srv_svc s) = S" "ready view iv fu fr E (sv_world st)"
  shows "modest view iv (sv_world st) (sv_world (snd (handleChangePassword E s claims r st)))"
  unfolding handleChangePassword_def
proof (rule after_currentUser [OF assms], goal_cases)
  case (1 u st1)
  then have iv: "iv (db (sv_world st1))" by (auto dest: ready_iv)
  have "modest view iv (sv_world st1) w3"
    if cs: "CurrentSessionID E (srv_svc s) t (sv_world st1) = (k, w2)"
      and cp: "ChangePassword E (srv_svc s) i c n k w2 = (x, w3)" for t k w2 i c n x w3
  proof -
    note q = CurrentSessionID_quiet [OF assms(1) iv cs]
    have "ready view iv fu fr E w2" using quiet_ready [OF q 1(2)] .
    then show ?thesis
      using ChangePassword_safe [OF assms(1) _ _ cp] ChangePassword_standing [OF assms(1) _ cp] modest_after_quiet [OF q]
      by (simp add: modest_def ready_def)
  qed
  then show ?case using quiet_modest [OF quiet_refl [where iv = iv and view = view, OF iv]] by (auto split: sum.splits prod.splits)
qed

lemma handleListSessions_modest:
  assumes "s_store (srv_svc s) = S" "ready view iv fu fr E (sv_world st)"
  shows "modest view iv (sv_world st) (sv_world (snd (handleListSessions E s claims r st)))"
  unfolding handleListSessions_def
proof (rule after_currentUser [OF assms], goal_cases)
  case (1 u st1)
  then have iv: "iv (db (sv_world st1))" by (auto dest: ready_iv)
  have "modest view iv (sv_world st1) w3"
    if cs: "CurrentSessionID E (srv_svc s) t (sv_world st1) = (k, w2)"
      and li: "ListSessions (srv_svc s) i k w2 = (x, w3)" for t k w2 i x w3
  proof -
    note q = CurrentSessionID_quiet [OF assms(1) iv cs]
    obtain y w4 where us: "st_ListUserSessions S i w2 = (y, w4)" by fastforce
    have "w3 = w4" using li us assms(1) by (auto simp: ListSessions_def split: sum.splits)
    moreover have "iv (db w2)" using q by (simp add: quiet_def)
    ultimately have "quiet view iv w2 w3" using ListUserSessions [OF _ us] undisturbed_quiet by blast
    then show ?thesis using quiet_modest [OF quiet_trans [OF q]] by blast
  qed
  then show ?case by (auto split: sum.splits prod.splits)
qed

lemma handleRevokeSession_modest:
  assumes "s_store (srv_svc s) = S" "ready view iv fu fr E (sv_world st)"
  shows "modest view iv (sv_world st) (sv_world (snd (handleRevokeSession E s pid claims r st)))"
  unfolding handleRevokeSession_def
proof (rule after_currentUser [OF assms], goal_cases)
  case (1 u st1)
  then have iv: "iv (db (sv_world st1))" by (auto dest: ready_iv)
  have "modest view iv (sv_world st1) w2" if "RevokeSession (srv_svc s) i k (sv_world st1) = (x, w2)" for i k x w2
    using RevokeSession_law(1) [OF assms(1) iv that] RevokeSession_standing [OF assms(1) iv that] by (simp add: modest_def)
  then show ?case using quiet_modest [OF quiet_refl [where iv = iv and view = view, OF iv]] by (auto split: sum.splits prod.splits option.splits)
qed

section \<open>User management\<close>

lemma handleCreateUser_safe:
  assumes "s_store (srv_svc s) = S" "ready view iv fu fr E (sv_world st)"
  shows "safe view iv (sv_world st) (sv_world (snd (handleCreateUser E s r st)))"
proof -
  have fu: "\<And>i. shd (uuids (sv_world st)) = Some i \<Longrightarrow> fu i (a_users (V (sv_world st)))" "iv (db (sv_world st))"
    using assms(2) by (auto simp: ready_def)
  have "safe view iv (sv_world st) w1" if "Service_CreateUser E (srv_svc s) a b c (sv_world st) = (x, w1)" for a b c x w1
    using Service_CreateUser_law(1) [OF assms(1) fu(2,1) that] by blast
  then show ?thesis using safe_refl [OF fu(2)] by (auto simp: handleCreateUser_def Let_def split: sum.splits prod.splits)
qed

lemma handleListUsers_safe:
  assumes "s_store (srv_svc s) = S" "ready view iv fu fr E (sv_world st)"
  shows "safe view iv (sv_world st) (sv_world (snd (handleListUsers E s r st)))"
  using reads_service_safe(2) [OF assms(1) ready_iv [OF assms(2)]]
  by (auto simp: handleListUsers_def split: sum.splits prod.splits)

lemma handleUpdateUser_safe:
  assumes "s_store (srv_svc s) = S" "ready view iv fu fr E (sv_world st)"
  shows "safe view iv (sv_world st) (sv_world (snd (handleUpdateUser E s pid r st)))"
proof -
  have iv: "iv (db (sv_world st))" using ready_iv [OF assms(2)] .
  have "safe view iv (sv_world st) w1" if "Service_UpdateUser (srv_svc s) p (sv_world st) = (x, w1)" for p x w1
    using Service_UpdateUser_law(1) [OF assms(1) iv that] .
  then show ?thesis using safe_refl [OF iv]
    by (auto simp: handleUpdateUser_def Let_def split: sum.splits prod.splits option.splits)
qed

lemma handleResetPassword_safe:
  assumes "s_store (srv_svc s) = S" "ready view iv fu fr E (sv_world st)"
  shows "safe view iv (sv_world st) (sv_world (snd (handleResetPassword E s pid r st)))"
proof -
  have iv: "iv (db (sv_world st))" using ready_iv [OF assms(2)] .
  have "safe view iv (sv_world st) w1" if "ResetPassword E (srv_svc s) i (sv_world st) = (x, w1)" for i x w1
    using ResetPassword_law(1) [OF assms(1) iv that] .
  then show ?thesis using safe_refl [OF iv]
    by (auto simp: handleResetPassword_def split: sum.splits prod.splits option.splits)
qed

section \<open>Routes\<close>

lemma requireAuth_modest:
  assumes "ready view iv fu fr E (sv_world st)"
    and "\<And>claims st1. ready view iv fu fr E (sv_world st1) \<Longrightarrow> modest view iv (sv_world st1) (sv_world (snd (nxt claims r st1)))"
  shows "modest view iv (sv_world st) (sv_world (snd (requireAuth E s nxt r st)))"
proof (cases "bearer E s r (sv_world st)")
  case None
  then show ?thesis
    using requireAuth_None [where view = view and iv = iv, OF None ready_iv [OF assms(1)], of nxt] quiet_modest by fastforce
next
  case (Some claims)
  then obtain w' where w': "requireAuth E s nxt r st = nxt claims r (st\<lparr>sv_world := w'\<rparr>)" "quiet view iv (sv_world st) w'"
    using requireAuth_Some [where view = view and iv = iv, OF Some ready_iv [OF assms(1)], of nxt] by blast
  have "modest view iv w' (sv_world (snd (nxt claims r (st\<lparr>sv_world := w'\<rparr>))))"
    using assms(2) [of "st\<lparr>sv_world := w'\<rparr>" claims] quiet_ready [OF w'(2) assms(1)] by simp
  with w' modest_after_quiet show ?thesis by metis
qed

lemma requireAdmin_safe:
  assumes "ready view iv fu fr E (sv_world st)"
    and "\<And>st1. ready view iv fu fr E (sv_world st1) \<Longrightarrow> safe view iv (sv_world st1) (sv_world (snd (nxt r st1)))"
  shows "safe view iv (sv_world st) (sv_world (snd (requireAdmin E s nxt r st)))"
    "\<not> admin_bearer E s r (sv_world st) \<Longrightarrow> modest view iv (sv_world st) (sv_world (snd (requireAdmin E s nxt r st)))"
proof -
  note iv = ready_iv [OF assms(1)]
  show modest: "modest view iv (sv_world st) (sv_world (snd (requireAdmin E s nxt r st)))" if "\<not> admin_bearer E s r (sv_world st)"
    using requireAdmin_refused [where view = view and iv = iv, OF that iv, of nxt] quiet_modest by fastforce
  show "safe view iv (sv_world st) (sv_world (snd (requireAdmin E s nxt r st)))"
  proof (cases "admin_bearer E s r (sv_world st)")
    case True
    then obtain w' where w': "requireAdmin E s nxt r st = nxt r (st\<lparr>sv_world := w'\<rparr>)" "quiet view iv (sv_world st) w'"
      using requireAdmin_passed [where view = view and iv = iv, OF True iv, of nxt] by blast
    have "safe view iv w' (sv_world (snd (nxt r (st\<lparr>sv_world := w'\<rparr>))))"
      using assms(2) [of "st\<lparr>sv_world := w'\<rparr>"] quiet_ready [OF w'(2) assms(1)] by simp
    with w' safe_after_quiet show ?thesis by metis
  qed (use modest modest_safe in blast)
qed

lemmas modest_handlers = handleLogin_modest handleRefresh_modest handleLogout_modest handleMe_modest handleUpdateMe_modest
  handleChangePassword_modest handleListSessions_modest handleRevokeSession_modest

lemmas safe_handlers = handleCreateUser_safe handleListUsers_safe handleUpdateUser_safe handleResetPassword_safe

lemma handler_law:
  assumes "s_store (srv_svc s) = S" "ready view iv fu fr E (sv_world st)"
  shows "safe view iv (sv_world st) (sv_world (snd (handler_of E s rt vs r st)))"
    "\<not> admin_bearer E s r (sv_world st) \<Longrightarrow> modest view iv (sv_world st) (sv_world (snd (handler_of E s rt vs r st)))"
proof -
  have jwks: "modest view iv (sv_world st) (sv_world (snd (handleJWKS s r st)))"
    using quiet_modest [OF quiet_refl [where iv = iv and view = view, OF ready_iv [OF assms(2)]]] by (simp add: handleJWKS_def)
  have m: "modest view iv (sv_world st) (sv_world (snd (handler_of E s rt vs r st)))"
    if "rt \<notin> {RCreateUser, RListUsers, RUpdateUser, RResetPassword}"
    using that jwks
    by (cases rt) (simp_all add: handler_of_def modest_handlers [OF assms(1)] requireAuth_modest [OF assms(2)] assms(2))
  show "safe view iv (sv_world st) (sv_world (snd (handler_of E s rt vs r st)))"
    using modest_safe [OF m]
    by (cases rt) (simp_all add: handler_of_def requireAdmin_safe(1) [OF assms(2)] safe_handlers [OF assms(1)])
  show "modest view iv (sv_world st) (sv_world (snd (handler_of E s rt vs r st)))" if "\<not> admin_bearer E s r (sv_world st)"
    using m
    by (cases rt) (simp_all add: handler_of_def requireAdmin_safe(2) [OF assms(2) _ that] safe_handlers [OF assms(1)])
qed

lemma ServeHTTP_law:
  assumes "s_store (srv_svc s) = S" "ready view iv fu fr E (sv_world st)"
  shows "safe view iv (sv_world st) (sv_world (snd (ServeHTTP E s r st)))"
    "\<not> admin_bearer E s r (sv_world st) \<Longrightarrow> modest view iv (sv_world st) (sv_world (snd (ServeHTTP E s r st)))"
proof -
  have m0: "modest view iv (sv_world st) (sv_world st)"
    using quiet_modest [OF quiet_refl [where iv = iv and view = view, OF ready_iv [OF assms(2)]]] .
  have run: "sv_world (snd (ServeHTTP E s r st)) = sv_world st \<or>
      (\<exists>rt vs. sv_world (snd (ServeHTTP E s r st)) = sv_world (snd (handler_of E s rt vs r st)))"
    by (auto simp: ServeHTTP_def Let_def split: option.splits prod.splits) (metis snd_conv)+
  show "safe view iv (sv_world st) (sv_world (snd (ServeHTTP E s r st)))"
    using run handler_law(1) [OF assms] modest_safe [OF m0] by fastforce
  show "modest view iv (sv_world st) (sv_world (snd (ServeHTTP E s r st)))" if "\<not> admin_bearer E s r (sv_world st)"
    using run handler_law(2) [OF assms that] m0 by fastforce
qed

lemma http_history:
  assumes "s_store (srv_svc s) = S" "iv (db (sv_world st))" "linked (V (sv_world st))" "http_draws_ok fu fr view E s rs st"
  shows "safe view iv (sv_world st) (sv_world (serve_http E s rs st)) \<and> linked (V (sv_world (serve_http E s rs st)))"
  using assms(2-)
proof (induction rs arbitrary: st)
  case Nil
  then show ?case by (simp add: safe_refl)
next
  case (Cons r rs)
  let ?st = "snd (ServeHTTP E s r st)"
  have "ready view iv fu fr E (sv_world st)" using Cons by (simp add: ready_def)
  then have 1: "safe view iv (sv_world st) (sv_world ?st)" by (rule ServeHTTP_law(1) [OF assms(1)])
  then have "safe view iv (sv_world ?st) (sv_world (serve_http E s rs ?st)) \<and> linked (V (sv_world (serve_http E s rs ?st)))"
    using Cons by (intro Cons.IH safe_iv [OF 1] safe_linked [OF 1]) auto
  with safe_trans [OF 1] show ?case by simp
qed

end

end
