(* ===== verification/Exchange_Sort.thy ===== *)
theory Exchange_Sort
  imports Prelude "HOL-Library.Multiset"
begin

text \<open>
  The sort that \<^verbatim>\<open>Fake.ListUsers\<close> and \<^verbatim>\<open>Fake.ListUserSessions\<close> of
  \<^verbatim>\<open>internal/store/storetest/fake.go\<close> write out twice: for every \<open>i\<close>, exchange \<open>out[i]\<close> with
  each later \<open>out[j]\<close> that must come before it. The result is a sorted permutation.
\<close>

function exch_inner :: "('a \<Rightarrow> 'a \<Rightarrow> bool) \<Rightarrow> nat \<Rightarrow> nat \<Rightarrow> 'a list \<Rightarrow> 'a list" where
  "exch_inner before i j out =
     (if j < length out
      then exch_inner before i (Suc j)
             (if before (out ! j) (out ! i) then out[i := out ! j, j := out ! i] else out)
      else out)"
  by pat_completeness auto
termination
  by (relation "measure (\<lambda>(_, _, j, out). length out - j)") auto

declare exch_inner.simps [simp del]

lemma exch_inner_length [simp]: "length (exch_inner before i j out) = length out"
proof (induction before i j out rule: exch_inner.induct)
  case (1 before i j out)
  then show ?case by (subst exch_inner.simps) auto
qed

function exch_outer :: "('a \<Rightarrow> 'a \<Rightarrow> bool) \<Rightarrow> nat \<Rightarrow> 'a list \<Rightarrow> 'a list" where
  "exch_outer before i out =
     (if i < length out then exch_outer before (Suc i) (exch_inner before i (Suc i) out) else out)"
  by pat_completeness auto
termination
  by (relation "measure (\<lambda>(_, i, out). length out - i)") auto

declare exch_outer.simps [simp del]

definition exchange_sort :: "('a \<Rightarrow> 'a \<Rightarrow> bool) \<Rightarrow> 'a list \<Rightarrow> 'a list" where
  "exchange_sort before out = exch_outer before 0 out"

lemma exch_inner_mset: "i < length out \<Longrightarrow> mset (exch_inner before i j out) = mset out"
proof (induction before i j out rule: exch_inner.induct)
  case (1 before i j out)
  then show ?case
    by (subst exch_inner.simps) (auto simp: mset_swap)
qed

lemma exch_inner_take: "i < j \<Longrightarrow> take i (exch_inner before i j out) = take i out"
proof (induction before i j out rule: exch_inner.induct)
  case (1 before i j out)
  then show ?case by (subst exch_inner.simps) auto
qed

text \<open>After the inner loop \<open>out[i]\<close> is least among the elements from \<open>i\<close> on.\<close>

lemma exch_inner_least:
  fixes key :: "'a \<Rightarrow> int"
  assumes "i < j" "i < length out" "\<forall>k. i < k \<and> k < j \<longrightarrow> k < length out \<longrightarrow> key (out ! i) \<le> key (out ! k)"
  shows "\<forall>k. i < k \<and> k < length out \<longrightarrow>
    key (exch_inner (\<lambda>x y. key x < key y) i j out ! i) \<le> key (exch_inner (\<lambda>x y. key x < key y) i j out ! k)"
  using assms
proof (induction "\<lambda>x y. key x < key y" i j out rule: exch_inner.induct)
  case (1 i j out)
  let ?out = "if key (out ! j) < key (out ! i) then out[i := out ! j, j := out ! i] else out"
  show ?case
  proof (cases "j < length out")
    case True
    have "\<forall>k. i < k \<and> k < Suc j \<longrightarrow> k < length ?out \<longrightarrow> key (?out ! i) \<le> key (?out ! k)"
      using "1.prems" True by (auto simp: nth_list_update less_Suc_eq)
    with "1.hyps" [OF True] "1.prems" True show ?thesis
      by (subst (1 2) exch_inner.simps) (simp split: if_splits)
  next
    case False
    with "1.prems" show ?thesis by (simp add: exch_inner.simps [of _ i j out])
  qed
qed

lemma exch_inner_drop:
  assumes "i < length out"
  shows "set (drop i (exch_inner before i (Suc i) out)) = set (drop i out)"
proof -
  let ?o = "exch_inner before i (Suc i) out"
  have "mset (take i ?o) + mset (drop i ?o) = mset (take i out) + mset (drop i out)"
    using exch_inner_mset [OF assms, of before "Suc i"]
    by (metis append_take_drop_id mset_append)
  then have "mset (drop i ?o) = mset (drop i out)" by (simp add: exch_inner_take)
  then show ?thesis by (metis set_mset_mset)
qed

lemma exch_outer_mset: "mset (exch_outer before i out) = mset out"
proof (induction before i out rule: exch_outer.induct)
  case (1 before i out)
  then show ?case by (subst exch_outer.simps) (simp add: exch_inner_mset)
qed

lemma exch_outer_sorted:
  fixes key :: "'a \<Rightarrow> int"
  assumes "sorted (map key (take i out))"
    and "\<forall>x \<in> set (take i out). \<forall>y \<in> set (drop i out). key x \<le> key y"
  shows "sorted (map key (exch_outer (\<lambda>x y. key x < key y) i out))"
  using assms
proof (induction "\<lambda>x y. key x < key y" i out rule: exch_outer.induct)
  case (1 i out)
  show ?case
  proof (cases "i < length out")
    case True
    let ?o = "exch_inner (\<lambda>x y. key x < key y) i (Suc i) out"
    have tk: "take (Suc i) ?o = take i out @ [?o ! i]"
      using True by (simp add: take_Suc_conv_app_nth exch_inner_take)
    have dr: "set (drop (Suc i) ?o) \<subseteq> set (drop i out)" "?o ! i \<in> set (drop i out)"
      using exch_inner_drop [OF True, of "\<lambda>x y. key x < key y"] True
      by (auto simp: Cons_nth_drop_Suc [symmetric])
    have least: "\<forall>y \<in> set (drop (Suc i) ?o). key (?o ! i) \<le> key y"
      using exch_inner_least [of i "Suc i" out key] True
      by (auto simp: in_set_conv_nth)
    have "sorted (map key (take (Suc i) ?o))"
      using "1.prems" dr(2) by (auto simp: tk sorted_append)
    moreover have "\<forall>x \<in> set (take (Suc i) ?o). \<forall>y \<in> set (drop (Suc i) ?o). key x \<le> key y"
      using "1.prems" dr least by (auto simp: tk)
    ultimately show ?thesis
      using "1.hyps" [OF True] True by (subst exch_outer.simps) simp
  next
    case False
    with "1.prems" show ?thesis by (simp add: exch_outer.simps [of _ i out])
  qed
qed

theorem exchange_sort_mset: "mset (exchange_sort before xs) = mset xs"
  by (simp add: exchange_sort_def exch_outer_mset)

theorem exchange_sort_sorted: "sorted (map key (exchange_sort (\<lambda>x y. key x < (key y :: int)) xs))"
  unfolding exchange_sort_def by (rule exch_outer_sorted) auto

lemma exchange_sort_set [simp]: "set (exchange_sort before xs) = set xs"
  by (metis exchange_sort_mset set_mset_mset)

lemma exchange_sort_distinct [simp]: "distinct (exchange_sort before xs) = distinct xs"
  by (metis exchange_sort_mset mset_eq_imp_distinct_iff)

end
