(* ===== verification/Fake_Store.thy ===== *)
theory Fake_Store
  imports Http_Laws Exchange_Sort
begin

text \<open>
  \<^verbatim>\<open>internal/store/storetest/fake.go\<close>: the in-memory store. Every method holds the mutex for
  its whole body, so it is one atomic step of the model. The maps are association lists; the
  case folding behind \<^verbatim>\<open>strings.EqualFold\<close> is the parameter \<open>ci\<close> (two names are equal when
  their folded forms are). The walk of \<^verbatim>\<open>RevokeRefreshTokenChain\<close> is a loop that need not end,
  so it is a partial function; on an acyclic rotation graph it is proved to return.
  The theory ends with the interpretation of \<open>store_contract\<close> on this store.
\<close>

record Fake =
  f_users :: "(uuid \<times> User) list"
  f_credentials :: "(uuid \<times> Credential) list"
  f_tokens :: "(uuid \<times> RefreshToken) list"

definition Fake_New :: Fake where
  "Fake_New = \<lparr>f_users = [], f_credentials = [], f_tokens = []\<rparr>"

definition EqualFold :: "(string \<Rightarrow> string) \<Rightarrow> string \<Rightarrow> string \<Rightarrow> bool" where
  "EqualFold ci s t \<longleftrightarrow> ci s = ci t"

definition set_users :: "(uuid \<times> User) list \<Rightarrow> Fake world \<Rightarrow> Fake world" where
  "set_users m w = w\<lparr>db := (db w)\<lparr>f_users := m\<rparr>\<rparr>"

definition set_credentials :: "(uuid \<times> Credential) list \<Rightarrow> Fake world \<Rightarrow> Fake world" where
  "set_credentials m w = w\<lparr>db := (db w)\<lparr>f_credentials := m\<rparr>\<rparr>"

definition set_tokens :: "(uuid \<times> RefreshToken) list \<Rightarrow> Fake world \<Rightarrow> Fake world" where
  "set_tokens m w = w\<lparr>db := (db w)\<lparr>f_tokens := m\<rparr>\<rparr>"

section \<open>Users\<close>

definition Fake_CreateUser :: "(string \<Rightarrow> string) \<Rightarrow> CreateUserParams \<Rightarrow> (Fake, User) io" where
  "Fake_CreateUser ci p w =
     (if list_ex (\<lambda>u. EqualFold ci (u_Username u) (cp_Username p)) (vals (f_users (db w)))
      then (Inl ErrDuplicateUsername, w)
      else case time_now w of (now, w1) \<Rightarrow>
        (case uuid_NewV7 w1 of
           (Inl e, w2) \<Rightarrow> (Inl Panicked, w2)
         | (Inr i, w2) \<Rightarrow>
             (let u = \<lparr>u_ID = i, u_Username = cp_Username p, u_DisplayName = cp_DisplayName p,
                       u_Email = None, u_Role = cp_Role p, u_Status = StatusActive,
                       u_CreatedAt = now, u_UpdatedAt = now\<rparr>
              in (Inr u, set_users (AList.update (u_ID u) u (f_users (db w2))) w2))))"

definition Fake_GetUser :: "uuid \<Rightarrow> (Fake, User) io" where
  "Fake_GetUser i w =
     (case map_of (f_users (db w)) i of None \<Rightarrow> (Inl ErrNotFound, w) | Some u \<Rightarrow> (Inr u, w))"

definition Fake_GetUserByUsername :: "(string \<Rightarrow> string) \<Rightarrow> string \<Rightarrow> (Fake, User) io" where
  "Fake_GetUserByUsername ci name w =
     (case find (\<lambda>u. EqualFold ci (u_Username u) name) (vals (f_users (db w))) of
        None \<Rightarrow> (Inl ErrNotFound, w)
      | Some u \<Rightarrow> (Inr u, w))"

definition Fake_ListUsers :: "(Fake, User list) io" where
  "Fake_ListUsers w =
     (Inr (exchange_sort (\<lambda>x y. u_CreatedAt x < u_CreatedAt y) (vals (f_users (db w)))), w)"

definition Fake_UpdateUser :: "UpdateUserParams \<Rightarrow> (Fake, User) io" where
  "Fake_UpdateUser p w =
     (case map_of (f_users (db w)) (up_ID p) of
        None \<Rightarrow> (Inl ErrNotFound, w)
      | Some u0 \<Rightarrow>
          (let u1 = (case up_DisplayName p of None \<Rightarrow> u0 | Some d \<Rightarrow> u0\<lparr>u_DisplayName := d\<rparr>);
               u2 = (case up_Email p of None \<Rightarrow> u1 | Some e \<Rightarrow> u1\<lparr>u_Email := Some e\<rparr>);
               u3 = (case up_Role p of None \<Rightarrow> u2 | Some r \<Rightarrow> u2\<lparr>u_Role := r\<rparr>);
               u4 = (case up_Status p of None \<Rightarrow> u3 | Some s \<Rightarrow> u3\<lparr>u_Status := s\<rparr>)
           in case time_now w of (now, w1) \<Rightarrow>
             (let u = u4\<lparr>u_UpdatedAt := now\<rparr>
              in (Inr u, set_users (AList.update (up_ID p) u (f_users (db w1))) w1))))"

definition Fake_CountUsers :: "(Fake, int) io" where
  "Fake_CountUsers w = (Inr (int (length (f_users (db w)))), w)"

section \<open>Credentials\<close>

definition Fake_GetCredential :: "uuid \<Rightarrow> (Fake, Credential) io" where
  "Fake_GetCredential i w =
     (case map_of (f_credentials (db w)) i of None \<Rightarrow> (Inl ErrNotFound, w) | Some c \<Rightarrow> (Inr c, w))"

definition Fake_SetCredential :: "uuid \<Rightarrow> string \<Rightarrow> bool \<Rightarrow> (Fake, unit) io" where
  "Fake_SetCredential i hash mustChange w =
     (case time_now w of (now, w1) \<Rightarrow>
        (Inr (), set_credentials
           (AList.update i \<lparr>c_UserID = i, c_Kind = ''password'', c_PasswordHash = hash,
                            c_MustChange = mustChange, c_UpdatedAt = now\<rparr>
              (f_credentials (db w1))) w1))"

section \<open>Refresh tokens\<close>

definition Fake_CreateRefreshToken :: "RefreshToken \<Rightarrow> (Fake, unit) io" where
  "Fake_CreateRefreshToken t w =
     (Inr (), set_tokens (AList.update (t_ID t) t (f_tokens (db w))) w)"

definition Fake_GetRefreshTokenByHash :: "bytes \<Rightarrow> (Fake, RefreshToken) io" where
  "Fake_GetRefreshTokenByHash hash w =
     (case find (\<lambda>t. t_TokenHash t = hash) (vals (f_tokens (db w))) of
        None \<Rightarrow> (Inl ErrNotFound, w)
      | Some t \<Rightarrow> (Inr t, w))"

definition Fake_ReplaceRefreshToken :: "uuid \<Rightarrow> uuid \<Rightarrow> (Fake, unit) io" where
  "Fake_ReplaceRefreshToken oldID newID w =
     (case map_of (f_tokens (db w)) oldID of
        None \<Rightarrow> (Inl ErrNotFound, w)
      | Some t \<Rightarrow>
          if t_ReplacedBy t \<noteq> None then (Inl ErrNotFound, w)
          else case time_now w of (now, w1) \<Rightarrow>
            (Inr (), set_tokens (AList.update oldID (t\<lparr>t_RevokedAt := Some now, t_ReplacedBy := Some newID\<rparr>)
               (f_tokens (db w1))) w1))"

definition Fake_RevokeRefreshToken :: "uuid \<Rightarrow> (Fake, unit) io" where
  "Fake_RevokeRefreshToken i w =
     (case map_of (f_tokens (db w)) i of
        None \<Rightarrow> (Inl ErrNotFound, w)
      | Some t \<Rightarrow>
          if t_RevokedAt t \<noteq> None then (Inl ErrNotFound, w)
          else case time_now w of (now, w1) \<Rightarrow>
            (Inr (), set_tokens (AList.update i (t\<lparr>t_RevokedAt := Some now\<rparr>) (f_tokens (db w1))) w1))"

text \<open>The loop of \<^verbatim>\<open>RevokeRefreshTokenChain\<close> at \<^verbatim>\<open>cur\<close>: \<open>None\<close> when it never ends.\<close>

partial_function (option) chain_loop ::
  "instant \<Rightarrow> RefreshToken \<Rightarrow> (uuid \<times> RefreshToken) list \<Rightarrow> (uuid \<times> RefreshToken) list option" where
  "chain_loop now cur m =
     (let m' = (if t_RevokedAt cur = None
                then AList.update (t_ID cur) (cur\<lparr>t_RevokedAt := Some now\<rparr>) m else m)
      in case t_ReplacedBy cur of
           None \<Rightarrow> Some m'
         | Some next \<Rightarrow>
             (case map_of m' next of None \<Rightarrow> Some m' | Some nxt \<Rightarrow> chain_loop now nxt m'))"

definition Fake_RevokeRefreshTokenChain :: "uuid \<Rightarrow> (Fake, unit) io" where
  "Fake_RevokeRefreshTokenChain i w =
     (case time_now w of (now, w1) \<Rightarrow>
        (case map_of (f_tokens (db w1)) i of
           None \<Rightarrow> (Inr (), w1)
         | Some cur \<Rightarrow>
             (case chain_loop now cur (f_tokens (db w1)) of
                None \<Rightarrow> (Inl Diverged, w1)
              | Some m \<Rightarrow> (Inr (), set_tokens m w1))))"

definition Fake_RevokeUserRefreshTokens :: "uuid \<Rightarrow> uuid option \<Rightarrow> (Fake, unit) io" where
  "Fake_RevokeUserRefreshTokens userID except w =
     (case time_now w of (now, w1) \<Rightarrow>
        (Inr (), set_tokens
           (map (\<lambda>(i, t). (i, if t_UserID t \<noteq> userID \<or> t_RevokedAt t \<noteq> None then t
                               else if except = Some i then t
                               else t\<lparr>t_RevokedAt := Some now\<rparr>)) (f_tokens (db w1))) w1))"

definition Fake_ListUserSessions :: "uuid \<Rightarrow> (Fake, RefreshToken list) io" where
  "Fake_ListUserSessions userID w =
     (case time_now w of (now, w1) \<Rightarrow>
        (Inr (exchange_sort (\<lambda>x y. t_IssuedAt x > t_IssuedAt y)
           (filter (\<lambda>t. t_UserID t = userID \<and> Active t now) (vals (f_tokens (db w1))))), w1))"

definition Fake_Ping :: "(Fake, unit) io" where
  "Fake_Ping w = (Inr (), w)"

text \<open>The method table of \<^verbatim>\<open>*Fake\<close> as a \<^verbatim>\<open>store.Store\<close>.\<close>

definition Fake_Store :: "(string \<Rightarrow> string) \<Rightarrow> Fake Store" where
  "Fake_Store ci =
     \<lparr>st_CreateUser = Fake_CreateUser ci, st_GetUser = Fake_GetUser,
      st_GetUserByUsername = Fake_GetUserByUsername ci, st_ListUsers = Fake_ListUsers,
      st_UpdateUser = Fake_UpdateUser, st_CountUsers = Fake_CountUsers,
      st_GetCredential = Fake_GetCredential, st_SetCredential = Fake_SetCredential,
      st_CreateRefreshToken = Fake_CreateRefreshToken,
      st_GetRefreshTokenByHash = Fake_GetRefreshTokenByHash,
      st_ReplaceRefreshToken = Fake_ReplaceRefreshToken,
      st_RevokeRefreshToken = Fake_RevokeRefreshToken,
      st_RevokeRefreshTokenChain = Fake_RevokeRefreshTokenChain,
      st_RevokeUserRefreshTokens = Fake_RevokeUserRefreshTokens,
      st_ListUserSessions = Fake_ListUserSessions, st_Ping = Fake_Ping\<rparr>"

section \<open>Abstraction\<close>

definition fake_view :: "Fake \<Rightarrow> astore" where
  "fake_view f =
     \<lparr>a_users = map_of (f_users f), a_creds = map_of (f_credentials f), a_toks = map_of (f_tokens f)\<rparr>"

definition fake_inv :: "(string \<Rightarrow> string) \<Rightarrow> Fake \<Rightarrow> bool" where
  "fake_inv ci f \<longleftrightarrow> distinct (map fst (f_users f)) \<and> distinct (map fst (f_credentials f)) \<and>
     distinct (map fst (f_tokens f)) \<and> keyed ci (fake_view f)"

lemmas fake_ops = Fake_CreateUser_def Fake_GetUser_def Fake_GetUserByUsername_def Fake_ListUsers_def
  Fake_UpdateUser_def Fake_CountUsers_def Fake_GetCredential_def Fake_SetCredential_def
  Fake_CreateRefreshToken_def Fake_GetRefreshTokenByHash_def Fake_ReplaceRefreshToken_def
  Fake_RevokeRefreshToken_def Fake_RevokeRefreshTokenChain_def Fake_RevokeUserRefreshTokens_def
  Fake_ListUserSessions_def Fake_Ping_def

lemma fake_setters [simp]:
  fixes w :: "Fake world"
  shows "db (set_users mu w) = (db w)\<lparr>f_users := mu\<rparr>"
    "db (set_credentials mc w) = (db w)\<lparr>f_credentials := mc\<rparr>"
    "db (set_tokens mt w) = (db w)\<lparr>f_tokens := mt\<rparr>"
    "logs (set_users mu w) = logs w" "logs (set_credentials mc w) = logs w" "logs (set_tokens mt w) = logs w"
    "uuids (set_users mu w) = uuids w" "uuids (set_credentials mc w) = uuids w"
    "uuids (set_tokens mt w) = uuids w" "entropy (set_users mu w) = entropy w"
    "entropy (set_credentials mc w) = entropy w" "entropy (set_tokens mt w) = entropy w"
  by (simp_all add: set_users_def set_credentials_def set_tokens_def)

lemma fake_view_effects:
  "u_ID u = i \<Longrightarrow> fake_view (f\<lparr>f_users := AList.update i u (f_users f)\<rparr>) = put_user u (fake_view f)"
  "fake_view (f\<lparr>f_credentials := AList.update i \<lparr>c_UserID = i, c_Kind = ''password'', c_PasswordHash = h,
      c_MustChange = mc, c_UpdatedAt = now\<rparr> (f_credentials f)\<rparr>) = put_cred i h mc now (fake_view f)"
  "t_ID t = i \<Longrightarrow> fake_view (f\<lparr>f_tokens := AList.update i t (f_tokens f)\<rparr>) = put_tok t (fake_view f)"
  by (simp_all add: fake_view_def put_user_def put_cred_def put_tok_def)

lemma fake_view_fields [simp]:
  "a_users (fake_view f) = map_of (f_users f)" "a_creds (fake_view f) = map_of (f_credentials f)"
  "a_toks (fake_view f) = map_of (f_tokens f)"
  by (simp_all add: fake_view_def)

lemma fake_ran_users: "fake_inv ci f \<Longrightarrow> set (vals (f_users f)) = ran (map_of (f_users f))"
  by (simp add: fake_inv_def set_vals)

lemma fake_ran_tokens: "fake_inv ci f \<Longrightarrow> set (vals (f_tokens f)) = ran (map_of (f_tokens f))"
  by (simp add: fake_inv_def set_vals)

lemma fake_users_keyed:
  assumes "fake_inv ci f"
  shows "distinct (vals (f_users f))" "u \<in> set (vals (f_users f)) \<longleftrightarrow> map_of (f_users f) (u_ID u) = Some u"
proof -
  have "distinct (map fst (f_users f))" "\<And>i v. map_of (f_users f) i = Some v \<Longrightarrow> u_ID v = i"
    using assms keyed_user_ID [of ci "fake_view f"] by (auto simp: fake_inv_def simp del: map_of_eq_Some_iff)
  from self_keyed(2,3) [where key = u_ID, OF this] show
    "distinct (vals (f_users f))" "u \<in> set (vals (f_users f)) \<longleftrightarrow> map_of (f_users f) (u_ID u) = Some u"
    by auto
qed

lemma fake_tokens_keyed:
  assumes "fake_inv ci f"
  shows "distinct (vals (f_tokens f))" "t \<in> set (vals (f_tokens f)) \<longleftrightarrow> map_of (f_tokens f) (t_ID t) = Some t"
proof -
  have "distinct (map fst (f_tokens f))" "\<And>i v. map_of (f_tokens f) i = Some v \<Longrightarrow> t_ID v = i"
    using assms keyed_tok_ID [of ci "fake_view f"] by (auto simp: fake_inv_def simp del: map_of_eq_Some_iff)
  from self_keyed(2,3) [where key = t_ID, OF this] show
    "distinct (vals (f_tokens f))" "t \<in> set (vals (f_tokens f)) \<longleftrightarrow> map_of (f_tokens f) (t_ID t) = Some t"
    by auto
qed

section \<open>The chain walk\<close>

definition rotation_of :: "(uuid \<rightharpoonup> RefreshToken) \<Rightarrow> (uuid \<times> uuid) set" where
  "rotation_of m = {(x, y). \<exists>t. m x = Some t \<and> t_ReplacedBy t = Some y}"

lemma rotated_rotation_of: "rotated a = rotation_of (a_toks a)"
  by (simp add: rotated_def rotation_of_def)

lemma finite_rotation_of: "finite (dom m) \<Longrightarrow> finite (rotation_of m)"
proof -
  assume "finite (dom m)"
  moreover have "rotation_of m \<subseteq> (\<lambda>x. (x, the (t_ReplacedBy (the (m x))))) ` dom m"
    by (force simp: rotation_of_def)
  ultimately show ?thesis by (meson finite_imageI finite_subset)
qed

text \<open>One round of the loop: revoke the token at \<open>x\<close> in place.\<close>

lemma chain_round:
  assumes "map_of m x = Some cur" "\<forall>i t. map_of m i = Some t \<longrightarrow> t_ID t = i"
    and "m1 = (if t_RevokedAt cur = None then AList.update (t_ID cur) (cur\<lparr>t_RevokedAt := Some now\<rparr>) m else m)"
  shows "map_of m1 = (\<lambda>i. map_option (revoke_if (\<lambda>t. t_ID t = x) now) (map_of m i))"
    "map fst m1 = map fst m"
    "rotation_of (map_of m1) = rotation_of (map_of m)"
proof -
  have id: "t_ID cur = x" using assms by simp
  have upd: "map_of m1 = (map_of m)(x \<mapsto> revoke_at now cur)"
    using assms(1,3) id by (auto simp: revoke_at_def)
  show first: "map_of m1 = (\<lambda>i. map_option (revoke_if (\<lambda>t. t_ID t = x) now) (map_of m i))"
  proof (rule ext)
    fix i
    show "map_of m1 i = map_option (revoke_if (\<lambda>t. t_ID t = x) now) (map_of m i)"
      using assms(1,2) id by (cases "map_of m i") (auto simp: upd revoke_if_def)
  qed
  have "x \<in> fst ` set m" using assms(1) by (metis domI dom_map_of_conv_image_fst)
  then show "map fst m1 = map fst m" using assms(3) id by (simp add: update_keys)
  show "rotation_of (map_of m1) = rotation_of (map_of m)"
    unfolding first by (auto simp: rotation_of_def)
qed

lemma reach_successors: "R\<^sup>* `` {x} = insert x (\<Union>n \<in> R `` {x}. R\<^sup>* `` {n})"
  by (auto elim: converse_rtranclE intro: converse_rtrancl_into_rtrancl)

lemma revoke_if_twice:
  "(\<And>t. P (revoke_if Q now t) = P t) \<Longrightarrow> revoke_if P now (revoke_if Q now t) = revoke_if (\<lambda>t. Q t \<or> P t) now t"
  by (auto simp: revoke_if_def revoke_at_def)

lemma chain_loop_correct:
  assumes "wf (R\<inverse>)"
  shows "map_of m x = Some cur \<Longrightarrow> \<forall>i t. map_of m i = Some t \<longrightarrow> t_ID t = i \<Longrightarrow>
    rotation_of (map_of m) = R \<Longrightarrow>
    \<exists>m'. chain_loop now cur m = Some m' \<and> map fst m' = map fst m \<and>
      map_of m' = (\<lambda>i. map_option (revoke_if (\<lambda>t. t_ID t \<in> R\<^sup>* `` {x}) now) (map_of m i))"
  using assms
proof (induction x arbitrary: m cur rule: wf_induct_rule)
  case (less x)
  define m1 where "m1 = (if t_RevokedAt cur = None
    then AList.update (t_ID cur) (cur\<lparr>t_RevokedAt := Some now\<rparr>) m else m)"
  note m1 = chain_round [OF less.prems(1,2) m1_def]
  have unfold: "chain_loop now cur m = (case t_ReplacedBy cur of None \<Rightarrow> Some m1
      | Some n \<Rightarrow> (case map_of m1 n of None \<Rightarrow> Some m1 | Some nxt \<Rightarrow> chain_loop now nxt m1))"
    by (simp only: chain_loop.simps [of now cur m] m1_def Let_def)
  have "R `` {x} = set_option (t_ReplacedBy cur)"
    using less.prems(1,3) by (auto simp: rotation_of_def)
  then have reach: "R\<^sup>* `` {x} = insert x (\<Union>n \<in> set_option (t_ReplacedBy cur). R\<^sup>* `` {n})"
    by (metis reach_successors)
  consider (leaf) "t_ReplacedBy cur = None"
    | (lost) n where "t_ReplacedBy cur = Some n" "map_of m1 n = None"
    | (step) n nxt where "t_ReplacedBy cur = Some n" "map_of m1 n = Some nxt"
    by (cases "t_ReplacedBy cur"; cases "map_of m1 (the (t_ReplacedBy cur))") auto
  then show ?case
  proof cases
    case leaf
    then show ?thesis using m1(2) by (simp add: unfold reach m1(1))
  next
    case lost
    then have n: "map_of m n = None" by (simp add: m1(1))
    then have "R\<^sup>* `` {n} = {n}"
      using less.prems(3) by (auto simp: rotation_of_def elim: converse_rtranclE)
    moreover have "map_option (revoke_if (\<lambda>t. t_ID t = x) now) (map_of m i) =
        map_option (revoke_if (\<lambda>t. t_ID t = x \<or> t_ID t = n) now) (map_of m i)" for i
      using less.prems(2) n by (cases "map_of m i") (auto simp: revoke_if_def)
    ultimately show ?thesis
      using lost m1(2) by (simp add: unfold reach m1(1))
  next
    case step
    have "(n, x) \<in> R\<inverse>" using step(1) less.prems(1,3) by (auto simp: rotation_of_def)
    moreover have "\<forall>i t. map_of m1 i = Some t \<longrightarrow> t_ID t = i" using less.prems(2) by (auto simp: m1(1))
    ultimately obtain m' where m': "chain_loop now nxt m1 = Some m'" "map fst m' = map fst m1"
      "map_of m' = (\<lambda>i. map_option (revoke_if (\<lambda>t. t_ID t \<in> R\<^sup>* `` {n}) now) (map_of m1 i))"
      using less.IH step(2) m1(3) less.prems(3) by blast
    from m'(3) have "map_of m' = (\<lambda>i. map_option (revoke_if (\<lambda>t. t_ID t \<in> R\<^sup>* `` {x}) now) (map_of m i))"
      by (simp add: m1(1) reach step(1) option.map_comp o_def revoke_if_twice)
    with m'(1,2) m1(2) step show ?thesis by (simp only: unfold option.case) simp
  qed
qed

section \<open>Fake_Store implements the contract\<close>

lemma fake_revoke_one:
  assumes "keyed ci (fake_view f)" "map_of (f_tokens f) i = Some t" "t_RevokedAt t = None"
  shows "put_tok (t\<lparr>t_RevokedAt := Some now\<rparr>) (fake_view f) = revoke_where (\<lambda>t. t_ID t = i) now (fake_view f)"
proof -
  have id: "t_ID t = i" using assms by (auto dest: keyed_tok_ID)
  have "((map_of (f_tokens f))(i \<mapsto> t\<lparr>t_RevokedAt := Some now\<rparr>)) j =
      map_option (revoke_if (\<lambda>t. t_ID t = i) now) (map_of (f_tokens f) j)" for j
  proof (cases "j = i")
    case True
    with assms(2,3) id show ?thesis by (simp add: revoke_if_def revoke_at_def)
  next
    case False
    then have "t_ID s \<noteq> i" if "map_of (f_tokens f) j = Some s" for s
      using keyed_tok_ID [OF assms(1), of j s] that by simp
    with False show ?thesis by (cases "map_of (f_tokens f) j") (simp_all add: revoke_if_def)
  qed
  then show ?thesis
    using id by (simp add: put_tok_def revoke_where_def fun_eq_iff)
qed

lemma fake_revoke_user_map:
  assumes "\<And>i t. map_of m i = Some t \<Longrightarrow> t_ID t = i"
  shows "map_of (map (\<lambda>(i, t). (i, if t_UserID t \<noteq> uid \<or> t_RevokedAt t \<noteq> None then t
             else if ex = Some i then t else t\<lparr>t_RevokedAt := Some now\<rparr>)) m) =
    (\<lambda>i. map_option (revoke_if (\<lambda>t. t_UserID t = uid \<and> \<not> spared ex (t_ID t)) now) (map_of m i))"
proof
  fix i
  show "map_of (map (\<lambda>(i, t). (i, if t_UserID t \<noteq> uid \<or> t_RevokedAt t \<noteq> None then t
             else if ex = Some i then t else t\<lparr>t_RevokedAt := Some now\<rparr>)) m) i =
    map_option (revoke_if (\<lambda>t. t_UserID t = uid \<and> \<not> spared ex (t_ID t)) now) (map_of m i)"
    unfolding map_of_map_vals using assms [of i]
    by (cases "map_of m i") (auto simp: revoke_if_def revoke_at_def spared_def)
qed

lemma fake_apply_update:
  "(case up_Status p of None \<Rightarrow> u3 | Some s \<Rightarrow> u3\<lparr>u_Status := s\<rparr>)\<lparr>u_UpdatedAt := now\<rparr> = apply_update p now u0"
  if "u3 = (case up_Role p of None \<Rightarrow> u2 | Some r \<Rightarrow> u2\<lparr>u_Role := r\<rparr>)"
    "u2 = (case up_Email p of None \<Rightarrow> u1 | Some e \<Rightarrow> u1\<lparr>u_Email := Some e\<rparr>)"
    "u1 = (case up_DisplayName p of None \<Rightarrow> u0 | Some d \<Rightarrow> u0\<lparr>u_DisplayName := d\<rparr>)"
  using that by (auto simp: apply_update_def split: option.splits)

lemma fake_UpdateUser_eq:
  "Fake_UpdateUser p w =
     (case map_of (f_users (db w)) (up_ID p) of
        None \<Rightarrow> (Inl ErrNotFound, w)
      | Some u0 \<Rightarrow>
          (let u = apply_update p (shd (clock w)) u0 in
           (Inr u, set_users (AList.update (up_ID p) u (f_users (db w))) (w\<lparr>clock := stl (clock w)\<rparr>))))"
  by (simp add: Fake_UpdateUser_def time_now_def fake_apply_update Let_def split: option.split)

lemma fake_invI:
  "distinct (map fst (f_users f)) \<Longrightarrow> distinct (map fst (f_credentials f)) \<Longrightarrow>
   distinct (map fst (f_tokens f)) \<Longrightarrow> keyed ci (fake_view f) \<Longrightarrow> fake_inv ci f"
  by (simp add: fake_inv_def)

lemma fake_inv_keyed: "fake_inv ci f \<Longrightarrow> keyed ci (fake_view f)"
  by (simp add: fake_inv_def)

lemma fake_chain_law:
  assumes "fake_inv ci (db w)" "acyclic (rotated (fake_view (db w)))"
    and "Fake_RevokeRefreshTokenChain i w = (r, w')"
  shows "r = Inr () \<and> frame (fake_inv ci) w w' \<and> uuids w' = uuids w \<and>
    fake_view (db w') = revoke_where (\<lambda>t. t_ID t \<in> chain (fake_view (db w)) i) (shd (clock w)) (fake_view (db w))"
proof (cases "map_of (f_tokens (db w)) i")
  case None
  let ?a = "fake_view (db w)"
  have "chain ?a i = {i}" using None by (simp add: chain_leaf)
  moreover have "t_ID t \<noteq> i" if "map_of (f_tokens (db w)) j = Some t" for j t
    using keyed_tok_ID [OF fake_inv_keyed [OF assms(1)], of j t] that None by auto
  then have "map_option (revoke_if (\<lambda>t. t_ID t = i) (shd (clock w))) (map_of (f_tokens (db w)) j)
      = map_of (f_tokens (db w)) j" for j
    by (cases "map_of (f_tokens (db w)) j") (auto simp: revoke_if_def)
  ultimately show ?thesis
    using assms None by (auto simp: Fake_RevokeRefreshTokenChain_def time_now_def frame_def
        revoke_where_def fake_view_def)
next
  case (Some cur)
  let ?m = "f_tokens (db w)" and ?R = "rotated (fake_view (db w))"
  have R: "?R = rotation_of (map_of ?m)" by (simp add: rotated_rotation_of)
  have "finite (dom (map_of ?m))" by (rule finite_dom_map_of)
  then have "finite ?R" unfolding R by (rule finite_rotation_of)
  then have "wf (?R\<inverse>)" using assms(2) by (rule finite_acyclic_wf_converse)
  moreover have "\<forall>i t. map_of ?m i = Some t \<longrightarrow> t_ID t = i"
    using keyed_tok_ID [OF fake_inv_keyed [OF assms(1)]] by simp
  ultimately obtain m' where m': "chain_loop (shd (clock w)) cur ?m = Some m'" "map fst m' = map fst ?m"
    "map_of m' = (\<lambda>j. map_option (revoke_if (\<lambda>t. t_ID t \<in> ?R\<^sup>* `` {i}) (shd (clock w))) (map_of ?m j))"
    using chain_loop_correct [OF _ Some _ R [symmetric]] by blast
  then have view: "fake_view ((db w)\<lparr>f_tokens := m'\<rparr>) =
      revoke_where (\<lambda>t. t_ID t \<in> chain (fake_view (db w)) i) (shd (clock w)) (fake_view (db w))"
    by (simp add: fake_view_def revoke_where_def chain_def rotated_def)
  moreover have "fake_inv ci ((db w)\<lparr>f_tokens := m'\<rparr>)"
    using assms(1) m'(2) by (intro fake_invI) (simp_all add: fake_inv_def view keyed_revoke_where)
  ultimately show ?thesis
    using assms(3) Some m'(1) by (auto simp: Fake_RevokeRefreshTokenChain_def time_now_def frame_def)
qed

lemma fake_revoke_user_law:
  assumes "fake_inv ci (db w)" "Fake_RevokeUserRefreshTokens i ex w = (r, w')"
  shows "r = Inr () \<and> frame (fake_inv ci) w w' \<and> uuids w' = uuids w \<and>
    fake_view (db w') = revoke_where (\<lambda>t. t_UserID t = i \<and> \<not> spared ex (t_ID t)) (shd (clock w)) (fake_view (db w))"
proof -
  have ids: "\<And>j t. map_of (f_tokens (db w)) j = Some t \<Longrightarrow> t_ID t = j"
    using keyed_tok_ID [OF fake_inv_keyed [OF assms(1)]] by simp
  have view: "fake_view (db w') = revoke_where (\<lambda>t. t_UserID t = i \<and> \<not> spared ex (t_ID t)) (shd (clock w)) (fake_view (db w))"
    using assms(2) fake_revoke_user_map [OF ids]
    by (auto simp: Fake_RevokeUserRefreshTokens_def time_now_def fake_view_def revoke_where_def)
  have "map fst (f_tokens (db w')) = map fst (f_tokens (db w))" "f_users (db w') = f_users (db w)"
    "f_credentials (db w') = f_credentials (db w)"
    using assms(2) by (auto simp: Fake_RevokeUserRefreshTokens_def time_now_def o_def split_def)
  with assms(1) view have "fake_inv ci (db w')"
    by (intro fake_invI) (simp_all add: fake_inv_def keyed_revoke_where)
  with view assms(2) show ?thesis
    by (auto simp: Fake_RevokeUserRefreshTokens_def time_now_def frame_def)
qed

lemma fake_undisturbed: "fake_inv ci (db w) \<Longrightarrow> (\<forall>e. r = Inl e \<longrightarrow> \<not> abrupt e) \<Longrightarrow>
    undisturbed fake_view (fake_inv ci) w r (w\<lparr>clock := c\<rparr>)"
  by (simp add: undisturbed_def frame_def)

lemma fake_read_only_id: "fake_inv ci (db w) \<Longrightarrow> (\<forall>e. r = Inl e \<longrightarrow> \<not> abrupt e) \<Longrightarrow>
    read_only fake_view (fake_inv ci) w r w"
  by (simp add: read_only_def undisturbed_def frame_def)

lemma fake_by_username_law:
  assumes "fake_inv ci (db w)" "Fake_GetUserByUsername ci n w = (r, w')"
  shows "read_only fake_view (fake_inv ci) w r w' \<and>
    (\<forall>u. r = Inr u \<longrightarrow> map_of (f_users (db w)) (u_ID u) = Some u \<and> ci (u_Username u) = ci n) \<and>
    (r = Inl ErrNotFound \<longrightarrow> name_free ci n (fake_view (db w)))"
proof (cases "find (\<lambda>u. EqualFold ci (u_Username u) n) (vals (f_users (db w)))")
  case None
  then have "name_free ci n (fake_view (db w))"
    using fake_ran_users [OF assms(1)]
    by (auto simp: find_None_set name_free_def EqualFold_def ran_def simp del: map_of_eq_Some_iff)
  with None assms show ?thesis
    by (auto simp: Fake_GetUserByUsername_def fake_read_only_id)
next
  case (Some u)
  with fake_users_keyed(2) [OF assms(1)] have "map_of (f_users (db w)) (u_ID u) = Some u" "ci (u_Username u) = ci n"
    by (auto dest!: find_SomeD simp: EqualFold_def)
  with Some assms show ?thesis
    by (auto simp: Fake_GetUserByUsername_def fake_read_only_id)
qed

lemma fake_by_hash_law:
  assumes "fake_inv ci (db w)" "Fake_GetRefreshTokenByHash h w = (r, w')"
  shows "read_only fake_view (fake_inv ci) w r w' \<and>
    (\<forall>t. r = Inr t \<longrightarrow> map_of (f_tokens (db w)) (t_ID t) = Some t \<and> t_TokenHash t = h) \<and>
    (r = Inl ErrNotFound \<longrightarrow> (\<forall>i t. map_of (f_tokens (db w)) i = Some t \<longrightarrow> t_TokenHash t \<noteq> h))"
proof (cases "find (\<lambda>t. t_TokenHash t = h) (vals (f_tokens (db w)))")
  case None
  then have "\<forall>i t. map_of (f_tokens (db w)) i = Some t \<longrightarrow> t_TokenHash t \<noteq> h"
    using fake_ran_tokens [OF assms(1)] by (auto simp: find_None_set ran_def simp del: map_of_eq_Some_iff)
  with None assms show ?thesis
    by (auto simp: Fake_GetRefreshTokenByHash_def fake_read_only_id)
next
  case (Some t)
  with fake_tokens_keyed(2) [OF assms(1)] have "map_of (f_tokens (db w)) (t_ID t) = Some t" "t_TokenHash t = h"
    by (auto dest!: find_SomeD)
  with Some assms show ?thesis
    by (auto simp: Fake_GetRefreshTokenByHash_def fake_read_only_id)
qed

lemma fake_create_user_law:
  assumes "fake_inv ci (db w)" "Fake_CreateUser ci p w = (r, w')"
  shows "frame (fake_inv ci) w w' \<and> (uuids w' = uuids w \<or> uuids w' = stl (uuids w)) \<and>
    (r = Inl ErrDuplicateUsername \<and> w' = w \<and> \<not> name_free ci (cp_Username p) (fake_view (db w)) \<or>
     r = Inl Panicked \<and> db w' = db w \<or>
     (\<exists>i. shd (uuids w) = Some i \<and> r = Inr (new_user p i (shd (clock w))) \<and>
        fake_view (db w') = put_user (new_user p i (shd (clock w))) (fake_view (db w)) \<and>
        name_free ci (cp_Username p) (fake_view (db w))))"
proof (cases "list_ex (\<lambda>u. EqualFold ci (u_Username u) (cp_Username p)) (vals (f_users (db w)))")
  case True
  then have "\<not> name_free ci (cp_Username p) (fake_view (db w))"
    using fake_ran_users [OF assms(1)]
    by (auto simp: list_ex_iff name_free_def EqualFold_def ran_def simp del: map_of_eq_Some_iff)
  with True assms show ?thesis by (auto simp: Fake_CreateUser_def frame_def)
next
  case False
  then have free: "name_free ci (cp_Username p) (fake_view (db w))"
    using fake_ran_users [OF assms(1)]
    by (auto simp: list_ex_iff name_free_def EqualFold_def ran_def simp del: map_of_eq_Some_iff)
  show ?thesis
  proof (cases "shd (uuids w)")
    case None
    with False assms show ?thesis
      by (auto simp: Fake_CreateUser_def frame_def time_now_def uuid_NewV7_def Let_def)
  next
    case (Some i)
    let ?u = "new_user p i (shd (clock w))"
    let ?f = "(db w)\<lparr>f_users := AList.update i ?u (f_users (db w))\<rparr>"
    have view: "fake_view ?f = put_user ?u (fake_view (db w))" by (simp add: fake_view_effects)
    moreover have "fake_inv ci ?f"
      using assms(1) free by (intro fake_invI) (simp_all add: fake_inv_def view keyed_put_user_new)
    ultimately show ?thesis
      using Some False assms free
      by (auto simp: Fake_CreateUser_def frame_def time_now_def uuid_NewV7_def Let_def new_user_def)
  qed
qed

lemma fake_update_user_law:
  assumes "fake_inv ci (db w)" "Fake_UpdateUser p w = (r, w')"
  shows "frame (fake_inv ci) w w' \<and> uuids w' = uuids w \<and>
    (r = Inl ErrNotFound \<and> w' = w \<and> map_of (f_users (db w)) (up_ID p) = None \<or>
     (\<exists>u0. map_of (f_users (db w)) (up_ID p) = Some u0 \<and> r = Inr (apply_update p (shd (clock w)) u0) \<and>
        fake_view (db w') = put_user (apply_update p (shd (clock w)) u0) (fake_view (db w))))"
proof (cases "map_of (f_users (db w)) (up_ID p)")
  case None
  with assms show ?thesis by (auto simp: fake_UpdateUser_eq frame_def)
next
  case (Some u0)
  let ?u = "apply_update p (shd (clock w)) u0"
  let ?f = "(db w)\<lparr>f_users := AList.update (up_ID p) ?u (f_users (db w))\<rparr>"
  have "u_ID u0 = up_ID p" using Some keyed_user_ID [OF fake_inv_keyed [OF assms(1)], of "up_ID p" u0] by simp
  then have view: "fake_view ?f = put_user ?u (fake_view (db w))" by (simp add: fake_view_effects)
  moreover have "keyed ci (put_user ?u (fake_view (db w)))"
    using Some by (intro keyed_put_user_update [OF fake_inv_keyed [OF assms(1)]]) simp
  then have "fake_inv ci ?f"
    using assms(1) by (intro fake_invI) (simp_all add: fake_inv_def view)
  ultimately show ?thesis
    using Some assms by (auto simp: fake_UpdateUser_eq frame_def Let_def)
qed

lemma fake_set_credential_law:
  assumes "fake_inv ci (db w)" "Fake_SetCredential i h mc w = (r, w')"
  shows "r = Inr () \<and> frame (fake_inv ci) w w' \<and> uuids w' = uuids w \<and>
    fake_view (db w') = put_cred i h mc (shd (clock w)) (fake_view (db w))"
proof -
  have view: "fake_view (db w') = put_cred i h mc (shd (clock w)) (fake_view (db w))"
    using assms(2) by (auto simp: Fake_SetCredential_def time_now_def fake_view_effects)
  moreover have "fake_inv ci (db w')"
    using assms by (intro fake_invI)
      (auto simp: fake_inv_def view keyed_put_cred Fake_SetCredential_def time_now_def)
  ultimately show ?thesis
    using assms(2) by (auto simp: Fake_SetCredential_def time_now_def frame_def)
qed

lemma fake_put_token_inv:
  assumes "fake_inv ci f" "t_ID t = i" "keyed ci (put_tok t (fake_view f))"
  shows "fake_inv ci (f\<lparr>f_tokens := AList.update i t (f_tokens f)\<rparr>)"
  using assms by (intro fake_invI) (simp_all add: fake_inv_def fake_view_effects)

lemma fake_create_token_law:
  assumes "fake_inv ci (db w)" "tok_fresh t (fake_view (db w))" "Fake_CreateRefreshToken t w = (r, w')"
  shows "r = Inr () \<and> frame (fake_inv ci) w w' \<and> uuids w' = uuids w \<and>
    fake_view (db w') = put_tok t (fake_view (db w))"
  using assms fake_put_token_inv [OF assms(1) refl keyed_put_tok [OF fake_inv_keyed [OF assms(1)] assms(2)]]
  by (auto simp: Fake_CreateRefreshToken_def frame_def fake_view_effects)

lemma fake_replace_law:
  assumes "fake_inv ci (db w)" "Fake_ReplaceRefreshToken old new w = (r, w')"
  shows "frame (fake_inv ci) w w' \<and> uuids w' = uuids w \<and>
    (r = Inl ErrNotFound \<and> w' = w \<and> (\<forall>t. map_of (f_tokens (db w)) old = Some t \<longrightarrow> t_ReplacedBy t \<noteq> None) \<or>
     r = Inr () \<and> (\<exists>t. map_of (f_tokens (db w)) old = Some t \<and> t_ReplacedBy t = None \<and>
        fake_view (db w') = put_tok (replace_at (shd (clock w)) new t) (fake_view (db w))))"
proof (cases "\<exists>t. map_of (f_tokens (db w)) old = Some t \<and> t_ReplacedBy t = None")
  case True
  then obtain t where t: "map_of (f_tokens (db w)) old = Some t" "t_ReplacedBy t = None" by auto
  have id: "t_ID (replace_at (shd (clock w)) new t) = old"
    using keyed_tok_ID [OF fake_inv_keyed [OF assms(1)], of old t] t by simp
  have "keyed ci (put_tok (replace_at (shd (clock w)) new t) (fake_view (db w)))"
    using t by (intro keyed_replace [OF fake_inv_keyed [OF assms(1)]]) simp
  from fake_put_token_inv [OF assms(1) id this] fake_view_effects(3) [OF id, of "db w"] t assms(2)
  show ?thesis by (auto simp: Fake_ReplaceRefreshToken_def time_now_def frame_def replace_at_def)
next
  case False
  with assms show ?thesis
    by (auto simp: Fake_ReplaceRefreshToken_def frame_def time_now_def split: option.splits)
qed

lemma fake_revoke_law:
  assumes "fake_inv ci (db w)" "Fake_RevokeRefreshToken i w = (r, w')"
  shows "frame (fake_inv ci) w w' \<and> uuids w' = uuids w \<and>
    (r = Inl ErrNotFound \<and> w' = w \<and> (\<forall>t. map_of (f_tokens (db w)) i = Some t \<longrightarrow> t_RevokedAt t \<noteq> None) \<or>
     r = Inr () \<and> fake_view (db w') = revoke_where (\<lambda>t. t_ID t = i) (shd (clock w)) (fake_view (db w)))"
proof (cases "\<exists>t. map_of (f_tokens (db w)) i = Some t \<and> t_RevokedAt t = None")
  case True
  then obtain t where t: "map_of (f_tokens (db w)) i = Some t" "t_RevokedAt t = None" by auto
  let ?t = "t\<lparr>t_RevokedAt := Some (shd (clock w))\<rparr>"
  have id: "t_ID ?t = i" using keyed_tok_ID [OF fake_inv_keyed [OF assms(1)], of i t] t by simp
  note rev = fake_revoke_one [OF fake_inv_keyed [OF assms(1)] t, of "shd (clock w)"]
  have "keyed ci (put_tok ?t (fake_view (db w)))"
    unfolding rev by (rule keyed_revoke_where [OF fake_inv_keyed [OF assms(1)]])
  from fake_put_token_inv [OF assms(1) id this] fake_view_effects(3) [OF id, of "db w"] t rev assms(2)
  show ?thesis by (auto simp: Fake_RevokeRefreshToken_def time_now_def frame_def)
next
  case False
  with assms show ?thesis
    by (auto simp: Fake_RevokeRefreshToken_def frame_def time_now_def split: option.splits)
qed

lemma fake_list_sessions_law:
  assumes "fake_inv ci (db w)" "Fake_ListUserSessions i w = (r, w')"
  shows "undisturbed fake_view (fake_inv ci) w r w' \<and>
    (\<exists>l. r = Inr l \<and> set l = {t \<in> ran (map_of (f_tokens (db w))). t_UserID t = i \<and> Active t (shd (clock w))}
       \<and> distinct l \<and> sorted (map (\<lambda>t. - t_IssuedAt t) l))"
proof -
  let ?ts = "filter (\<lambda>t. t_UserID t = i \<and> Active t (shd (clock w))) (vals (f_tokens (db w)))"
  have "sorted (map (\<lambda>t. - t_IssuedAt t) (exchange_sort (\<lambda>x y. t_IssuedAt x > t_IssuedAt y) ?ts))"
    using exchange_sort_sorted [of "\<lambda>t. - t_IssuedAt t" ?ts] by simp
  moreover have "distinct ?ts" using fake_tokens_keyed(1) [OF assms(1)] by simp
  ultimately show ?thesis
    using assms fake_ran_tokens [OF assms(1)]
    by (auto simp: Fake_ListUserSessions_def time_now_def fake_undisturbed)
qed

lemma fake_list_users_law:
  assumes "fake_inv ci (db w)" "Fake_ListUsers w = (r, w')"
  shows "read_only fake_view (fake_inv ci) w r w' \<and>
    (\<exists>us. r = Inr us \<and> set us = ran (map_of (f_users (db w))) \<and> distinct us \<and> sorted (map u_CreatedAt us))"
  using assms fake_ran_users [OF assms(1)] fake_users_keyed(1) [OF assms(1)]
    exchange_sort_sorted [of u_CreatedAt "vals (f_users (db w))"]
  by (auto simp: Fake_ListUsers_def fake_read_only_id)

lemma fake_count_law:
  assumes "fake_inv ci (db w)"
  shows "length (f_users (db w)) = card (dom (map_of (f_users (db w))))"
proof -
  have "card (dom (map_of (f_users (db w)))) = card (set (map fst (f_users (db w))))"
    by (simp add: dom_map_of_conv_image_fst)
  also have "\<dots> = length (f_users (db w))"
    using assms by (metis distinct_card fake_inv_def length_map)
  finally show ?thesis by simp
qed

lemmas fake_sel = Fake_Store_def Store.simps

interpretation fake: store_contract "Fake_Store ci" fake_view "fake_inv ci" ci "\<lambda>x. x" "\<lambda>w. shd (clock w)"
    fresh_user_id fresh_token_key for ci
proof (unfold_locales, goal_cases)
  case (1 d)
  then show ?case by (rule fake_inv_keyed)
next
  case (3 w i ru w')
  then show ?case
    by (auto simp: fake_sel Fake_GetUser_def fake_read_only_id split: option.splits)
next
  case (4 w n ru w')
  then show ?case using fake_by_username_law [of ci w n ru w'] by (simp add: fake_sel)
next
  case (5 w rl w')
  then show ?case using fake_list_users_law [of ci w rl w'] by (auto simp: fake_sel)
next
  case (6 w rn w')
  then show ?case using fake_count_law [of ci w]
    by (auto simp: fake_sel Fake_CountUsers_def fake_read_only_id)
next
  case (7 w i rc w')
  then show ?case
    by (auto simp: fake_sel Fake_GetCredential_def fake_read_only_id split: option.splits)
next
  case (8 w h rt w')
  then show ?case using fake_by_hash_law [of ci w h rt w'] by (simp add: fake_sel)
next
  case (9 w i rs w')
  then show ?case using fake_list_sessions_law [of ci w i rs w'] by (auto simp: fake_sel)
next
  case (10 w p ru w')
  then show ?case using fake_create_user_law [of ci w p ru w']
    by (auto simp: fake_sel wrote_def fresh_user_id_def)
next
  case (11 w up ru w')
  then show ?case using fake_update_user_law [of ci w up ru w'] by (auto simp: fake_sel wrote_def)
next
  case (12 w i ph mc r w')
  then show ?case using fake_set_credential_law [of ci w i ph mc r w'] by (auto simp: fake_sel wrote_def)
next
  case (13 w t r w')
  then show ?case using fake_create_token_law [of ci w t r w']
    by (auto simp: fake_sel wrote_def fresh_token_key_def tok_fresh_def)
next
  case (14 w old new r w')
  then show ?case using fake_replace_law [of ci w old new r w'] by (auto simp: fake_sel wrote_def)
next
  case (15 w i r w')
  then show ?case using fake_revoke_law [of ci w i r w'] by (auto simp: fake_sel wrote_def)
next
  case (16 w i r w')
  then show ?case using fake_chain_law [of ci w i r w'] by (auto simp: fake_sel wrote_def)
next
  case (17 w i ex r w')
  then show ?case using fake_revoke_user_law [of ci w i ex r w'] by (auto simp: fake_sel wrote_def)
qed auto

interpretation fake_live: reliable_store "Fake_Store ci" fake_view "fake_inv ci" ci "\<lambda>x. x" "\<lambda>w. shd (clock w)"
    fresh_user_id fresh_token_key for ci
proof (unfold_locales, goal_cases)
  case (5 w i ph mc r w')
  then show ?case using fake_set_credential_law [of ci w i ph mc r w'] by (simp add: fake_sel)
next
  case (6 w t r w')
  then show ?case using fake_create_token_law [of ci w t r w'] by (simp add: fake_sel)
next
  case (7 w old t new r w')
  then show ?case using fake_replace_law [of ci w old new r w'] by (auto simp: fake_sel)
next
  case (8 w i e w')
  then show ?case using fake_revoke_law [of ci w i "Inl e" w'] by (auto simp: fake_sel)
next
  case (9 w i r w')
  then show ?case using fake_chain_law [of ci w i r w'] by (simp add: fake_sel)
next
  case (10 w i ex r w')
  then show ?case using fake_revoke_user_law [of ci w i ex r w'] by (simp add: fake_sel)
next
  case (13 w i p ru w')
  then show ?case
    using fake_ran_users [of ci "db w"]
    by (auto simp: fake_sel Fake_CreateUser_def uuid_NewV7_def time_now_def Let_def list_ex_iff name_free_def EqualFold_def
        ran_def split: if_splits simp del: map_of_eq_Some_iff)
next
  case (14 w up ru w')
  then show ?case using fake_update_user_law [of ci w up ru w'] by (auto simp: fake_sel fake_view_def)
qed (auto simp: fake_sel Fake_GetUser_def Fake_GetUserByUsername_def Fake_GetCredential_def
       Fake_GetRefreshTokenByHash_def Fake_CountUsers_def Fake_ListUserSessions_def time_now_def split: option.splits)

end
