(* ===== verification/Postgres_Store.thy ===== *)
theory Postgres_Store
  imports Store Codec
begin

text \<open>
  \<^verbatim>\<open>internal/store/postgres.go\<close> over the schema of \<^verbatim>\<open>migrations/0001_init.up.sql\<close>. A table is
  a list of rows; each method sends one SQL statement, and the statement is translated to a
  function on the tables with the constraints of the schema (primary keys, unique columns,
  \<^verbatim>\<open>CHECK\<close>s, foreign keys) and its SQLSTATE errors. What the network and the server do
  otherwise is a stream of outcomes, one per statement, about which nothing is assumed: a
  statement may be refused, may not reach the server, or may be carried out and its answer
  lost. \<^verbatim>\<open>now()\<close> is a stream of server times. That this store keeps \<open>store_contract\<close> is
  shown in \<^verbatim>\<open>Postgres_Refines\<close>.
\<close>

section \<open>Tables and statements\<close>

datatype outcome = NetOk | NetRefused string | NetDown string | NetLost string

record Pg =
  pg_users :: "User list"
  pg_credentials :: "Credential list"
  pg_tokens :: "RefreshToken list"
  pg_now :: "instant stream"
  pg_net :: "outcome stream"

definition uniqueViolation :: string where "uniqueViolation = ''23505''"
definition checkViolation :: string where "checkViolation = ''23514''"
definition foreignKeyViolation :: string where "foreignKeyViolation = ''23503''"

text \<open>A \<^verbatim>\<open>timestamptz\<close> holds microseconds; the driver drops the rest.\<close>

definition pg_ts :: "instant \<Rightarrow> instant" where
  "pg_ts t = t div 1000 * 1000"

definition pg_tick :: "Pg \<Rightarrow> Pg" where
  "pg_tick d = d\<lparr>pg_now := stl (pg_now d), pg_net := stl (pg_net d)\<rparr>"

definition pg_exec :: "(instant \<Rightarrow> Pg \<Rightarrow> err + 'a \<times> Pg) \<Rightarrow> (Pg, 'a) io" where
  "pg_exec stmt w =
     (let d = pg_tick (db w); w0 = w\<lparr>db := d\<rparr>; now = pg_ts (shd (pg_now (db w))) in
      case shd (pg_net (db w)) of
        NetRefused code \<Rightarrow> (Inl (PgError code), w0)
      | NetDown msg \<Rightarrow> (Inl (Other msg), w0)
      | NetOk \<Rightarrow> (case stmt now d of Inl e \<Rightarrow> (Inl e, w0) | Inr (x, d') \<Rightarrow> (Inr x, w\<lparr>db := d'\<rparr>))
      | NetLost msg \<Rightarrow>
          (case stmt now d of Inl e \<Rightarrow> (Inl (if abrupt e then e else Other msg), w0)
           | Inr (x, d') \<Rightarrow> (Inl (Other msg), w\<lparr>db := d'\<rparr>)))"

text \<open>\<^verbatim>\<open>scanUser\<close> and \<^verbatim>\<open>scanToken\<close>: a missing row is \<^verbatim>\<open>ErrNotFound\<close>.\<close>

definition scan_row :: "(err + 'a option) \<times> Pg world \<Rightarrow> (err + 'a) \<times> Pg world" where
  "scan_row rw =
     (case rw of
        (Inl e, w) \<Rightarrow> (Inl e, w)
      | (Inr None, w) \<Rightarrow> (Inl ErrNotFound, w)
      | (Inr (Some x), w) \<Rightarrow> (Inr x, w))"

text \<open>\<^verbatim>\<open>tag.RowsAffected() == 0\<close> is \<^verbatim>\<open>ErrNotFound\<close>.\<close>

definition affected :: "(err + nat) \<times> Pg world \<Rightarrow> (err + unit) \<times> Pg world" where
  "affected rw =
     (case rw of
        (Inl e, w) \<Rightarrow> (Inl e, w)
      | (Inr n, w) \<Rightarrow> (if n = 0 then Inl ErrNotFound else Inr (), w))"

section \<open>Users\<close>

definition check_role :: "string \<Rightarrow> bool" where
  "check_role r \<longleftrightarrow> r = ''admin'' \<or> r = ''member''"

definition check_status :: "string \<Rightarrow> bool" where
  "check_status s \<longleftrightarrow> s = ''active'' \<or> s = ''disabled''"

definition sql_insert_user :: "(string \<Rightarrow> string) \<Rightarrow> uuid \<Rightarrow> CreateUserParams \<Rightarrow> instant \<Rightarrow> Pg \<Rightarrow> err + User option \<times> Pg" where
  "sql_insert_user ci i p now d =
     (if \<not> check_role (cp_Role p) \<or> \<not> check_status StatusActive then Inl (PgError checkViolation)
      else if list_ex (\<lambda>u. u_ID u = i \<or> ci (u_Username u) = ci (cp_Username p)) (pg_users d)
      then Inl (PgError uniqueViolation)
      else let u = \<lparr>u_ID = i, u_Username = cp_Username p, u_DisplayName = cp_DisplayName p, u_Email = None,
                    u_Role = cp_Role p, u_Status = StatusActive, u_CreatedAt = now, u_UpdatedAt = now\<rparr>
           in Inr (Some u, d\<lparr>pg_users := pg_users d @ [u]\<rparr>))"

definition Pg_CreateUser :: "(string \<Rightarrow> string) \<Rightarrow> CreateUserParams \<Rightarrow> (Pg, User) io" where
  "Pg_CreateUser ci p w =
     (case uuid_NewV7 w of
        (Inl e, w1) \<Rightarrow> (Inl e, w1)
      | (Inr i, w1) \<Rightarrow>
        (case scan_row (pg_exec (sql_insert_user ci i p) w1) of
           (Inl e, w2) \<Rightarrow> (Inl (if e = PgError uniqueViolation then ErrDuplicateUsername else e), w2)
         | (Inr u, w2) \<Rightarrow> (Inr u, w2)))"

definition Pg_GetUser :: "uuid \<Rightarrow> (Pg, User) io" where
  "Pg_GetUser i w = scan_row (pg_exec (\<lambda>now d. Inr (find (\<lambda>u. u_ID u = i) (pg_users d), d)) w)"

definition Pg_GetUserByUsername :: "(string \<Rightarrow> string) \<Rightarrow> string \<Rightarrow> (Pg, User) io" where
  "Pg_GetUserByUsername ci name w =
     scan_row (pg_exec (\<lambda>now d. Inr (find (\<lambda>u. ci (u_Username u) = ci name) (pg_users d), d)) w)"

definition Pg_ListUsers :: "(Pg, User list) io" where
  "Pg_ListUsers w = pg_exec (\<lambda>now d. Inr (sort_key u_CreatedAt (pg_users d), d)) w"

text \<open>
  \<^verbatim>\<open>UpdateUser\<close> builds its \<^verbatim>\<open>SET\<close> list: an assignment names a column and the position of its
  argument, and \<^verbatim>\<open>$1\<close> is the id.
\<close>

datatype column = ColDisplayName | ColEmail | ColRole | ColStatus
datatype sql_arg = ArgUUID uuid | ArgText string
datatype assignment = UpdatedAtNow | Assign column nat

definition column_name :: "column \<Rightarrow> string" where
  "column_name c = (case c of ColDisplayName \<Rightarrow> ''display_name'' | ColEmail \<Rightarrow> ''email'' | ColRole \<Rightarrow> ''role''
     | ColStatus \<Rightarrow> ''status'')"

definition render_set :: "assignment \<Rightarrow> string" where
  "render_set a = (case a of UpdatedAtNow \<Rightarrow> ''updated_at = now()''
     | Assign c n \<Rightarrow> column_name c @ '' = $'' @ show_nat n)"

definition add_set :: "column \<Rightarrow> string option \<Rightarrow> assignment list \<times> sql_arg list \<Rightarrow> assignment list \<times> sql_arg list" where
  "add_set c val sa =
     (case sa of (sets, args) \<Rightarrow>
        (case val of None \<Rightarrow> (sets, args)
         | Some v \<Rightarrow> (let args = args @ [ArgText v] in (sets @ [Assign c (length args)], args))))"

definition update_sets :: "UpdateUserParams \<Rightarrow> assignment list \<times> sql_arg list" where
  "update_sets p =
     add_set ColStatus (up_Status p) (add_set ColRole (up_Role p) (add_set ColEmail (up_Email p)
       (add_set ColDisplayName (up_DisplayName p) ([UpdatedAtNow], [ArgUUID (up_ID p)]))))"

definition arg_text :: "sql_arg list \<Rightarrow> nat \<Rightarrow> string" where
  "arg_text args n = (case args ! (n - 1) of ArgText v \<Rightarrow> v | ArgUUID _ \<Rightarrow> [])"

definition run_set :: "instant \<Rightarrow> sql_arg list \<Rightarrow> assignment \<Rightarrow> User \<Rightarrow> User" where
  "run_set now args a u =
     (case a of
        UpdatedAtNow \<Rightarrow> u\<lparr>u_UpdatedAt := now\<rparr>
      | Assign c n \<Rightarrow>
          (case c of
             ColDisplayName \<Rightarrow> u\<lparr>u_DisplayName := arg_text args n\<rparr>
           | ColEmail \<Rightarrow> u\<lparr>u_Email := Some (arg_text args n)\<rparr>
           | ColRole \<Rightarrow> u\<lparr>u_Role := arg_text args n\<rparr>
           | ColStatus \<Rightarrow> u\<lparr>u_Status := arg_text args n\<rparr>))"

definition sql_update_user :: "UpdateUserParams \<Rightarrow> instant \<Rightarrow> Pg \<Rightarrow> err + User option \<times> Pg" where
  "sql_update_user p now d =
     (case update_sets p of (sets, args) \<Rightarrow>
        (case find (\<lambda>u. u_ID u = up_ID p) (pg_users d) of
           None \<Rightarrow> Inr (None, d)
         | Some u0 \<Rightarrow>
             (let u = fold (run_set now args) sets u0 in
              if \<not> check_role (u_Role u) \<or> \<not> check_status (u_Status u) then Inl (PgError checkViolation)
              else Inr (Some u, d\<lparr>pg_users := map (\<lambda>x. if u_ID x = up_ID p then u else x) (pg_users d)\<rparr>))))"

definition Pg_UpdateUser :: "UpdateUserParams \<Rightarrow> (Pg, User) io" where
  "Pg_UpdateUser p w = scan_row (pg_exec (sql_update_user p) w)"

definition Pg_CountUsers :: "(Pg, int) io" where
  "Pg_CountUsers w = pg_exec (\<lambda>now d. Inr (int (length (pg_users d)), d)) w"

section \<open>Credentials\<close>

definition Pg_GetCredential :: "uuid \<Rightarrow> (Pg, Credential) io" where
  "Pg_GetCredential i w = scan_row (pg_exec (\<lambda>now d. Inr (find (\<lambda>c. c_UserID c = i) (pg_credentials d), d)) w)"

definition sql_upsert_credential :: "uuid \<Rightarrow> string \<Rightarrow> bool \<Rightarrow> instant \<Rightarrow> Pg \<Rightarrow> err + unit \<times> Pg" where
  "sql_upsert_credential i hash mustChange now d =
     (if list_ex (\<lambda>c. c_UserID c = i) (pg_credentials d)
      then Inr ((), d\<lparr>pg_credentials := map (\<lambda>c. if c_UserID c = i
             then c\<lparr>c_PasswordHash := hash, c_MustChange := mustChange, c_UpdatedAt := now\<rparr> else c)
             (pg_credentials d)\<rparr>)
      else if \<not> list_ex (\<lambda>u. u_ID u = i) (pg_users d) then Inl (PgError foreignKeyViolation)
      else Inr ((), d\<lparr>pg_credentials := pg_credentials d @
             [\<lparr>c_UserID = i, c_Kind = ''password'', c_PasswordHash = hash, c_MustChange = mustChange,
               c_UpdatedAt = now\<rparr>]\<rparr>))"

definition Pg_SetCredential :: "uuid \<Rightarrow> string \<Rightarrow> bool \<Rightarrow> (Pg, unit) io" where
  "Pg_SetCredential i hash mustChange w = pg_exec (sql_upsert_credential i hash mustChange) w"

section \<open>Refresh tokens\<close>

definition sql_insert_token :: "RefreshToken \<Rightarrow> instant \<Rightarrow> Pg \<Rightarrow> err + unit \<times> Pg" where
  "sql_insert_token t now d =
     (if list_ex (\<lambda>x. t_ID x = t_ID t \<or> t_TokenHash x = t_TokenHash t) (pg_tokens d)
      then Inl (PgError uniqueViolation)
      else if \<not> list_ex (\<lambda>u. u_ID u = t_UserID t) (pg_users d) then Inl (PgError foreignKeyViolation)
      else Inr ((), d\<lparr>pg_tokens := pg_tokens d @
             [\<lparr>t_ID = t_ID t, t_UserID = t_UserID t, t_TokenHash = t_TokenHash t, t_DeviceName = t_DeviceName t,
               t_IssuedAt = pg_ts (t_IssuedAt t), t_ExpiresAt = pg_ts (t_ExpiresAt t),
               t_RevokedAt = None, t_ReplacedBy = None\<rparr>]\<rparr>))"

definition Pg_CreateRefreshToken :: "RefreshToken \<Rightarrow> (Pg, unit) io" where
  "Pg_CreateRefreshToken t w = pg_exec (sql_insert_token t) w"

definition Pg_GetRefreshTokenByHash :: "bytes \<Rightarrow> (Pg, RefreshToken) io" where
  "Pg_GetRefreshTokenByHash h w =
     scan_row (pg_exec (\<lambda>now d. Inr (find (\<lambda>t. t_TokenHash t = h) (pg_tokens d), d)) w)"

text \<open>\<^verbatim>\<open>UPDATE refresh_tokens SET f WHERE P\<close> with the number of rows it touched.\<close>

definition update_tokens :: "(RefreshToken \<Rightarrow> bool) \<Rightarrow> (RefreshToken \<Rightarrow> RefreshToken) \<Rightarrow> Pg \<Rightarrow> nat \<times> Pg" where
  "update_tokens P f d =
     (length (filter P (pg_tokens d)), d\<lparr>pg_tokens := map (\<lambda>t. if P t then f t else t) (pg_tokens d)\<rparr>)"

definition sql_replace_token :: "uuid \<Rightarrow> uuid \<Rightarrow> instant \<Rightarrow> Pg \<Rightarrow> err + nat \<times> Pg" where
  "sql_replace_token oldID newID now d =
     (let P = (\<lambda>t. t_ID t = oldID \<and> t_ReplacedBy t = None) in
      if list_ex P (pg_tokens d) \<and> \<not> list_ex (\<lambda>t. t_ID t = newID) (pg_tokens d)
      then Inl (PgError foreignKeyViolation)
      else Inr (update_tokens P (\<lambda>t. t\<lparr>t_RevokedAt := Some now, t_ReplacedBy := Some newID\<rparr>) d))"

definition Pg_ReplaceRefreshToken :: "uuid \<Rightarrow> uuid \<Rightarrow> (Pg, unit) io" where
  "Pg_ReplaceRefreshToken oldID newID w = affected (pg_exec (sql_replace_token oldID newID) w)"

definition Pg_RevokeRefreshToken :: "uuid \<Rightarrow> (Pg, unit) io" where
  "Pg_RevokeRefreshToken i w =
     affected (pg_exec (\<lambda>now d. Inr (update_tokens (\<lambda>t. t_ID t = i \<and> t_RevokedAt t = None)
       (\<lambda>t. t\<lparr>t_RevokedAt := Some now\<rparr>) d)) w)"

text \<open>
  The recursive query: the working table starts with the presented token and is joined with
  the token table until it is empty. \<^verbatim>\<open>UNION ALL\<close> keeps duplicates, so on a cycle the query
  does not end (\<open>None\<close>).
\<close>

partial_function (option) cte_loop :: "RefreshToken list \<Rightarrow> RefreshToken list \<Rightarrow> uuid list \<Rightarrow> uuid list option" where
  "cte_loop toks working acc =
     (if working = [] then Some acc
      else let step = concat (map (\<lambda>c. filter (\<lambda>rt. Some (t_ID rt) = t_ReplacedBy c) toks) working)
           in cte_loop toks step (acc @ map t_ID step))"

definition sql_revoke_chain :: "uuid \<Rightarrow> instant \<Rightarrow> Pg \<Rightarrow> err + unit \<times> Pg" where
  "sql_revoke_chain i now d =
     (let start = filter (\<lambda>t. t_ID t = i) (pg_tokens d) in
      case cte_loop (pg_tokens d) start (map t_ID start) of
        None \<Rightarrow> Inl Diverged
      | Some ids \<Rightarrow> Inr ((), snd (update_tokens (\<lambda>t. t_ID t \<in> set ids \<and> t_RevokedAt t = None)
                                  (\<lambda>t. t\<lparr>t_RevokedAt := Some now\<rparr>) d)))"

definition Pg_RevokeRefreshTokenChain :: "uuid \<Rightarrow> (Pg, unit) io" where
  "Pg_RevokeRefreshTokenChain i w = pg_exec (sql_revoke_chain i) w"

definition Pg_RevokeUserRefreshTokens :: "uuid \<Rightarrow> uuid option \<Rightarrow> (Pg, unit) io" where
  "Pg_RevokeUserRefreshTokens userID except w =
     pg_exec (\<lambda>now d. Inr ((), snd (update_tokens
       (\<lambda>t. t_UserID t = userID \<and> t_RevokedAt t = None \<and> (except = None \<or> Some (t_ID t) \<noteq> except))
       (\<lambda>t. t\<lparr>t_RevokedAt := Some now\<rparr>) d))) w"

definition Pg_ListUserSessions :: "uuid \<Rightarrow> (Pg, RefreshToken list) io" where
  "Pg_ListUserSessions userID w =
     pg_exec (\<lambda>now d. Inr (sort_key (\<lambda>t. - t_IssuedAt t)
       (filter (\<lambda>t. t_UserID t = userID \<and> t_RevokedAt t = None \<and> t_ReplacedBy t = None \<and> t_ExpiresAt t > now)
          (pg_tokens d)), d)) w"

definition Pg_Ping :: "(Pg, unit) io" where
  "Pg_Ping w = pg_exec (\<lambda>now d. Inr ((), d)) w"

text \<open>\<^verbatim>\<open>Connect\<close>: opening the pool and the first ping are the driver's; the flag tells that the pool was closed.\<close>

definition Connect :: "(string \<Rightarrow> err + 'p) \<Rightarrow> ('p \<Rightarrow> err option) \<Rightarrow> string \<Rightarrow> (err + 'p) \<times> bool" where
  "Connect pool_New pool_Ping dsn =
     (case pool_New dsn of
        Inl e \<Rightarrow> (Inl (Other ''open pool''), False)
      | Inr pool \<Rightarrow>
          (case pool_Ping pool of
             Some e \<Rightarrow> (Inl (Other ''ping database''), True)
           | None \<Rightarrow> (Inr pool, False)))"

definition Pg_Store :: "(string \<Rightarrow> string) \<Rightarrow> Pg Store" where
  "Pg_Store ci =
     \<lparr>st_CreateUser = Pg_CreateUser ci, st_GetUser = Pg_GetUser,
      st_GetUserByUsername = Pg_GetUserByUsername ci, st_ListUsers = Pg_ListUsers,
      st_UpdateUser = Pg_UpdateUser, st_CountUsers = Pg_CountUsers,
      st_GetCredential = Pg_GetCredential, st_SetCredential = Pg_SetCredential,
      st_CreateRefreshToken = Pg_CreateRefreshToken,
      st_GetRefreshTokenByHash = Pg_GetRefreshTokenByHash,
      st_ReplaceRefreshToken = Pg_ReplaceRefreshToken,
      st_RevokeRefreshToken = Pg_RevokeRefreshToken,
      st_RevokeRefreshTokenChain = Pg_RevokeRefreshTokenChain,
      st_RevokeUserRefreshTokens = Pg_RevokeUserRefreshTokens,
      st_ListUserSessions = Pg_ListUserSessions, st_Ping = Pg_Ping\<rparr>"

section \<open>Abstraction\<close>

definition by_key :: "('r \<Rightarrow> uuid) \<Rightarrow> 'r list \<Rightarrow> uuid \<rightharpoonup> 'r" where
  "by_key key rows = map_of (map (\<lambda>r. (key r, r)) rows)"

definition pg_view :: "Pg \<Rightarrow> astore" where
  "pg_view d = \<lparr>a_users = by_key u_ID (pg_users d), a_creds = by_key c_UserID (pg_credentials d),
                a_toks = by_key t_ID (pg_tokens d)\<rparr>"

text \<open>The constraints of the schema, as they hold of the stored rows.\<close>

definition pg_inv :: "(string \<Rightarrow> string) \<Rightarrow> Pg \<Rightarrow> bool" where
  "pg_inv ci d \<longleftrightarrow>
     distinct (map u_ID (pg_users d)) \<and> distinct (map (ci \<circ> u_Username) (pg_users d)) \<and>
     (\<forall>u \<in> set (pg_users d). check_role (u_Role u) \<and> check_status (u_Status u)) \<and>
     distinct (map c_UserID (pg_credentials d)) \<and>
     (\<forall>c \<in> set (pg_credentials d). c_Kind c = ''password'' \<and> c_UserID c \<in> u_ID ` set (pg_users d)) \<and>
     distinct (map t_ID (pg_tokens d)) \<and> distinct (map t_TokenHash (pg_tokens d)) \<and>
     (\<forall>t \<in> set (pg_tokens d). t_UserID t \<in> u_ID ` set (pg_users d) \<and>
        (\<forall>n. t_ReplacedBy t = Some n \<longrightarrow> n \<in> t_ID ` set (pg_tokens d)))"

end
