(* ===== verification/Postgres_Refines.thy ===== *)
theory Postgres_Refines
  imports Postgres_Store Http_Laws
begin

text \<open>
  The PostgreSQL store refines the abstract store: every statement keeps the constraints of
  the schema and has the effect \<^verbatim>\<open>Store\<close> names, the assembled \<^verbatim>\<open>UPDATE\<close> does what
  \<open>apply_update\<close> says, the recursive query ends on an acyclic rotation graph and collects the
  chain. The interpretations at the end discharge \<open>store_contract\<close> for any outcomes of the
  statements.
\<close>

section \<open>Tables as maps\<close>

lemma by_key_Some: "distinct (map key rows) \<Longrightarrow> by_key key rows i = Some r \<longleftrightarrow> r \<in> set rows \<and> key r = i"
  unfolding by_key_def by (subst map_of_eq_Some_iff) (auto simp: o_def)

lemma by_key_None: "by_key key rows i = None \<longleftrightarrow> i \<notin> key ` set rows"
  by (auto simp: by_key_def map_of_eq_None_iff image_image)

lemma by_key_append: "\<forall>x \<in> set rows. key x \<noteq> key r \<Longrightarrow> by_key key (rows @ [r]) = (by_key key rows)(key r \<mapsto> r)"
  by (induction rows) (auto simp: by_key_def fun_eq_iff)

lemma by_key_map: "(\<And>r. key (f r) = key r) \<Longrightarrow> by_key key (map f rows) = (\<lambda>i. map_option f (by_key key rows i))"
  by (induction rows) (auto simp: by_key_def fun_eq_iff)

lemma dom_by_key: "dom (by_key key rows) = key ` set rows"
  by (auto simp: by_key_def dom_map_of_conv_image_fst image_image)

lemma find_by_key: "find (\<lambda>r. key r = i) rows = by_key key rows i"
  by (induction rows) (auto simp: by_key_def)

lemma pg_keyed: "pg_inv ci d \<Longrightarrow> keyed ci (pg_view d)"
  unfolding keyed_def users_keyed_def toks_keyed_def pg_inv_def pg_view_def
  by (auto simp: by_key_Some dom_by_key distinct_map inj_on_def)

section \<open>Running a statement\<close>

lemma pg_tick_fields [simp]:
  "pg_users (pg_tick d) = pg_users d" "pg_credentials (pg_tick d) = pg_credentials d"
  "pg_tokens (pg_tick d) = pg_tokens d" "pg_view (pg_tick d) = pg_view d" "pg_inv ci (pg_tick d) = pg_inv ci d"
  by (simp_all add: pg_tick_def pg_view_def pg_inv_def)

lemma pg_exec_cases:
  assumes "pg_exec stmt w = (r, w')"
  obtains (fault) e where "r = Inl e" "\<not> abrupt e" "e \<noteq> ErrNotFound" "e \<noteq> ErrDuplicateUsername" "w' = w\<lparr>db := pg_tick (db w)\<rparr>"
      "shd (pg_net (db w)) \<noteq> NetOk"
    | (error) e where "stmt (pg_ts (shd (pg_now (db w)))) (pg_tick (db w)) = Inl e" "w' = w\<lparr>db := pg_tick (db w)\<rparr>"
        "r = Inl e \<or> (\<exists>m. r = Inl (Other m) \<and> \<not> abrupt e)"
    | (ran) x d' where "stmt (pg_ts (shd (pg_now (db w)))) (pg_tick (db w)) = Inr (x, d')" "w' = w\<lparr>db := d'\<rparr>"
        "r = Inr x \<or> (\<exists>m. r = Inl (Other m))" "shd (pg_net (db w)) = NetOk \<Longrightarrow> r = Inr x"
proof (cases "shd (pg_net (db w))")
  case NetOk
  with assms error ran show thesis by (auto simp: pg_exec_def Let_def split: sum.splits)
next
  case (NetRefused c)
  with assms fault show thesis by (auto simp: pg_exec_def Let_def)
next
  case (NetDown m)
  with assms fault show thesis by (auto simp: pg_exec_def Let_def)
next
  case (NetLost m)
  show thesis
  proof (cases "stmt (pg_ts (shd (pg_now (db w)))) (pg_tick (db w))")
    case (Inl e)
    with NetLost assms error show thesis by (auto simp: pg_exec_def Let_def split: if_splits)
  next
    case (Inr xd)
    with NetLost assms ran show thesis by (cases xd) (auto simp: pg_exec_def Let_def)
  qed
qed

text \<open>A query: the answer is a function of the tables.\<close>

lemma pg_query:
  assumes "pg_exec (\<lambda>now d. Inr (q now d, d)) w = (r, w')" "pg_inv ci (db w)"
    and "\<And>now d. q now (pg_tick d) = q now d"
  shows "read_only pg_view (pg_inv ci) w r w'" "r = Inr x \<Longrightarrow> x = q (pg_ts (shd (pg_now (db w)))) (db w)"
    "r = Inl e \<Longrightarrow> e \<noteq> ErrNotFound"
  using assms(1)
  by (cases rule: pg_exec_cases; use assms(2,3) in \<open>auto simp: read_only_def undisturbed_def frame_def\<close>)+

lemma pg_query_row:
  assumes "scan_row (pg_exec (\<lambda>now d. Inr (q d, d)) w) = (r, w')" "pg_inv ci (db w)"
    and "\<And>d. q (pg_tick d) = q d"
  shows "read_only pg_view (pg_inv ci) w r w'" "r = Inr x \<Longrightarrow> q (db w) = Some x"
    "r = Inl ErrNotFound \<Longrightarrow> q (db w) = None"
proof -
  obtain r1 w1 where ex: "pg_exec (\<lambda>now d. Inr (q d, d)) w = (r1, w1)" by fastforce
  note law = pg_query [OF ex assms(2)]
  have r: "w' = w1" "r = (case r1 of Inl e \<Rightarrow> Inl e | Inr None \<Rightarrow> Inl ErrNotFound | Inr (Some x) \<Rightarrow> Inr x)"
    using assms(1) ex by (auto simp: scan_row_def split: sum.splits option.splits)
  show "read_only pg_view (pg_inv ci) w r w'"
    using law(1) assms(3) r by (auto simp: read_only_def undisturbed_def split: sum.splits option.splits)
  show "q (db w) = Some x" if "r = Inr x"
    using law(2) assms(3) r that by (auto split: sum.splits option.splits)
  show "q (db w) = None" if "r = Inl ErrNotFound"
    using law(2,3) assms(3) r that by (auto split: sum.splits option.splits)
qed

text \<open>A write: its effect on the abstract state, and the constraints afterwards.\<close>

lemma pg_write:
  assumes "pg_exec stmt w = (r, w')" "pg_inv ci (db w)"
    and "\<And>now d x d'. pg_inv ci d \<Longrightarrow> pg_view d = pg_view (db w) \<Longrightarrow> stmt now d = Inr (x, d') \<Longrightarrow>
           pg_inv ci d' \<and> P x (pg_view d')"
    and "\<And>now d e. pg_inv ci d \<Longrightarrow> pg_view d = pg_view (db w) \<Longrightarrow> stmt now d = Inl e \<Longrightarrow> \<not> abrupt e"
  shows "frame (pg_inv ci) w w' \<and> uuids w' = uuids w \<and> wrote r P (pg_view (db w)) (pg_view (db w'))"
  using assms(1)
proof (cases rule: pg_exec_cases)
  case (fault e)
  with assms(2) show ?thesis by (simp add: frame_def wrote_def)
next
  case (error e)
  with assms(2) assms(4) [OF _ _ error(1)] show ?thesis by (auto simp: frame_def wrote_def)
next
  case (ran x d')
  with assms(2) assms(3) [OF _ _ ran(1)] show ?thesis by (auto simp: frame_def wrote_def)
qed

section \<open>The statements keep the constraints\<close>

lemma pg_new_user:
  assumes "pg_inv ci d" "check_role (u_Role u)" "check_status (u_Status u)"
    and "\<forall>x \<in> set (pg_users d). u_ID x \<noteq> u_ID u \<and> ci (u_Username x) \<noteq> ci (u_Username u)"
  shows "pg_inv ci (d\<lparr>pg_users := pg_users d @ [u]\<rparr>)"
    "pg_view (d\<lparr>pg_users := pg_users d @ [u]\<rparr>) = put_user u (pg_view d)"
  using assms by (auto simp: pg_inv_def pg_view_def put_user_def intro!: by_key_append)

lemma sql_insert_user_law:
  assumes "pg_inv ci d" "sql_insert_user ci i p now d = Inr (x, d')"
  shows "x = Some (new_user p i now)" "pg_inv ci d'" "pg_view d' = put_user (new_user p i now) (pg_view d)"
    "a_users (pg_view d) i = None" "name_free ci (cp_Username p) (pg_view d)"
proof -
  from assms(2) have c: "check_role (cp_Role p)" "check_status StatusActive"
    "\<forall>u \<in> set (pg_users d). u_ID u \<noteq> i \<and> ci (u_Username u) \<noteq> ci (cp_Username p)"
    and r: "x = Some (new_user p i now)" "d' = d\<lparr>pg_users := pg_users d @ [new_user p i now]\<rparr>"
    by (auto simp: sql_insert_user_def new_user_def Let_def list_ex_iff split: if_splits)
  show "x = Some (new_user p i now)" by (rule r)
  show "pg_inv ci d'" "pg_view d' = put_user (new_user p i now) (pg_view d)"
    using pg_new_user [OF assms(1), of "new_user p i now"] c r(2) by auto
  show "a_users (pg_view d) i = None" using c(3) by (auto simp: pg_view_def by_key_None)
  show "name_free ci (cp_Username p) (pg_view d)"
    using c(3) assms(1) by (auto simp: name_free_def pg_view_def pg_inv_def by_key_Some)
qed

text \<open>The assembled \<^verbatim>\<open>SET\<close> list does what \<open>apply_update\<close> says, for every choice of fields.\<close>

lemma run_sets: "update_sets p = (sets, args) \<Longrightarrow> fold (run_set now args) sets u = apply_update p now u"
  by (auto simp: update_sets_def add_set_def apply_update_def run_set_def arg_text_def Let_def
      split: option.splits)

lemma map_replace_by_key:
  assumes "distinct (map key rows)" "r0 \<in> set rows" "key r = key r0"
  shows "by_key key (map (\<lambda>x. if key x = key r0 then r else x) rows) = (by_key key rows)(key r \<mapsto> r)"
proof
  fix i
  have eq: "by_key key (map (\<lambda>x. if key x = key r0 then r else x) rows) i =
      map_option (\<lambda>x. if key x = key r0 then r else x) (by_key key rows i)"
    using assms(3) by (subst by_key_map) auto
  have r0: "by_key key rows (key r0) = Some r0" using assms by (simp add: by_key_Some)
  have key: "key x = i" if "by_key key rows i = Some x" for x using that assms(1) by (simp add: by_key_Some)
  show "by_key key (map (\<lambda>x. if key x = key r0 then r else x) rows) i = ((by_key key rows)(key r \<mapsto> r)) i"
  proof (cases "i = key r0")
    case True
    with eq r0 assms(3) show ?thesis by simp
  next
    case False
    with eq key assms(3) show ?thesis by (cases "by_key key rows i") auto
  qed
qed

lemma map_same_key: "(\<And>r. r \<in> set rows \<Longrightarrow> g (f r) = g r) \<Longrightarrow> map g (map f rows) = map g rows"
  by simp

lemma pg_users_inv:
  assumes "pg_inv ci d" "map u_ID rows = map u_ID (pg_users d)"
    and "map (ci \<circ> u_Username) rows = map (ci \<circ> u_Username) (pg_users d)"
    and "\<forall>u \<in> set rows. check_role (u_Role u) \<and> check_status (u_Status u)"
  shows "pg_inv ci (d\<lparr>pg_users := rows\<rparr>)"
proof -
  have "u_ID ` set rows = u_ID ` set (pg_users d)" using assms(2) by (metis list.set_map)
  with assms show ?thesis by (simp add: pg_inv_def)
qed

lemma sql_update_user_law:
  assumes inv: "pg_inv ci d" and run: "sql_update_user p now d = Inr (x, d')"
  shows "x = None \<Longrightarrow> d' = d \<and> a_users (pg_view d) (up_ID p) = None" "pg_inv ci d'"
    "x = Some u \<Longrightarrow> \<exists>u0. a_users (pg_view d) (up_ID p) = Some u0 \<and> u = apply_update p now u0 \<and> pg_view d' = put_user u (pg_view d)"
proof -
  obtain sets args where us: "update_sets p = (sets, args)" by fastforce
  have look: "find (\<lambda>u. u_ID u = up_ID p) (pg_users d) = a_users (pg_view d) (up_ID p)"
    by (simp add: find_by_key pg_view_def)
  note run' = run [unfolded sql_update_user_def us look prod.case]
  show "d' = d \<and> a_users (pg_view d) (up_ID p) = None" if "x = None"
    using run' that by (auto simp: Let_def split: option.splits if_splits)
  have eff: "pg_inv ci d' \<and> (\<forall>u. x = Some u \<longrightarrow> u = apply_update p now u0 \<and> pg_view d' = put_user u (pg_view d))"
    if u0: "a_users (pg_view d) (up_ID p) = Some u0" for u0
  proof -
    let ?u = "apply_update p now u0"
    let ?f = "\<lambda>y. if u_ID y = up_ID p then ?u else y"
    have m: "u0 \<in> set (pg_users d)" "u_ID u0 = up_ID p"
      using u0 inv by (auto simp: pg_view_def pg_inv_def by_key_Some)
    have r: "check_role (u_Role ?u)" "check_status (u_Status ?u)" "x = Some ?u" "d' = d\<lparr>pg_users := map ?f (pg_users d)\<rparr>"
      using run' u0 run_sets [OF us] by (auto simp: Let_def split: if_splits)
    have uq: "y = u0" if "y \<in> set (pg_users d)" "u_ID y = up_ID p" for y
      using that m inv by (auto simp: pg_inv_def distinct_map inj_on_def)
    have "map u_ID (map ?f (pg_users d)) = map u_ID (pg_users d)"
      "map (ci \<circ> u_Username) (map ?f (pg_users d)) = map (ci \<circ> u_Username) (pg_users d)"
      using m(2) uq by (auto intro!: map_same_key simp del: map_map)
    then have "pg_inv ci d'"
      unfolding r(4) using inv r(1,2) by (intro pg_users_inv) (auto simp: pg_inv_def simp del: map_map)
    moreover have "by_key u_ID (map ?f (pg_users d)) = (by_key u_ID (pg_users d))(u_ID ?u \<mapsto> ?u)"
      using map_replace_by_key [of u_ID "pg_users d" u0 ?u] inv m by (simp add: pg_inv_def)
    ultimately show ?thesis using r by (simp add: pg_view_def put_user_def)
  qed
  show "pg_inv ci d'"
  proof (cases "a_users (pg_view d) (up_ID p)")
    case None
    with run' inv show ?thesis by auto
  qed (use eff in blast)
  show "\<exists>u0. a_users (pg_view d) (up_ID p) = Some u0 \<and> u = apply_update p now u0 \<and> pg_view d' = put_user u (pg_view d)"
    if "x = Some u"
    using eff that run' by (cases "a_users (pg_view d) (up_ID p)") auto
qed

lemma pg_creds_inv:
  assumes "pg_inv ci d" "map c_UserID rows = map c_UserID (pg_credentials d)" "\<forall>c \<in> set rows. c_Kind c = ''password''"
  shows "pg_inv ci (d\<lparr>pg_credentials := rows\<rparr>)"
proof -
  have "c_UserID ` set rows = c_UserID ` set (pg_credentials d)" using assms(2) by (metis list.set_map)
  with assms show ?thesis by (fastforce simp: pg_inv_def)
qed

lemma sql_upsert_credential_law:
  assumes inv: "pg_inv ci d" and run: "sql_upsert_credential i h mc now d = Inr (x, d')"
  shows "pg_inv ci d' \<and> pg_view d' = put_cred i h mc now (pg_view d)"
proof (cases "\<exists>c \<in> set (pg_credentials d). c_UserID c = i")
  case True
  then obtain c0 where c0: "c0 \<in> set (pg_credentials d)" "c_UserID c0 = i" by blast
  let ?c = "\<lparr>c_UserID = i, c_Kind = ''password'', c_PasswordHash = h, c_MustChange = mc, c_UpdatedAt = now\<rparr>"
  let ?f = "\<lambda>c. if c_UserID c = i then c\<lparr>c_PasswordHash := h, c_MustChange := mc, c_UpdatedAt := now\<rparr> else c"
  have d': "d' = d\<lparr>pg_credentials := map ?f (pg_credentials d)\<rparr>"
    using run True by (auto simp: sql_upsert_credential_def list_ex_iff)
  have kind: "\<forall>c \<in> set (pg_credentials d). c_Kind c = ''password''" using inv by (simp add: pg_inv_def)
  have same: "map ?f (pg_credentials d) = map (\<lambda>c. if c_UserID c = c_UserID c0 then ?c else c) (pg_credentials d)"
    using kind c0(2) by (auto intro!: map_cong)
  have "by_key c_UserID (map ?f (pg_credentials d)) = (by_key c_UserID (pg_credentials d))(i \<mapsto> ?c)"
    unfolding same using map_replace_by_key [of c_UserID "pg_credentials d" c0 ?c] inv c0
    by (simp add: pg_inv_def)
  moreover have "pg_inv ci d'"
    unfolding d' using inv kind by (intro pg_creds_inv) (auto intro!: map_same_key simp del: map_map)
  ultimately show ?thesis by (simp add: d' pg_view_def put_cred_def)
next
  case False
  let ?c = "\<lparr>c_UserID = i, c_Kind = ''password'', c_PasswordHash = h, c_MustChange = mc, c_UpdatedAt = now\<rparr>"
  from False run have d': "d' = d\<lparr>pg_credentials := pg_credentials d @ [\<lparr>c_UserID = i, c_Kind = ''password'', c_PasswordHash = h,
      c_MustChange = mc, c_UpdatedAt = now\<rparr>]\<rparr>" and us: "i \<in> u_ID ` set (pg_users d)"
    by (auto simp: sql_upsert_credential_def list_ex_iff split: if_splits)
  from False us inv have "pg_inv ci d'" by (auto simp: d' pg_inv_def)
  moreover have "pg_view d' = put_cred i h mc now (pg_view d)"
    using False by_key_append [of "pg_credentials d" c_UserID ?c] by (auto simp: d' pg_view_def put_cred_def)
  ultimately show ?thesis by simp
qed

lemma sql_insert_token_law:
  assumes inv: "pg_inv ci d" and run: "sql_insert_token t now d = Inr (x, d')" and new: "t_RevokedAt t = None" "t_ReplacedBy t = None"
  shows "tok_fresh t (pg_view d) \<and> pg_inv ci d' \<and>
    pg_view d' = put_tok (t\<lparr>t_IssuedAt := pg_ts (t_IssuedAt t), t_ExpiresAt := pg_ts (t_ExpiresAt t)\<rparr>) (pg_view d)"
proof -
  let ?t = "t\<lparr>t_IssuedAt := pg_ts (t_IssuedAt t), t_ExpiresAt := pg_ts (t_ExpiresAt t)\<rparr>"
  have d': "d' = d\<lparr>pg_tokens := pg_tokens d @ [?t]\<rparr>"
    using run new by (cases t) (auto simp: sql_insert_token_def split: if_splits)
  have "list_ex (\<lambda>u. u_ID u = t_UserID t) (pg_users d)" using run by (simp add: sql_insert_token_def split: if_splits)
  then have us: "t_UserID t \<in> u_ID ` set (pg_users d)" by (force simp: list_ex_iff)
  have fr: "\<forall>x \<in> set (pg_tokens d). t_ID x \<noteq> t_ID t \<and> t_TokenHash x \<noteq> t_TokenHash t"
    using run by (auto simp: sql_insert_token_def list_ex_iff split: if_splits)
  have "tok_fresh t (pg_view d)"
    using fr inv by (auto simp: tok_fresh_def pg_view_def pg_inv_def by_key_None by_key_Some)
  moreover have "pg_inv ci d'" using inv us fr new by (auto simp: d' pg_inv_def)
  moreover have "pg_view d' = put_tok ?t (pg_view d)"
    using fr by_key_append [of "pg_tokens d" t_ID ?t] by (auto simp: d' pg_view_def put_tok_def)
  ultimately show ?thesis by simp
qed

text \<open>An \<^verbatim>\<open>UPDATE\<close> of the token table that leaves keys and owners alone.\<close>

lemma update_tokens_inv:
  assumes inv: "pg_inv ci d"
    and same: "\<And>t. t_ID (f t) = t_ID t" "\<And>t. t_UserID (f t) = t_UserID t" "\<And>t. t_TokenHash (f t) = t_TokenHash t"
    and rb: "\<forall>t n. t \<in> set (pg_tokens d) \<longrightarrow> P t \<longrightarrow> t_ReplacedBy (f t) = Some n \<longrightarrow>
      t_ReplacedBy t = Some n \<or> n \<in> t_ID ` set (pg_tokens d)"
  shows "pg_inv ci (snd (update_tokens P f d))"
    "a_toks (pg_view (snd (update_tokens P f d))) i = map_option (\<lambda>t. if P t then f t else t) (a_toks (pg_view d) i)"
    "a_users (pg_view (snd (update_tokens P f d))) = a_users (pg_view d)"
    "a_creds (pg_view (snd (update_tokens P f d))) = a_creds (pg_view d)"
proof -
  let ?g = "\<lambda>t. if P t then f t else t"
  have g: "map t_ID (map ?g (pg_tokens d)) = map t_ID (pg_tokens d)"
    "map t_TokenHash (map ?g (pg_tokens d)) = map t_TokenHash (pg_tokens d)"
    using same by (auto intro!: map_same_key simp del: map_map)
  have img: "t_ID ` ?g ` set (pg_tokens d) = t_ID ` set (pg_tokens d)" using g(1) by (metis list.set_map)
  have "\<forall>t \<in> set (map ?g (pg_tokens d)). t_UserID t \<in> u_ID ` set (pg_users d) \<and>
      (\<forall>n. t_ReplacedBy t = Some n \<longrightarrow> n \<in> t_ID ` set (pg_tokens d))"
    using inv same(2) rb by (auto simp: pg_inv_def split: if_splits) blast
  with inv g img show "pg_inv ci (snd (update_tokens P f d))"
    by (simp add: update_tokens_def pg_inv_def del: map_map)
  show "a_toks (pg_view (snd (update_tokens P f d))) i = map_option ?g (a_toks (pg_view d) i)"
    using same(1) by (simp add: update_tokens_def pg_view_def) (subst by_key_map; simp)
qed (simp_all add: update_tokens_def pg_view_def)

lemma pg_revoke:
  assumes inv: "pg_inv ci d" and P: "\<And>t. P t \<longleftrightarrow> Q t \<and> t_RevokedAt t = None"
  shows "pg_inv ci (snd (update_tokens P (\<lambda>t. t\<lparr>t_RevokedAt := Some now\<rparr>) d)) \<and>
    pg_view (snd (update_tokens P (\<lambda>t. t\<lparr>t_RevokedAt := Some now\<rparr>) d)) = revoke_where Q now (pg_view d)"
proof -
  let ?d = "snd (update_tokens P (\<lambda>t. t\<lparr>t_RevokedAt := Some now\<rparr>) d)"
  have "(\<lambda>t. if P t then t\<lparr>t_RevokedAt := Some now\<rparr> else t) = revoke_if Q now"
    using P by (auto simp: revoke_if_def revoke_at_def fun_eq_iff)
  with update_tokens_inv [of ci d "\<lambda>t. t\<lparr>t_RevokedAt := Some now\<rparr>" P] inv
  have "pg_inv ci ?d" "a_toks (pg_view ?d) = a_toks (revoke_where Q now (pg_view d))"
    "a_users (pg_view ?d) = a_users (pg_view d)" "a_creds (pg_view ?d) = a_creds (pg_view d)"
    by (auto simp: store_simps fun_eq_iff)
  then show ?thesis by (intro conjI astore.equality) (auto simp: store_simps)
qed

lemma sql_replace_law:
  assumes inv: "pg_inv ci d" and run: "sql_replace_token old new now d = Inr (n, d')"
  shows "pg_inv ci d'" "n = 0 \<Longrightarrow> pg_view d' = pg_view d"
    "0 < n \<Longrightarrow> \<exists>t. a_toks (pg_view d) old = Some t \<and> t_ReplacedBy t = None \<and>
        pg_view d' = put_tok (replace_at now new t) (pg_view d)"
proof -
  let ?P = "\<lambda>t. t_ID t = old \<and> t_ReplacedBy t = None"
  let ?f = "\<lambda>t. t\<lparr>t_RevokedAt := Some now, t_ReplacedBy := Some new\<rparr>"
  have run': "(n, d') = update_tokens ?P ?f d" and
    fk: "\<And>t. t \<in> set (pg_tokens d) \<Longrightarrow> ?P t \<Longrightarrow> new \<in> t_ID ` set (pg_tokens d)"
    using run by (auto simp: sql_replace_token_def list_ex_iff Let_def split: if_splits)
  have d': "d' = snd (update_tokens ?P ?f d)" and n: "n = length (filter ?P (pg_tokens d))"
    using run' by (auto simp: update_tokens_def)
  have rb: "\<forall>t m. t \<in> set (pg_tokens d) \<longrightarrow> ?P t \<longrightarrow> t_ReplacedBy (?f t) = Some m \<longrightarrow>
      t_ReplacedBy t = Some m \<or> m \<in> t_ID ` set (pg_tokens d)" using fk by auto
  have same: "\<And>t. t_ID (?f t) = t_ID t" "\<And>t. t_UserID (?f t) = t_UserID t" "\<And>t. t_TokenHash (?f t) = t_TokenHash t"
    by simp_all
  note law = update_tokens_inv [where f = ?f and P = ?P, OF inv same rb, folded d']
  show "pg_inv ci d'" by (rule law(1))
  show "pg_view d' = pg_view d" if "n = 0"
  proof -
    have none: "\<not> ?P t" if "t \<in> set (pg_tokens d)" for t
      using n \<open>n = 0\<close> that by (auto simp: filter_empty_conv)
    have "a_toks (pg_view d') i = a_toks (pg_view d) i" for i
    proof (cases "a_toks (pg_view d) i")
      case (Some t)
      then have "t \<in> set (pg_tokens d)" using inv by (auto simp: pg_view_def pg_inv_def by_key_Some)
      then have "\<not> ?P t" by (rule none)
      then show ?thesis unfolding law(2) Some by auto
    qed (simp add: law(2))
    with law(3,4) show ?thesis by (intro astore.equality) auto
  qed
  show "\<exists>t. a_toks (pg_view d) old = Some t \<and> t_ReplacedBy t = None \<and>
        pg_view d' = put_tok (replace_at now new t) (pg_view d)" if "0 < n"
  proof -
    from that n obtain t where t: "t \<in> set (pg_tokens d)" "t_ID t = old" "t_ReplacedBy t = None"
      by (auto simp: filter_empty_conv)
    then have ft: "a_toks (pg_view d) old = Some t" using inv by (auto simp: pg_view_def pg_inv_def by_key_Some)
    have id: "t_ID s = i" if "a_toks (pg_view d) i = Some s" for i s
      using that inv by (auto simp: pg_view_def pg_inv_def by_key_Some)
    have "a_toks (pg_view d') i = a_toks (put_tok (replace_at now new t) (pg_view d)) i" for i
    proof (cases "i = old")
      case True
      show ?thesis unfolding law(2) True ft using t by (simp add: store_simps replace_at_def)
    next
      case False
      with t(2) id show ?thesis unfolding law(2)
        by (cases "a_toks (pg_view d) i") (auto simp: store_simps)
    qed
    with law(3,4) have "pg_view d' = put_tok (replace_at now new t) (pg_view d)"
      by (intro astore.equality) (auto simp: store_simps)
    with ft t(3) show ?thesis by blast
  qed
qed

section \<open>The recursive query\<close>

lemma filter_key: "distinct (map key rows) \<Longrightarrow> filter (\<lambda>r. key r = i) rows = (case by_key key rows i of None \<Rightarrow> [] | Some r \<Rightarrow> [r])"
proof (induction rows)
  case (Cons r rows)
  have "filter (\<lambda>r. key r = i) rows = []" if "key r = i"
    using Cons.prems that by (auto simp: filter_empty_conv image_iff)
  with Cons show ?case by (auto simp: by_key_def)
qed (simp add: by_key_def)

definition follow :: "RefreshToken list \<Rightarrow> RefreshToken \<Rightarrow> RefreshToken list" where
  "follow toks c = filter (\<lambda>rt. Some (t_ID rt) = t_ReplacedBy c) toks"

lemma follow_eq:
  assumes "distinct (map t_ID toks)"
  shows "follow toks c = (case t_ReplacedBy c of None \<Rightarrow> [] | Some n \<Rightarrow> (case by_key t_ID toks n of None \<Rightarrow> [] | Some r \<Rightarrow> [r]))"
  using filter_key [OF assms] by (cases "t_ReplacedBy c") (auto simp: follow_def)

text \<open>On an acyclic table the query ends and collects exactly the chain.\<close>

lemma cte_loop_chain:
  assumes dist: "distinct (map t_ID toks)" and rot: "rot = {(x, y). \<exists>t. by_key t_ID toks x = Some t \<and> t_ReplacedBy t = Some y}"
    and ac: "acyclic rot" and c: "by_key t_ID toks x = Some c"
  shows "\<exists>l. cte_loop toks [c] acc = Some (acc @ l) \<and> insert x (set l) \<subseteq> rot\<^sup>* `` {x} \<and>
    rot\<^sup>* `` {x} \<inter> t_ID ` set toks \<subseteq> insert x (set l)"
proof -
  have "rot \<subseteq> t_ID ` set toks \<times> {y. \<exists>t \<in> set toks. t_ReplacedBy t = Some y}"
    using dist by (auto simp: rot by_key_Some)
  moreover have "finite {y. \<exists>t \<in> set toks. t_ReplacedBy t = Some y}"
    by (rule finite_subset [of _ "(the \<circ> t_ReplacedBy) ` set toks"]) (auto simp: image_iff, metis option.sel)
  ultimately have "finite rot" by (meson finite_SigmaI finite_imageI finite_set finite_subset)
  then have "wf (rot\<inverse>)" using ac by (rule finite_acyclic_wf_converse)
  then show ?thesis using c
  proof (induction x arbitrary: c acc)
    case (less x)
    have next_only: "\<And>z. (x, z) \<in> rot \<Longrightarrow> t_ReplacedBy c = Some z" using less.prems by (auto simp: rot)
    have unfold: "cte_loop toks [c] acc = cte_loop toks (follow toks c) (acc @ map t_ID (follow toks c))"
      by (subst cte_loop.simps) (simp add: follow_def Let_def)
    show ?case
    proof (cases "follow toks c")
      case Nil
      have "rot\<^sup>* `` {x} \<inter> t_ID ` set toks \<subseteq> {x}"
      proof
        fix y assume y: "y \<in> rot\<^sup>* `` {x} \<inter> t_ID ` set toks"
        then have "(x, y) \<in> rot\<^sup>*" by simp
        then show "y \<in> {x}"
        proof (cases rule: converse_rtranclE)
          case (step z)
          then have z: "t_ReplacedBy c = Some z" using less.prems by (auto simp: rot)
          with Nil have none: "by_key t_ID toks z = None" by (auto simp: follow_eq [OF dist] split: option.splits)
          from step(2) have "y = z" using none by (cases rule: converse_rtranclE) (auto simp: rot)
          with y none show ?thesis by (auto simp: by_key_None)
        qed simp
      qed
      with Nil unfold show ?thesis by (intro exI [of _ "[]"]) (simp add: cte_loop.simps)
    next
      case (Cons n rest)
      then have n: "t_ReplacedBy c = Some (t_ID n)" "by_key t_ID toks (t_ID n) = Some n" "rest = []"
        using dist by (auto simp: follow_eq [OF dist] by_key_Some split: option.splits)
      then have edge: "(x, t_ID n) \<in> rot" using less.prems by (auto simp: rot)
      obtain l where l: "cte_loop toks [n] (acc @ [t_ID n]) = Some ((acc @ [t_ID n]) @ l)"
        "insert (t_ID n) (set l) \<subseteq> rot\<^sup>* `` {t_ID n}"
        "rot\<^sup>* `` {t_ID n} \<inter> t_ID ` set toks \<subseteq> insert (t_ID n) (set l)"
        using less.IH [of "t_ID n" n "acc @ [t_ID n]"] edge n(2) by auto
      have "y = x \<or> (t_ID n, y) \<in> rot\<^sup>*" if "(x, y) \<in> rot\<^sup>*" for y
        using that by (cases rule: converse_rtranclE) (use next_only n(1) in auto)
      then have ch: "rot\<^sup>* `` {x} = insert x (rot\<^sup>* `` {t_ID n})"
        using edge by (auto intro: converse_rtrancl_into_rtrancl)
      show ?thesis
        using unfold Cons n(3) l ch by (intro exI [of _ "t_ID n # l"]) auto
    qed
  qed
qed

lemma sql_revoke_chain_law:
  assumes inv: "pg_inv ci d" and ac: "acyclic (rotated (pg_view d))"
  shows "\<exists>d'. sql_revoke_chain i now d = Inr ((), d') \<and> pg_inv ci d' \<and>
    pg_view d' = revoke_where (\<lambda>t. t_ID t \<in> chain (pg_view d) i) now (pg_view d)"
proof -
  have dist: "distinct (map t_ID (pg_tokens d))" using inv by (simp add: pg_inv_def)
  have rot: "rotated (pg_view d) = {(x, y). \<exists>t. by_key t_ID (pg_tokens d) x = Some t \<and> t_ReplacedBy t = Some y}"
    by (auto simp: rotated_def pg_view_def)
  have start: "filter (\<lambda>t. t_ID t = i) (pg_tokens d) = (case by_key t_ID (pg_tokens d) i of None \<Rightarrow> [] | Some r \<Rightarrow> [r])"
    by (rule filter_key [OF dist])
  obtain ids where ids: "cte_loop (pg_tokens d) (filter (\<lambda>t. t_ID t = i) (pg_tokens d)) (map t_ID (filter (\<lambda>t. t_ID t = i) (pg_tokens d))) = Some ids"
    "\<And>t. t \<in> set (pg_tokens d) \<Longrightarrow> t_ID t \<in> set ids \<longleftrightarrow> t_ID t \<in> chain (pg_view d) i"
  proof (cases "by_key t_ID (pg_tokens d) i")
    case None
    then have "chain (pg_view d) i = {i}" by (intro chain_leaf) (simp add: pg_view_def)
    moreover have "filter (\<lambda>t. t_ID t = i) (pg_tokens d) = []" using None start by simp
    moreover have "\<forall>t \<in> set (pg_tokens d). t_ID t \<noteq> i" using None by (auto simp: by_key_None)
    ultimately show thesis using that [of "[]"] by (simp add: cte_loop.simps)
  next
    case (Some c)
    then have "t_ID c = i" using dist by (simp add: by_key_Some)
    from cte_loop_chain [OF dist rot ac Some, of "[i]"] obtain l where
      l: "cte_loop (pg_tokens d) [c] [i] = Some ([i] @ l)" "insert i (set l) \<subseteq> chain (pg_view d) i"
      "chain (pg_view d) i \<inter> t_ID ` set (pg_tokens d) \<subseteq> insert i (set l)" by (auto simp: chain_def)
    then have "t_ID t \<in> set ([i] @ l) \<longleftrightarrow> t_ID t \<in> chain (pg_view d) i" if "t \<in> set (pg_tokens d)" for t
      using that by auto
    with that [of "[i] @ l"] l(1) Some start \<open>t_ID c = i\<close> show thesis by simp
  qed
  let ?P = "\<lambda>t. t_ID t \<in> set ids \<and> t_RevokedAt t = None"
  let ?Q = "\<lambda>t. t_ID t \<in> chain (pg_view d) i \<and> t_RevokedAt t = None"
  let ?f = "\<lambda>t. t\<lparr>t_RevokedAt := Some now\<rparr>"
  have "update_tokens ?P ?f d = update_tokens ?Q ?f d"
    using ids(2) by (auto simp: update_tokens_def intro!: arg_cong [of _ _ length] filter_cong)
  with ids(1) pg_revoke [OF inv, of ?Q "\<lambda>t. t_ID t \<in> chain (pg_view d) i" now]
  show ?thesis by (auto simp: sql_revoke_chain_def)
qed

section \<open>The methods keep the contract\<close>

lemmas pg_sel = Pg_Store_def Store.simps

lemma pg_rows:
  assumes "pg_inv ci d"
  shows "u \<in> set (pg_users d) \<longleftrightarrow> a_users (pg_view d) (u_ID u) = Some u"
    "t \<in> set (pg_tokens d) \<longleftrightarrow> a_toks (pg_view d) (t_ID t) = Some t"
    "set (pg_users d) = ran (a_users (pg_view d))" "set (pg_tokens d) = ran (a_toks (pg_view d))"
    "distinct (pg_users d)" "distinct (pg_tokens d)" "card (dom (a_users (pg_view d))) = length (pg_users d)"
proof -
  have dist: "distinct (map u_ID (pg_users d))" "distinct (map t_ID (pg_tokens d))" using assms by (auto simp: pg_inv_def)
  then show "u \<in> set (pg_users d) \<longleftrightarrow> a_users (pg_view d) (u_ID u) = Some u"
    "t \<in> set (pg_tokens d) \<longleftrightarrow> a_toks (pg_view d) (t_ID t) = Some t"
    by (simp_all add: pg_view_def by_key_Some)
  show "set (pg_users d) = ran (a_users (pg_view d))" "set (pg_tokens d) = ran (a_toks (pg_view d))"
    using dist by (auto simp: pg_view_def by_key_Some ran_def)
  show "distinct (pg_users d)" "distinct (pg_tokens d)" using dist by (auto simp: distinct_map)
  show "card (dom (a_users (pg_view d))) = length (pg_users d)"
    using dist(1) by (metis astore.select_convs(1) distinct_card dom_by_key length_map list.set_map pg_view_def)
qed

lemma scan_row_write:
  assumes "scan_row (pg_exec stmt w) = (r, w')" "pg_inv ci (db w)"
    and "\<And>now d x d'. pg_inv ci d \<Longrightarrow> pg_view d = pg_view (db w) \<Longrightarrow> stmt now d = Inr (x, d') \<Longrightarrow> pg_inv ci d' \<and>
           (case x of None \<Rightarrow> pg_view d' = pg_view (db w) \<and> N | Some y \<Rightarrow> P y (pg_view d'))"
    and "\<And>now d e. pg_inv ci d \<Longrightarrow> pg_view d = pg_view (db w) \<Longrightarrow> stmt now d = Inl e \<Longrightarrow> \<not> abrupt e \<and> e \<noteq> ErrNotFound"
  shows "frame (pg_inv ci) w w' \<and> uuids w' = uuids w \<and> wrote r P (pg_view (db w)) (pg_view (db w')) \<and>
    (r = Inl ErrNotFound \<longrightarrow> N)"
proof -
  obtain r1 w1 where ex: "pg_exec stmt w = (r1, w1)" by fastforce
  have r: "w' = w1" "r = (case r1 of Inl e \<Rightarrow> Inl e | Inr None \<Rightarrow> Inl ErrNotFound | Inr (Some x) \<Rightarrow> Inr x)"
    using assms(1) ex by (auto simp: scan_row_def split: sum.splits option.splits)
  from ex show ?thesis
  proof (cases rule: pg_exec_cases)
    case (fault e)
    with r assms(2) show ?thesis by (auto simp: frame_def wrote_def)
  next
    case (error e)
    with r assms(2) assms(4) [OF _ _ error(1)] show ?thesis by (auto simp: frame_def wrote_def)
  next
    case (ran x d')
    with r assms(2) assms(3) [OF _ _ ran(1)] show ?thesis
      by (auto simp: frame_def wrote_def split: option.splits)
  qed
qed

lemma Pg_UpdateUser_law:
  assumes "pg_inv ci (db w)" "Pg_UpdateUser p w = (r, w')"
  shows "frame (pg_inv ci) w w' \<and> uuids w' = uuids w \<and>
    wrote r (\<lambda>u a'. \<exists>u0 now. a_users (pg_view (db w)) (up_ID p) = Some u0 \<and> u = apply_update p now u0 \<and>
      a' = put_user u (pg_view (db w))) (pg_view (db w)) (pg_view (db w')) \<and>
    (r = Inl ErrNotFound \<longrightarrow> a_users (pg_view (db w)) (up_ID p) = None)"
proof (rule scan_row_write [OF assms(2) [unfolded Pg_UpdateUser_def] assms(1)])
  fix now d x d'
  assume "pg_inv ci d" "pg_view d = pg_view (db w)" "sql_update_user p now d = Inr (x, d')"
  then show "pg_inv ci d' \<and> (case x of None \<Rightarrow> pg_view d' = pg_view (db w) \<and> a_users (pg_view (db w)) (up_ID p) = None
      | Some u \<Rightarrow> \<exists>u0 now. a_users (pg_view (db w)) (up_ID p) = Some u0 \<and> u = apply_update p now u0 \<and>
          pg_view d' = put_user u (pg_view (db w)))"
    using sql_update_user_law [of ci d p now x d'] by (auto split: option.splits) blast
next
  fix now d e
  assume "sql_update_user p now d = Inl e"
  then show "\<not> abrupt e \<and> e \<noteq> ErrNotFound"
    by (auto simp: sql_update_user_def Let_def split: prod.splits option.splits if_splits)
qed

lemma Pg_CreateUser_law:
  assumes "pg_inv ci (db w)" "Pg_CreateUser ci p w = (r, w')"
  shows "frame (pg_inv ci) w w' \<and> uuids w' = stl (uuids w) \<and>
    (r = Inl ErrDuplicateUsername \<longrightarrow> pg_view (db w') = pg_view (db w)) \<and>
    wrote r (\<lambda>u a'. \<exists>i now. shd (uuids w) = Some i \<and> u = new_user p i now \<and> a' = put_user u (pg_view (db w)) \<and>
        a_users (pg_view (db w)) i = None \<and> name_free ci (cp_Username p) (pg_view (db w)))
      (pg_view (db w)) (pg_view (db w'))"
proof (cases "shd (uuids w)")
  case None
  with assms show ?thesis by (auto simp: Pg_CreateUser_def uuid_NewV7_def frame_def wrote_def)
next
  case (Some i)
  define w1 where "w1 = w\<lparr>uuids := stl (uuids w)\<rparr>"
  obtain r1 w2 where ex: "pg_exec (sql_insert_user ci i p) w1 = (r1, w2)" by fastforce
  have r: "w' = w2" "r = (case r1 of Inl e \<Rightarrow> Inl (if e = PgError uniqueViolation then ErrDuplicateUsername else e)
      | Inr None \<Rightarrow> Inl ErrNotFound | Inr (Some u) \<Rightarrow> Inr u)"
    using assms(2) Some ex by (auto simp: Pg_CreateUser_def uuid_NewV7_def w1_def scan_row_def split: sum.splits option.splits)
  have w1: "db w1 = db w" by (simp add: w1_def)
  from ex show ?thesis
  proof (cases rule: pg_exec_cases)
    case (fault e)
    with r assms(1) show ?thesis by (auto simp: frame_def wrote_def w1_def)
  next
    case (error e)
    then have "\<not> abrupt e" by (auto simp: sql_insert_user_def Let_def split: if_splits)
    with error r assms(1) show ?thesis by (auto simp: frame_def wrote_def w1_def)
  next
    case (ran x d')
    note law = sql_insert_user_law [OF _ ran(1), simplified w1, simplified, OF assms(1)]
    have "wrote r (\<lambda>u a'. \<exists>i now. shd (uuids w) = Some i \<and> u = new_user p i now \<and> a' = put_user u (pg_view (db w)) \<and>
        a_users (pg_view (db w)) i = None \<and> name_free ci (cp_Username p) (pg_view (db w)))
      (pg_view (db w)) (pg_view (db w'))"
      using ran(2,3) r law Some by (auto simp: wrote_def) blast
    moreover have "r \<noteq> Inl ErrDuplicateUsername" using ran(3) r law(1) by auto
    ultimately show ?thesis using r ran law by (simp add: frame_def w1_def)
  qed
qed

lemma affected_write:
  assumes "affected (pg_exec stmt w) = (r, w')" "pg_inv ci (db w)"
    and "\<And>now d n d'. pg_inv ci d \<Longrightarrow> pg_view d = pg_view (db w) \<Longrightarrow> stmt now d = Inr (n, d') \<Longrightarrow> pg_inv ci d' \<and>
           (if n = 0 then pg_view d' = pg_view (db w) \<and> N else P (pg_view d'))"
    and "\<And>now d e. pg_inv ci d \<Longrightarrow> pg_view d = pg_view (db w) \<Longrightarrow> stmt now d = Inl e \<Longrightarrow> \<not> abrupt e \<and> e \<noteq> ErrNotFound"
  shows "frame (pg_inv ci) w w' \<and> uuids w' = uuids w \<and> wrote r (\<lambda>_. P) (pg_view (db w)) (pg_view (db w')) \<and>
    (r = Inl ErrNotFound \<longrightarrow> pg_view (db w') = pg_view (db w) \<and> N)"
proof -
  obtain r1 w1 where ex: "pg_exec stmt w = (r1, w1)" by fastforce
  have r: "w' = w1" "r = (case r1 of Inl e \<Rightarrow> Inl e | Inr n \<Rightarrow> if n = 0 then Inl ErrNotFound else Inr ())"
    using assms(1) ex by (auto simp: affected_def split: sum.splits)
  from ex show ?thesis
  proof (cases rule: pg_exec_cases)
    case (fault e)
    with r assms(2) show ?thesis by (auto simp: frame_def wrote_def)
  next
    case (error e)
    with r assms(2) assms(4) [OF _ _ error(1)] show ?thesis by (auto simp: frame_def wrote_def)
  next
    case (ran n d')
    with r assms(2) assms(3) [OF _ _ ran(1)] show ?thesis
      by (auto simp: frame_def wrote_def split: if_splits)
  qed
qed

lemma Pg_ReplaceRefreshToken_law:
  assumes "pg_inv ci (db w)" "Pg_ReplaceRefreshToken old new w = (r, w')"
  shows "frame (pg_inv ci) w w' \<and> uuids w' = uuids w \<and>
    wrote r (\<lambda>_ a'. \<exists>t now. a_toks (pg_view (db w)) old = Some t \<and> t_ReplacedBy t = None \<and>
      a' = put_tok (replace_at now new t) (pg_view (db w))) (pg_view (db w)) (pg_view (db w')) \<and>
    (r = Inl ErrNotFound \<longrightarrow> pg_view (db w') = pg_view (db w) \<and> True)"
proof (rule affected_write [OF assms(2) [unfolded Pg_ReplaceRefreshToken_def] assms(1)])
  fix now d n d'
  assume "pg_inv ci d" "pg_view d = pg_view (db w)" "sql_replace_token old new now d = Inr (n, d')"
  then show "pg_inv ci d' \<and> (if n = 0 then pg_view d' = pg_view (db w) \<and> True
      else \<exists>t now. a_toks (pg_view (db w)) old = Some t \<and> t_ReplacedBy t = None \<and>
        pg_view d' = put_tok (replace_at now new t) (pg_view (db w)))"
    using sql_replace_law [of ci d old new now n d'] by auto
next
  fix now d e
  assume "sql_replace_token old new now d = Inl e"
  then show "\<not> abrupt e \<and> e \<noteq> ErrNotFound" by (auto simp: sql_replace_token_def Let_def split: if_splits)
qed

lemma Pg_RevokeRefreshToken_law:
  assumes "pg_inv ci (db w)" "Pg_RevokeRefreshToken i w = (r, w')"
  shows "frame (pg_inv ci) w w' \<and> uuids w' = uuids w \<and>
    wrote r (\<lambda>_ a'. \<exists>now. a' = revoke_where (\<lambda>t. t_ID t = i) now (pg_view (db w))) (pg_view (db w)) (pg_view (db w')) \<and>
    (r = Inl ErrNotFound \<longrightarrow> pg_view (db w') = pg_view (db w) \<and>
       (\<forall>t. a_toks (pg_view (db w)) i = Some t \<longrightarrow> t_RevokedAt t \<noteq> None))"
proof (rule affected_write [OF assms(2) [unfolded Pg_RevokeRefreshToken_def] assms(1)])
  fix now d n d'
  let ?P = "\<lambda>t. t_ID t = i \<and> t_RevokedAt t = None"
  assume d: "pg_inv ci d" "pg_view d = pg_view (db w)"
    and st: "(Inr (update_tokens ?P (\<lambda>t. t\<lparr>t_RevokedAt := Some now\<rparr>) d) :: err + nat \<times> Pg) = Inr (n, d')"
  have eff: "pg_inv ci d'" "pg_view d' = revoke_where (\<lambda>t. t_ID t = i) now (pg_view (db w))"
    using pg_revoke [OF d(1), of ?P "\<lambda>t. t_ID t = i" now] st d(2) by auto
  have n: "n = length (filter ?P (pg_tokens d))" "d' = d\<lparr>pg_tokens := map (\<lambda>t. if ?P t then t\<lparr>t_RevokedAt := Some now\<rparr> else t) (pg_tokens d)\<rparr>"
    using st by (auto simp: update_tokens_def)
  show "pg_inv ci d' \<and> (if n = 0 then pg_view d' = pg_view (db w) \<and>
      (\<forall>t. a_toks (pg_view (db w)) i = Some t \<longrightarrow> t_RevokedAt t \<noteq> None)
      else \<exists>now. pg_view d' = revoke_where (\<lambda>t. t_ID t = i) now (pg_view (db w)))"
  proof (cases "n = 0")
    case True
    then have none: "\<forall>t \<in> set (pg_tokens d). \<not> ?P t" using n(1) by (auto simp: filter_empty_conv)
    then have "d' = d" using n(2) by (simp add: map_idI)
    moreover have "t_RevokedAt t \<noteq> None" if "a_toks (pg_view (db w)) i = Some t" for t
    proof -
      have "a_toks (pg_view d) i = Some t" using that d(2) by simp
      then have "t \<in> set (pg_tokens d)" "t_ID t = i" using d(1) by (auto simp: pg_view_def pg_inv_def by_key_Some)
      with none show ?thesis by auto
    qed
    ultimately show ?thesis using True d by simp
  qed (use eff in auto)
qed auto

lemma Pg_RevokeUserRefreshTokens_law:
  assumes "pg_inv ci (db w)" "Pg_RevokeUserRefreshTokens i ex w = (r, w')"
  shows "frame (pg_inv ci) w w' \<and> uuids w' = uuids w \<and>
    wrote r (\<lambda>_ a'. \<exists>now. a' = revoke_where (\<lambda>t. t_UserID t = i \<and> \<not> spared ex (t_ID t)) now (pg_view (db w)))
      (pg_view (db w)) (pg_view (db w'))"
proof (rule pg_write [OF assms(2) [unfolded Pg_RevokeUserRefreshTokens_def] assms(1)])
  fix now d x d'
  let ?P = "\<lambda>t. t_UserID t = i \<and> t_RevokedAt t = None \<and> (ex = None \<or> Some (t_ID t) \<noteq> ex)"
  assume d: "pg_inv ci d" "pg_view d = pg_view (db w)"
    and st: "(Inr ((), snd (update_tokens ?P (\<lambda>t. t\<lparr>t_RevokedAt := Some now\<rparr>) d)) :: err + unit \<times> Pg) = Inr (x, d')"
  show "pg_inv ci d' \<and> (\<exists>now. pg_view d' = revoke_where (\<lambda>t. t_UserID t = i \<and> \<not> spared ex (t_ID t)) now (pg_view (db w)))"
  proof -
    have "\<And>t. ?P t \<longleftrightarrow> (t_UserID t = i \<and> \<not> spared ex (t_ID t)) \<and> t_RevokedAt t = None"
      by (auto simp: spared_def)
    from pg_revoke [OF d(1) this, of now] st d(2) show ?thesis by auto
  qed
qed auto

lemma Pg_RevokeRefreshTokenChain_law:
  assumes "pg_inv ci (db w)" "acyclic (rotated (pg_view (db w)))" "Pg_RevokeRefreshTokenChain i w = (r, w')"
  shows "frame (pg_inv ci) w w' \<and> uuids w' = uuids w \<and>
    wrote r (\<lambda>_ a'. \<exists>now. a' = revoke_where (\<lambda>t. t_ID t \<in> chain (pg_view (db w)) i) now (pg_view (db w)))
      (pg_view (db w)) (pg_view (db w'))"
proof (rule pg_write [OF assms(3) [unfolded Pg_RevokeRefreshTokenChain_def] assms(1)])
  fix now d x d'
  assume "pg_inv ci d" "pg_view d = pg_view (db w)" "sql_revoke_chain i now d = Inr (x, d')"
  then show "pg_inv ci d' \<and> (\<exists>now. pg_view d' = revoke_where (\<lambda>t. t_ID t \<in> chain (pg_view (db w)) i) now (pg_view (db w)))"
    using sql_revoke_chain_law [of ci d i now] assms(2) by auto
next
  fix now d e
  assume "pg_inv ci d" "pg_view d = pg_view (db w)" "sql_revoke_chain i now d = Inl e"
  then show "\<not> abrupt e" using sql_revoke_chain_law [of ci d i now] assms(2) by auto
qed

lemma Pg_SetCredential_law:
  assumes "pg_inv ci (db w)" "Pg_SetCredential i h mc w = (r, w')"
  shows "frame (pg_inv ci) w w' \<and> uuids w' = uuids w \<and>
    wrote r (\<lambda>_ a'. \<exists>now. a' = put_cred i h mc now (pg_view (db w))) (pg_view (db w)) (pg_view (db w'))"
proof (rule pg_write [OF assms(2) [unfolded Pg_SetCredential_def] assms(1)])
  fix now d x d'
  assume "pg_inv ci d" "pg_view d = pg_view (db w)" "sql_upsert_credential i h mc now d = Inr (x, d')"
  then show "pg_inv ci d' \<and> (\<exists>now. pg_view d' = put_cred i h mc now (pg_view (db w)))"
    using sql_upsert_credential_law [of ci d i h mc now x d'] by auto
next
  fix now d e
  assume "sql_upsert_credential i h mc now d = Inl e"
  then show "\<not> abrupt e" by (auto simp: sql_upsert_credential_def split: if_splits)
qed

lemma Pg_CreateRefreshToken_law:
  assumes "pg_inv ci (db w)" "t_RevokedAt t = None" "t_ReplacedBy t = None" "Pg_CreateRefreshToken t w = (r, w')"
  shows "frame (pg_inv ci) w w' \<and> uuids w' = uuids w \<and>
    wrote r (\<lambda>_ a'. tok_fresh t (pg_view (db w)) \<and>
        a' = put_tok (t\<lparr>t_IssuedAt := pg_ts (t_IssuedAt t), t_ExpiresAt := pg_ts (t_ExpiresAt t)\<rparr>) (pg_view (db w)))
      (pg_view (db w)) (pg_view (db w'))"
proof (rule pg_write [OF assms(4) [unfolded Pg_CreateRefreshToken_def] assms(1)])
  fix now d x d'
  assume "pg_inv ci d" "pg_view d = pg_view (db w)" "sql_insert_token t now d = Inr (x, d')"
  then show "pg_inv ci d' \<and> tok_fresh t (pg_view (db w)) \<and>
      pg_view d' = put_tok (t\<lparr>t_IssuedAt := pg_ts (t_IssuedAt t), t_ExpiresAt := pg_ts (t_ExpiresAt t)\<rparr>) (pg_view (db w))"
    using sql_insert_token_law [of ci d t now x d'] assms(2,3) by auto
next
  fix now d e
  assume "sql_insert_token t now d = Inl e"
  then show "\<not> abrupt e" by (auto simp: sql_insert_token_def split: if_splits)
qed

interpretation pg: store_contract "Pg_Store ci" pg_view "pg_inv ci" ci pg_ts "\<lambda>w. pg_ts (shd (pg_now (db w)))"
    "\<lambda>_ _. True" "\<lambda>_ _ _. True" for ci
proof (unfold_locales, goal_cases)
  case (1 d)
  then show ?case by (rule pg_keyed)
next
  case (2 x)
  then show ?case by (simp add: pg_ts_def)
next
  case (3 w i ru w')
  then show ?case
    using pg_query_row [of "\<lambda>d. find (\<lambda>u. u_ID u = i) (pg_users d)" w ru w' ci]
    by (simp add: pg_sel Pg_GetUser_def find_by_key pg_view_def)
next
  case (4 w n ru w')
  then show ?case
    using pg_query_row [of "\<lambda>d. find (\<lambda>u. ci (u_Username u) = ci n) (pg_users d)" w ru w' ci] pg_rows(1,3) [of ci "db w"]
    by (auto simp: pg_sel Pg_GetUserByUsername_def name_free_def find_None_set ran_def dest!: find_SomeD)
next
  case (5 w rl w')
  then show ?case
    using pg_query [of "\<lambda>now d. sort_key u_CreatedAt (pg_users d)" w rl w' ci] pg_rows(3,5) [of ci "db w"]
    by (auto simp: pg_sel Pg_ListUsers_def)
next
  case (6 w rn w')
  then show ?case
    using pg_query [of "\<lambda>now d. int (length (pg_users d))" w rn w' ci] pg_rows(7) [of ci "db w"]
    by (auto simp: pg_sel Pg_CountUsers_def)
next
  case (7 w i rc w')
  then show ?case
    using pg_query_row [of "\<lambda>d. find (\<lambda>c. c_UserID c = i) (pg_credentials d)" w rc w' ci]
    by (simp add: pg_sel Pg_GetCredential_def find_by_key pg_view_def)
next
  case (8 w h rt w')
  then show ?case
    using pg_query_row [of "\<lambda>d. find (\<lambda>t. t_TokenHash t = h) (pg_tokens d)" w rt w' ci] pg_rows(2,4) [of ci "db w"]
    by (auto simp: pg_sel Pg_GetRefreshTokenByHash_def find_None_set ran_def dest!: find_SomeD)
next
  case (9 w i rs w')
  then show ?case
    using pg_query [of "\<lambda>now d. sort_key (\<lambda>t. - t_IssuedAt t) (filter (\<lambda>t. t_UserID t = i \<and> t_RevokedAt t = None \<and>
        t_ReplacedBy t = None \<and> t_ExpiresAt t > now) (pg_tokens d))" w rs w' ci] pg_rows(4,6) [of ci "db w"]
    by (auto simp: pg_sel Pg_ListUserSessions_def Active_def read_only_def)
next
  case (10 w p ru w')
  then show ?case using Pg_CreateUser_law [of ci w p ru w'] by (simp add: pg_sel)
next
  case (11 w up ru w')
  then show ?case using Pg_UpdateUser_law [of ci w up ru w'] by (simp add: pg_sel)
next
  case (12 w i ph mc r w')
  then show ?case using Pg_SetCredential_law [of ci w i ph mc r w'] by (simp add: pg_sel)
next
  case (13 w t r w')
  then show ?case using Pg_CreateRefreshToken_law [of ci w t r w'] by (simp add: pg_sel)
next
  case (14 w old new r w')
  then show ?case using Pg_ReplaceRefreshToken_law [of ci w old new r w'] by (simp add: pg_sel)
next
  case (15 w i r w')
  then show ?case using Pg_RevokeRefreshToken_law [of ci w i r w'] by (simp add: pg_sel)
next
  case (16 w i r w')
  then show ?case using Pg_RevokeRefreshTokenChain_law [of ci w i r w'] by (simp add: pg_sel)
next
  case (17 w i ex r w')
  then show ?case using Pg_RevokeUserRefreshTokens_law [of ci w i ex r w'] by (simp add: pg_sel)
qed

section \<open>A server without faults\<close>

definition pg_up :: "Pg \<Rightarrow> bool" where
  "pg_up d \<longleftrightarrow> pg_net d = sconst NetOk"

definition pg_sound :: "(string \<Rightarrow> string) \<Rightarrow> Pg \<Rightarrow> bool" where
  "pg_sound ci d \<longleftrightarrow> pg_inv ci d \<and> pg_up d"

lemma pg_sound_inv: "pg_sound ci d \<Longrightarrow> pg_inv ci d"
  by (simp add: pg_sound_def)

lemma pg_exec_up:
  assumes "pg_up (db w)" and "\<And>now d x d'. stmt now d = Inr (x, d') \<Longrightarrow> pg_net d' = pg_net d"
  shows "pg_up (db (snd (pg_exec stmt w)))"
    "fst (pg_exec stmt w) = map_sum id fst (stmt (pg_ts (shd (pg_now (db w)))) (pg_tick (db w)))"
  using assms by (auto simp: pg_up_def pg_exec_def pg_tick_def Let_def split: sum.splits)

lemma snd_scan_row [simp]: "snd (scan_row x) = snd x"
  by (auto simp: scan_row_def split: prod.splits sum.splits option.splits)

lemma snd_affected [simp]: "snd (affected x) = snd x"
  by (auto simp: affected_def split: prod.splits sum.splits)

lemma stmt_net:
  "sql_insert_user ci i p now d = Inr (x1, d') \<Longrightarrow> pg_net d' = pg_net d"
  "sql_update_user up now d = Inr (x2, d') \<Longrightarrow> pg_net d' = pg_net d"
  "sql_upsert_credential i h mc now d = Inr (x3, d') \<Longrightarrow> pg_net d' = pg_net d"
  "sql_insert_token t now d = Inr (x3, d') \<Longrightarrow> pg_net d' = pg_net d"
  "sql_replace_token i j now d = Inr (x4, d') \<Longrightarrow> pg_net d' = pg_net d"
  "sql_revoke_chain i now d = Inr (x3, d') \<Longrightarrow> pg_net d' = pg_net d"
  "pg_net (snd (update_tokens P f d)) = pg_net d"
  by (auto simp: sql_insert_user_def sql_update_user_def sql_upsert_credential_def sql_insert_token_def
      sql_replace_token_def sql_revoke_chain_def update_tokens_def Let_def split: if_splits prod.splits option.splits)

lemma pg_ops_up:
  assumes "pg_up (db w)"
  shows "pg_up (db (snd (Pg_GetUser i w)))" "pg_up (db (snd (Pg_GetUserByUsername ci n w)))"
    "pg_up (db (snd (Pg_ListUsers w)))" "pg_up (db (snd (Pg_CountUsers w)))" "pg_up (db (snd (Pg_GetCredential i w)))"
    "pg_up (db (snd (Pg_GetRefreshTokenByHash b w)))" "pg_up (db (snd (Pg_ListUserSessions i w)))"
    "pg_up (db (snd (Pg_UpdateUser up w)))" "pg_up (db (snd (Pg_SetCredential i h mc w)))"
    "pg_up (db (snd (Pg_CreateRefreshToken t w)))" "pg_up (db (snd (Pg_ReplaceRefreshToken i j w)))"
    "pg_up (db (snd (Pg_RevokeRefreshToken i w)))" "pg_up (db (snd (Pg_RevokeRefreshTokenChain i w)))"
    "pg_up (db (snd (Pg_RevokeUserRefreshTokens i ex w)))"
  unfolding Pg_GetUser_def Pg_GetUserByUsername_def Pg_ListUsers_def Pg_CountUsers_def Pg_GetCredential_def
    Pg_GetRefreshTokenByHash_def Pg_ListUserSessions_def Pg_UpdateUser_def Pg_SetCredential_def
    Pg_CreateRefreshToken_def Pg_ReplaceRefreshToken_def Pg_RevokeRefreshToken_def Pg_RevokeRefreshTokenChain_def
    Pg_RevokeUserRefreshTokens_def snd_scan_row snd_affected
  by (rule pg_exec_up [OF assms]; use stmt_net in \<open>force simp: update_tokens_def\<close>)+

lemma pg_create_up:
  assumes "pg_up (db w)"
  shows "pg_up (db (snd (Pg_CreateUser ci p w)))"
proof (cases "shd (uuids w)")
  case None
  with assms show ?thesis by (simp add: Pg_CreateUser_def uuid_NewV7_def)
next
  case (Some i)
  define w1 where "w1 = w\<lparr>uuids := stl (uuids w)\<rparr>"
  obtain r1 w2 where ex: "pg_exec (sql_insert_user ci i p) w1 = (r1, w2)" by fastforce
  have "snd (Pg_CreateUser ci p w) = w2"
    using Some ex by (auto simp: Pg_CreateUser_def uuid_NewV7_def w1_def scan_row_def split: sum.splits option.splits)
  moreover have "pg_up (db w2)"
    using pg_exec_up(1) [of w1 "sql_insert_user ci i p"] stmt_net(1) ex assms by (simp add: w1_def)
  ultimately show ?thesis by simp
qed

lemma frame_and: "frame (\<lambda>d. P d \<and> Q d) w w' \<longleftrightarrow> frame P w w' \<and> Q (db w')"
  by (auto simp: frame_def)

lemmas sound_frame = frame_and undisturbed_def read_only_def pg_sound_def [abs_def]

lemma pg_up_of: "pg_up (db (snd m)) \<Longrightarrow> m = (r, w') \<Longrightarrow> pg_up (db w')"
  by simp

lemmas pg_ups = pg_ops_up [THEN pg_up_of] pg_create_up [THEN pg_up_of]

lemma scan_total: "scan_row (pg_exec (\<lambda>now d. Inr (q d, d)) w) = (Inl e, w') \<Longrightarrow> pg_up (db w) \<Longrightarrow> e = ErrNotFound"
  using pg_exec_up(2) [of w "\<lambda>now d. Inr (q d, d)"]
  by (auto simp: scan_row_def split: prod.splits sum.splits option.splits)

lemma pg_total:
  "pg_up (db w) \<Longrightarrow> \<exists>d'. stmt (pg_ts (shd (pg_now (db w)))) (pg_tick (db w)) = Inr (x, d') \<Longrightarrow>
     pg_exec stmt w = (r, w') \<Longrightarrow> r = Inr x"
  by (auto simp: pg_exec_def pg_up_def Let_def)

text \<open>With the rows they refer to in place, the writes are not refused.\<close>

lemma stmt_total:
  "i \<in> dom (a_users (pg_view d)) \<Longrightarrow> \<exists>d'. sql_upsert_credential i h mc now (pg_tick d) = Inr ((), d')"
  "tok_fresh t (pg_view d) \<Longrightarrow> pg_inv ci d \<Longrightarrow> t_UserID t \<in> dom (a_users (pg_view d)) \<Longrightarrow>
     \<exists>d'. sql_insert_token t now (pg_tick d) = Inr ((), d')"
  by (auto simp: sql_upsert_credential_def sql_insert_token_def tok_fresh_def pg_view_def dom_by_key by_key_None
      list_ex_iff pg_inv_def by_key_Some simp flip: not_None_eq) (metis image_eqI)

lemma Pg_Replace_total:
  assumes "pg_inv ci (db w)" "pg_up (db w)" "a_toks (pg_view (db w)) old = Some t" "t_ReplacedBy t = None"
    and "new \<in> dom (a_toks (pg_view (db w)))" "Pg_ReplaceRefreshToken old new w = (r, w')"
  shows "r = Inr ()"
proof -
  have t: "t \<in> set (pg_tokens (db w))" "t_ID t = old"
    using assms(1,3) by (auto simp: pg_view_def pg_inv_def by_key_Some)
  have new: "list_ex (\<lambda>t. t_ID t = new) (pg_tokens (db w))"
    using assms(5) by (auto simp: pg_view_def dom_by_key list_ex_iff)
  have "filter (\<lambda>t. t_ID t = old \<and> t_ReplacedBy t = None) (pg_tokens (db w)) \<noteq> []"
    using t assms(4) by (auto simp: filter_empty_conv)
  with new assms(2,6) show ?thesis
    by (auto simp: Pg_ReplaceRefreshToken_def affected_def pg_exec_def pg_up_def sql_replace_token_def
        update_tokens_def Let_def)
qed

lemma Pg_CreateUser_total:
  assumes "pg_up (db w)" "shd (uuids w) = Some i" "a_users (pg_view (db w)) i = None"
    "name_free ci (cp_Username p) (pg_view (db w))" "cp_Role p \<in> {RoleAdmin, RoleMember}"
    "pg_inv ci (db w)" "Pg_CreateUser ci p w = (r, w')"
  shows "\<not> isl r"
proof -
  have "\<not> list_ex (\<lambda>u. u_ID u = i \<or> ci (u_Username u) = ci (cp_Username p)) (pg_users (db w))"
    using assms(3,4,6) by (auto simp: list_ex_iff pg_view_def by_key_None name_free_def by_key_Some pg_inv_def)
  with assms show ?thesis
    by (auto simp: Pg_CreateUser_def uuid_NewV7_def scan_row_def pg_exec_def pg_up_def sql_insert_user_def
        check_role_def check_status_def role_status_defs Let_def)
qed

lemma Pg_UpdateUser_total:
  assumes "pg_up (db w)" "pg_inv ci (db w)" "up_ID up \<in> dom (a_users (pg_view (db w)))"
    "set_option (up_Role up) \<subseteq> {RoleAdmin, RoleMember}" "set_option (up_Status up) \<subseteq> {StatusActive, StatusDisabled}"
    "Pg_UpdateUser up w = (r, w')"
  shows "\<not> isl r"
proof -
  obtain u0 where u0: "find (\<lambda>u. u_ID u = up_ID up) (pg_users (db w)) = Some u0" "u0 \<in> set (pg_users (db w))"
    using assms(2,3) by (auto simp: pg_view_def find_by_key by_key_Some pg_inv_def)
  obtain sets args where us: "update_sets up = (sets, args)" by fastforce
  have "check_role (u_Role (apply_update up now u0)) \<and> check_status (u_Status (apply_update up now u0))" for now
    using assms(2,4,5) u0(2)
    by (auto simp: apply_update_def check_role_def check_status_def role_status_defs pg_inv_def split: option.splits)
  with u0 us assms(1,6) show ?thesis
    by (auto simp: Pg_UpdateUser_def scan_row_def pg_exec_def pg_up_def sql_update_user_def run_sets [OF us] Let_def)
qed

interpretation pg_live: reliable_store "Pg_Store ci" pg_view "pg_sound ci" ci pg_ts "\<lambda>w. pg_ts (shd (pg_now (db w)))"
    "\<lambda>_ _. True" "\<lambda>_ _ _. True" for ci
proof (unfold_locales, goal_cases)
  case (1 d)
  then show ?case by (simp add: pg_sound_def pg_keyed)
next
  case (2 x)
  then show ?case by (rule pg.ts_le)
next
  case (3 w i ru w')
  then show ?case using pg.GetUser [of ci w i ru w'] pg_ups(1) [of w i ru w'] by (simp add: sound_frame pg_sel)
next
  case (4 w n ru w')
  then show ?case using pg.GetUserByUsername [of ci w n ru w'] pg_ups(2) [of w ci n ru w'] by (simp add: sound_frame pg_sel)
next
  case (5 w rl w')
  then show ?case using pg.ListUsers [of ci w rl w'] pg_ups(3) [of w rl w'] by (simp add: sound_frame pg_sel)
next
  case (6 w rn w')
  then show ?case using pg.CountUsers [of ci w rn w'] pg_ups(4) [of w rn w'] by (simp add: sound_frame pg_sel)
next
  case (7 w i rc w')
  then show ?case using pg.GetCredential [of ci w i rc w'] pg_ups(5) [of w i rc w'] by (simp add: sound_frame pg_sel)
next
  case (8 w h rt w')
  then show ?case using pg.GetRefreshTokenByHash [of ci w h rt w'] pg_ups(6) [of w h rt w'] by (simp add: sound_frame pg_sel)
next
  case (9 w i rs w')
  then show ?case using pg.ListUserSessions [of ci w i rs w'] pg_ups(7) [of w i rs w'] by (simp add: sound_frame pg_sel)
next
  case (10 w p ru w')
  then show ?case using pg.CreateUser [of ci w p ru w'] pg_ups(15) [of w ci p ru w'] by (simp add: sound_frame pg_sel)
next
  case (11 w up ru w')
  then show ?case using pg.UpdateUser [of ci w up ru w'] pg_ups(8) [of w up ru w'] by (simp add: sound_frame pg_sel)
next
  case (12 w i ph mc r w')
  then show ?case using pg.SetCredential [of ci w i ph mc r w'] pg_ups(9) [of w i ph mc r w'] by (simp add: sound_frame pg_sel)
next
  case (13 w t r w')
  then show ?case using pg.CreateRefreshToken [of ci w t r w'] pg_ups(10) [of w t r w'] by (simp add: sound_frame pg_sel)
next
  case (14 w old new r w')
  then show ?case using pg.ReplaceRefreshToken [of ci w old new r w'] pg_ups(11) [of w old new r w'] by (simp add: sound_frame pg_sel)
next
  case (15 w i r w')
  then show ?case using pg.RevokeRefreshToken [of ci w i r w'] pg_ups(12) [of w i r w'] by (simp add: sound_frame pg_sel)
next
  case (16 w i r w')
  then show ?case using pg.RevokeRefreshTokenChain [of ci w i r w'] pg_ups(13) [of w i r w'] by (simp add: sound_frame pg_sel)
next
  case (17 w i ex r w')
  then show ?case using pg.RevokeUserRefreshTokens [of ci w i ex r w'] pg_ups(14) [of w i ex r w'] by (simp add: sound_frame pg_sel)
next
  case (18 w i e w')
  then show ?case using scan_total [of "\<lambda>d. find (\<lambda>u. u_ID u = i) (pg_users d)" w e w']
    by (simp add: pg_sel Pg_GetUser_def pg_sound_def)
next
  case (19 w n e w')
  then show ?case using scan_total [of "\<lambda>d. find (\<lambda>u. ci (u_Username u) = ci n) (pg_users d)" w e w']
    by (simp add: pg_sel Pg_GetUserByUsername_def pg_sound_def)
next
  case (20 w i e w')
  then show ?case using scan_total [of "\<lambda>d. find (\<lambda>c. c_UserID c = i) (pg_credentials d)" w e w']
    by (simp add: pg_sel Pg_GetCredential_def pg_sound_def)
next
  case (21 w h e w')
  then show ?case using scan_total [of "\<lambda>d. find (\<lambda>t. t_TokenHash t = h) (pg_tokens d)" w e w']
    by (simp add: pg_sel Pg_GetRefreshTokenByHash_def pg_sound_def)
next
  case (22 w i ph mc r w')
  then show ?case using stmt_total(1) [of i "db w" ph mc] pg_total [of w "sql_upsert_credential i ph mc" "()" r w']
    by (auto simp: pg_sel Pg_SetCredential_def pg_sound_def)
next
  case (23 w t r w')
  then show ?case using stmt_total(2) [of t "db w"] pg_total [of w "sql_insert_token t" "()" r w']
    by (auto simp: pg_sel Pg_CreateRefreshToken_def pg_sound_def)
next
  case (24 w old t new r w')
  then show ?case using Pg_Replace_total [of ci w old t new r w'] by (simp add: pg_sel pg_sound_def)
next
  case (25 w i e w')
  then show ?case using pg_total [of w _ _ "Inl e" w']
    by (auto simp: pg_sel Pg_RevokeRefreshToken_def pg_sound_def affected_def pg_exec_def pg_up_def update_tokens_def
        Let_def split: sum.splits if_splits)
next
  case (26 w i r w')
  then show ?case
    using sql_revoke_chain_law [of ci "pg_tick (db w)" i "pg_ts (shd (pg_now (db w)))"]
      pg_total [of w "sql_revoke_chain i" "()" r w']
    by (auto simp: pg_sel Pg_RevokeRefreshTokenChain_def pg_sound_def)
next
  case (27 w i ex r w')
  then show ?case by (auto simp: pg_sel Pg_RevokeUserRefreshTokens_def pg_sound_def pg_exec_def pg_up_def Let_def)
next
  case (28 w rn w')
  then show ?case by (auto simp: pg_sel Pg_CountUsers_def pg_sound_def pg_exec_def pg_up_def Let_def)
next
  case (29 w i rs w')
  then show ?case by (auto simp: pg_sel Pg_ListUserSessions_def pg_sound_def pg_exec_def pg_up_def Let_def)
next
  case (30 w i p ru w')
  then show ?case using Pg_CreateUser_total [of w i ci p ru w'] by (simp add: pg_sel pg_sound_def)
next
  case (31 w up ru w')
  then show ?case using Pg_UpdateUser_total [of w ci up ru w'] by (simp add: pg_sel pg_sound_def)
qed

end
