(* ===== verification/Toy_Ext.thy ===== *)
theory Toy_Ext
  imports Token
begin

text \<open>
  A concrete instance of the code outside the repository (\<open>ext\<close>), with which the hypotheses
  \<open>argon2_ok\<close>, \<open>jwt_ok\<close> and \<open>uuid_ok\<close> are shown to be satisfiable and the concrete examples
  of the development are computed. It is no cryptography: a key is derived by concatenation,
  a hash by truncation, and a token is its claims written out, tagged with the public key.
\<close>

section \<open>A readable encoding of lists of strings\<close>

definition put_str :: "string \<Rightarrow> string" where
  "put_str s = concat (map (\<lambda>c. [CHR ''x'', c]) s) @ ''.''"

definition put_list :: "string list \<Rightarrow> string" where
  "put_list ss = concat (map put_str ss)"

fun get_list :: "string \<Rightarrow> string \<Rightarrow> string list" where
  "get_list acc [] = []"
| "get_list acc [c] = (if c = CHR ''.'' then [rev acc] else [])"
| "get_list acc (c # d # r) =
     (if c = CHR ''.'' then rev acc # get_list [] (d # r) else get_list (d # acc) r)"

lemma get_list_str: "get_list acc (concat (map (\<lambda>c. [CHR ''x'', c]) s) @ CHR ''.'' # r) = (rev acc @ s) # get_list [] r"
proof (induction s arbitrary: acc)
  case Nil
  then show ?case by (cases r) auto
qed auto

lemma get_put_list [simp]: "get_list [] (put_list ss) = ss"
  by (induction ss) (auto simp: put_list_def put_str_def get_list_str)

definition put_time :: "instant option \<Rightarrow> string" where
  "put_time t = (case t of None \<Rightarrow> [] | Some i \<Rightarrow>
     (if i < 0 then CHR ''-'' else CHR ''+'') # show_nat (nat (abs i)))"

definition get_time :: "string \<Rightarrow> instant option" where
  "get_time s = (case s of [] \<Rightarrow> None | c # ds \<Rightarrow>
     Some (if c = CHR ''-'' then - int (nat_of_digits ds) else int (nat_of_digits ds)))"

lemma get_put_time [simp]: "get_time (put_time t) = t"
  by (cases t) (simp_all add: get_time_def put_time_def codec del: show_nat.simps)

section \<open>The instance\<close>

definition toy_IDKey :: "bytes \<Rightarrow> bytes \<Rightarrow> u32 \<Rightarrow> u32 \<Rightarrow> u8 \<Rightarrow> u32 \<Rightarrow> bytes option" where
  "toy_IDKey pw salt t m par n =
     (if t = 0 \<or> par = 0 then None else Some (take (unat n) (pw @ salt @ replicate (unat n) 0)))"

definition toy_Sum256 :: "bytes \<Rightarrow> bytes" where
  "toy_Sum256 b = take 32 (b @ replicate 32 0)"

definition toy_public :: "bytes \<Rightarrow> bytes" where
  "toy_public seed = map (\<lambda>b. b + 1) seed"

definition toy_sign :: "bytes \<Rightarrow> jwt_header \<Rightarrow> Claims \<Rightarrow> err + string" where
  "toy_sign key h c =
     Inr (put_list [string_of_bytes (drop 32 key), h_alg h, cl_Issuer c, cl_Subject c, put_list (cl_Audience c),
            put_time (cl_ExpiresAt c), put_time (cl_NotBefore c), put_time (cl_IssuedAt c), cl_ID c,
            cl_PreferredUsername c, put_list (cl_Roles c)])"

definition toy_parse :: "bytes \<Rightarrow> parse_opts \<Rightarrow> instant \<Rightarrow> string \<Rightarrow> err + Claims" where
  "toy_parse pub po now tok =
     (case get_list [] tok of
        [p, alg, iss, sub, aud, ex, nbf, iat, jid, user, roles] \<Rightarrow>
          (let c = \<lparr>cl_Issuer = iss, cl_Subject = sub, cl_Audience = get_list [] aud,
                    cl_ExpiresAt = get_time ex, cl_NotBefore = get_time nbf, cl_IssuedAt = get_time iat,
                    cl_ID = jid, cl_PreferredUsername = user, cl_Roles = get_list [] roles\<rparr>
           in if p = string_of_bytes pub \<and> alg \<in> set (po_methods po) \<and> claims_valid po now c
              then Inr c else Inl (Other ''token''))
      | _ \<Rightarrow> Inl (Other ''token''))"

definition toy_uuid_Parse :: "string \<Rightarrow> uuid option" where
  "toy_uuid_Parse s = (if s \<noteq> [] \<and> list_all is_digit s then Some (of_nat (nat_of_digits s)) else None)"

definition toy_ext :: ext where
  "toy_ext = \<lparr>IDKey = toy_IDKey, Sum256 = toy_Sum256, ed25519_public = toy_public,
              NewNumericDate = (\<lambda>t. t div Second * Second), SignedString = toy_sign,
              ParseWithClaims = toy_parse, uuid_String = (\<lambda>u. show_nat (unat u)),
              uuid_Parse = toy_uuid_Parse\<rparr>"

lemma toy_argon2: "argon2_ok toy_ext"
  by (auto simp: argon2_ok_def toy_ext_def toy_IDKey_def)

lemma toy_parse_valid: "toy_parse pub po now tok = Inr c \<Longrightarrow> claims_valid po now c"
  by (auto simp: toy_parse_def Let_def split: list.splits if_splits)

lemma toy_sign_parse:
  "toy_sign (seed @ toy_public seed) h c = Inr tok \<Longrightarrow> length seed = 32 \<Longrightarrow> h_alg h \<in> set (po_methods po) \<Longrightarrow>
     claims_valid po now c \<Longrightarrow> toy_parse (toy_public seed) po now tok = Inr c"
  by (cases c) (auto simp: toy_sign_def toy_parse_def Let_def)

lemma toy_jwt: "jwt_ok toy_ext"
proof -
  have "\<exists>tok. toy_sign (seed @ toy_public seed) h c = Inr tok" for seed h c by (simp add: toy_sign_def)
  moreover have "\<exists>n. toy_parse (toy_public seed) po now tok = Inr (c\<lparr>cl_PreferredUsername := n\<rparr>) \<and>
      (is_ascii (cl_PreferredUsername c) \<longrightarrow> n = cl_PreferredUsername c)"
    if "length seed = 32" "toy_sign (seed @ toy_public seed) h c = Inr tok" "h_alg h \<in> set (po_methods po)"
      "claims_valid po now c" for seed h c tok po now
    using toy_sign_parse [OF that(2,1,3,4)] by (intro exI [of _ "cl_PreferredUsername c"]) simp
  ultimately show ?thesis by (simp add: jwt_ok_def toy_ext_def toy_parse_valid)
qed

lemma toy_uuid: "uuid_ok toy_ext"
  using show_nat_nonempty show_nat_digits
  by (simp add: uuid_ok_def toy_ext_def toy_uuid_Parse_def codec list_all_iff del: show_nat.simps)

end
