(* ===== verification/Demo.thy ===== *)
theory Demo
  imports Fake_Store Postgres_Refines Toy_Ext
begin

text \<open>
  A small concrete installation: two users (one disabled), a rotated, an active and a
  revoked refresh token, once in the in-memory store and once in PostgreSQL tables. The
  witnesses of the development instantiate its theorems here.
\<close>

definition demo_hasher :: Hasher where
  "demo_hasher = NewHasher DefaultParams 0"

definition demo_issuer :: TokenIssuer where
  "demo_issuer = \<lparr>ti_private = replicate 32 1 @ replicate 32 2, ti_public = replicate 32 2,
                  ti_kid = b64_encode RawURLEncoding (replicate 8 2), ti_ttl = DefaultAccessTokenTTL\<rparr>"

definition demo_phc :: string where
  "demo_phc = format_phc DefaultParams (replicate 16 7)
     (take 32 (bytes_of_string ''correct horse'' @ replicate 16 7 @ replicate 32 0))"

definition demo_alice :: User where
  "demo_alice = \<lparr>u_ID = 1, u_Username = ''alice'', u_DisplayName = ''Alice'', u_Email = None, u_Role = ''admin'',
                 u_Status = ''active'', u_CreatedAt = 0, u_UpdatedAt = 0\<rparr>"

definition demo_bob :: User where
  "demo_bob = \<lparr>u_ID = 2, u_Username = ''bob'', u_DisplayName = ''Bob'', u_Email = None, u_Role = ''member'',
               u_Status = ''disabled'', u_CreatedAt = 1000, u_UpdatedAt = 1000\<rparr>"

definition demo_cred :: "uuid \<Rightarrow> Credential" where
  "demo_cred i = \<lparr>c_UserID = i, c_Kind = ''password'', c_PasswordHash = demo_phc, c_MustChange = False, c_UpdatedAt = 0\<rparr>"

definition demo_token :: "uuid \<Rightarrow> uuid \<Rightarrow> string \<Rightarrow> instant option \<Rightarrow> uuid option \<Rightarrow> RefreshToken" where
  "demo_token i u s rv rb = \<lparr>t_ID = i, t_UserID = u, t_TokenHash = HashRefreshToken toy_ext s, t_DeviceName = None,
     t_IssuedAt = 0, t_ExpiresAt = 1000000, t_RevokedAt = rv, t_ReplacedBy = rb\<rparr>"

definition demo_tokens :: "RefreshToken list" where
  "demo_tokens = [demo_token 11 1 ''old'' (Some 5000) (Some 12), demo_token 12 1 ''new'' None None,
                  demo_token 13 1 ''gone'' (Some 7000) None, demo_token 14 2 ''bob'' None None]"

definition demo_fake :: Fake where
  "demo_fake = \<lparr>f_users = [(1, demo_alice), (2, demo_bob)], f_credentials = [(1, demo_cred 1), (2, demo_cred 2)],
                f_tokens = map (\<lambda>t. (t_ID t, t)) demo_tokens\<rparr>"

definition demo_pg :: Pg where
  "demo_pg = \<lparr>pg_users = [demo_alice, demo_bob], pg_credentials = [demo_cred 1, demo_cred 2], pg_tokens = demo_tokens,
              pg_now = sconst 9000, pg_net = sconst NetOk\<rparr>"

definition demo_world :: "'d \<Rightarrow> 'd world" where
  "demo_world d = \<lparr>db = d, clock = sconst 9000, entropy = sconst (Some (\<lambda>n. 3)), uuids = sconst (Some 99), logs = []\<rparr>"

text \<open>The service over each of the two stores.\<close>

abbreviation pg_service :: "(string \<Rightarrow> string) \<Rightarrow> Hasher \<Rightarrow> TokenIssuer \<Rightarrow> duration \<Rightarrow> Pg Service" where
  "pg_service ci h t d \<equiv> Service_New (Pg_Store ci) h t d"

abbreviation fake_service :: "(string \<Rightarrow> string) \<Rightarrow> Hasher \<Rightarrow> TokenIssuer \<Rightarrow> duration \<Rightarrow> Fake Service" where
  "fake_service ci h t d \<equiv> Service_New (Fake_Store ci) h t d"

abbreviation demo_pg_service :: "Pg Service" where
  "demo_pg_service \<equiv> pg_service id demo_hasher demo_issuer 0"

abbreviation demo_fake_service :: "Fake Service" where
  "demo_fake_service \<equiv> fake_service id demo_hasher demo_issuer 0"

section \<open>It is well formed\<close>

lemmas demo_defs = demo_alice_def demo_bob_def demo_cred_def demo_token_def demo_tokens_def

lemma demo_world_fields [simp]:
  "db (demo_world d) = d" "shd (clock (demo_world d)) = 9000" "entropy (demo_world d) = sconst (Some (\<lambda>n. 3))"
  "uuids (demo_world d) = sconst (Some 99)"
  by (simp_all add: demo_world_def)

lemma demo_issuer_built: "NewTokenIssuer toy_ext (replicate 32 1) 0 = Inr demo_issuer"
  by (simp add: NewTokenIssuer_def demo_issuer_def SeedSize_def toy_ext_def toy_public_def toy_Sum256_def Let_def)

lemma demo_hash: "hash_of toy_ext demo_hasher ''correct horse'' demo_phc"
  unfolding hash_of_def demo_phc_def
  by (rule exI [of _ "replicate 16 7"], rule exI)
     (simp add: demo_hasher_def NewHasher_def DefaultParams_def toy_ext_def toy_IDKey_def)

lemma demo_sane: "sane_hasher demo_hasher"
  by (simp add: sane_hasher_def demo_hasher_def NewHasher_def DefaultParams_def)

lemma demo_verify: "Verify toy_ext demo_hasher ''correct horse'' demo_phc = Inr False"
  using hash_of_Verify [OF toy_argon2 demo_sane demo_hash, of demo_hasher] by simp

lemma demo_hashes:
  "HashRefreshToken toy_ext ''old'' \<noteq> HashRefreshToken toy_ext ''new''"
  "HashRefreshToken toy_ext ''old'' \<noteq> HashRefreshToken toy_ext ''gone''"
  "HashRefreshToken toy_ext ''old'' \<noteq> HashRefreshToken toy_ext ''bob''"
  "HashRefreshToken toy_ext ''new'' \<noteq> HashRefreshToken toy_ext ''gone''"
  "HashRefreshToken toy_ext ''new'' \<noteq> HashRefreshToken toy_ext ''bob''"
  "HashRefreshToken toy_ext ''gone'' \<noteq> HashRefreshToken toy_ext ''bob''"
  by (simp_all add: HashRefreshToken_def toy_ext_def toy_Sum256_def bytes_of_string_def byte_of_char_def)

lemmas demo_ne = demo_hashes demo_hashes [symmetric]

text \<open>Both stores hold the same tables.\<close>

definition demo_store :: astore where
  "demo_store = \<lparr>a_users = [1 \<mapsto> demo_alice, 2 \<mapsto> demo_bob], a_creds = [1 \<mapsto> demo_cred 1, 2 \<mapsto> demo_cred 2],
                 a_toks = map_of (map (\<lambda>t. (t_ID t, t)) demo_tokens)\<rparr>"

lemma demo_fake_view [simp]: "fake_view demo_fake = demo_store"
  by (auto simp: fake_view_def demo_fake_def demo_store_def)

lemma demo_pg_view [simp]: "pg_view demo_pg = demo_store"
  by (auto simp: pg_view_def demo_pg_def demo_store_def by_key_def demo_defs)

lemma demo_toks:
  "a_toks demo_store 11 = Some (demo_token 11 1 ''old'' (Some 5000) (Some 12))"
  "a_toks demo_store 12 = Some (demo_token 12 1 ''new'' None None)"
  "a_toks demo_store 13 = Some (demo_token 13 1 ''gone'' (Some 7000) None)"
  "a_toks demo_store 14 = Some (demo_token 14 2 ''bob'' None None)"
  by (simp_all add: demo_store_def demo_defs)

lemma demo_tok_cases:
  assumes "a_toks demo_store i = Some t"
  obtains "i = 11" "t = demo_token 11 1 ''old'' (Some 5000) (Some 12)" | "i = 12" "t = demo_token 12 1 ''new'' None None"
    | "i = 13" "t = demo_token 13 1 ''gone'' (Some 7000) None" | "i = 14" "t = demo_token 14 2 ''bob'' None None"
  using assms by (auto simp: demo_store_def demo_tokens_def demo_token_def split: if_splits)

lemma demo_users: "a_users demo_store 1 = Some demo_alice" "a_users demo_store 2 = Some demo_bob"
  "a_users demo_store 99 = None"
  by (simp_all add: demo_store_def)

lemma demo_creds: "a_creds demo_store 1 = Some (demo_cred 1)" "a_creds demo_store 2 = Some (demo_cred 2)"
  by (simp_all add: demo_store_def)

lemma demo_token_fields [simp]:
  "t_ID (demo_token i u s rv rb) = i" "t_UserID (demo_token i u s rv rb) = u"
  "t_TokenHash (demo_token i u s rv rb) = HashRefreshToken toy_ext s" "t_ExpiresAt (demo_token i u s rv rb) = 1000000"
  "t_RevokedAt (demo_token i u s rv rb) = rv" "t_ReplacedBy (demo_token i u s rv rb) = rb"
  by (simp_all add: demo_token_def)

lemma demo_replaced:
  assumes "a_toks demo_store i = Some t" "t_ReplacedBy t = Some n"
  shows "i = 11 \<and> n = 12 \<and> t = demo_token 11 1 ''old'' (Some 5000) (Some 12)"
  using assms(1) by (cases rule: demo_tok_cases) (use assms(2) in simp_all)

lemma demo_rotated: "rotated demo_store = {(11, 12)}"
  using demo_toks(1) unfolding rotated_def by (auto dest: demo_replaced)

lemma demo_owner: "a_toks demo_store i = Some t \<Longrightarrow> t_UserID t = 1 \<or> t_UserID t = 2"
  by (elim demo_tok_cases) auto

lemma demo_linked: "linked demo_store"
proof -
  have dom: "dom (a_users demo_store) = {1, 2}" "dom (a_creds demo_store) = {1, 2}"
    by (auto simp: demo_store_def)
  have "refs_ok demo_store" unfolding refs_ok_def dom using demo_owner by blast
  moreover have "rot_ok demo_store"
  proof (rule rot_okI)
    fix i t n
    assume "a_toks demo_store i = Some t" "t_ReplacedBy t = Some n"
    then show "t_RevokedAt t \<noteq> None \<and> (\<exists>s. a_toks demo_store n = Some s \<and> t_UserID s = t_UserID t)"
      using demo_replaced demo_toks(2) by force
  qed
  moreover have "acyclic (rotated demo_store)"
    using acyclic_insert_leaf [of "{}" 11 12] by (simp add: demo_rotated) (simp add: acyclic_def)
  ultimately show ?thesis by (simp add: linked_def)
qed

lemma demo_pg_inv: "pg_inv id demo_pg"
  by (simp add: pg_inv_def demo_pg_def demo_defs check_role_def check_status_def demo_ne)

lemma demo_fake_inv: "fake_inv id demo_fake"
proof -
  have "keyed id demo_store" using pg_keyed [OF demo_pg_inv] by simp
  then show ?thesis by (simp add: fake_inv_def demo_fake_def [symmetric]) (simp add: demo_fake_def demo_defs)
qed

lemma demo_drawn: "b64_encode RawURLEncoding (map (\<lambda>n. 3) [0..<32]) = ''AwMDAwMDAwMDAwMDAwMDAwMDAwMDAwMDAwMDAwMDAwM''"
  by code_simp

lemma demo_fresh: "fresh_draws fresh_token_key toy_ext (demo_world d) (a_toks demo_store)"
proof -
  have "hd (drawn_hash toy_ext (\<lambda>n. 3)) = 65"
    by (simp only: drawn_hash_def demo_drawn)
       (simp add: HashRefreshToken_def toy_ext_def toy_Sum256_def bytes_of_string_def byte_of_char_def)
  moreover have "hd (HashRefreshToken toy_ext s) \<noteq> 65" if "s \<in> {''old'', ''new'', ''gone'', ''bob''}" for s
    using that by (auto simp: HashRefreshToken_def toy_ext_def toy_Sum256_def bytes_of_string_def byte_of_char_def)
  ultimately have ne: "HashRefreshToken toy_ext s \<noteq> drawn_hash toy_ext (\<lambda>n. 3)" if "s \<in> {''old'', ''new'', ''gone'', ''bob''}" for s
    using that by metis
  have "t_TokenHash t \<noteq> drawn_hash toy_ext (\<lambda>n. 3)" if "a_toks demo_store i = Some t" for i t
    using that by (elim demo_tok_cases) (use ne in auto)
  moreover have "a_toks demo_store 99 = None" by (simp add: demo_store_def demo_defs)
  ultimately show ?thesis unfolding fresh_draws_def fresh_token_key_def by simp
qed

lemma demo_fresh_any: "fresh_draws (\<lambda>_ _ _. True) E w m"
  by (simp add: fresh_draws_def)

lemma demo_supplied: "supplied (demo_world d)"
  by (simp add: supplied_def)

lemma demo_built: "built toy_ext demo_issuer"
  using demo_issuer_built by (auto simp: built_def)

lemma demo_pg_sound: "pg_sound id demo_pg"
  using demo_pg_inv by (simp add: pg_sound_def pg_up_def) (simp add: demo_pg_def)

lemma demo_active: "Active (demo_token 12 1 ''new'' None None) 9000"
  by (simp add: Active_def)

lemma demo_alice_fields: "u_ID demo_alice = 1" "u_Username demo_alice = ''alice''" "u_Status demo_alice = StatusActive"
  by (simp_all add: demo_alice_def StatusActive_def)

lemma demo_bob_fields: "u_ID demo_bob = 2" "u_Username demo_bob = ''bob''" "u_Status demo_bob = StatusDisabled"
  by (simp_all add: demo_bob_def StatusDisabled_def)

text \<open>The active token can be refreshed and the right password logs in, over either store.\<close>

lemma demo_refresh:
  "\<exists>sess w'. Refresh toy_ext demo_pg_service ''new'' (demo_world demo_pg) = (Inr sess, w')"
  "\<exists>sess w'. Refresh toy_ext demo_fake_service ''new'' (demo_world demo_fake) = (Inr sess, w')"
  by (rule pg_live.Refresh_succeeds [of _ id _ _ 12 "demo_token 12 1 ''new'' None None" _ demo_alice]
      fake_live.Refresh_succeeds [of _ id _ _ 12 "demo_token 12 1 ''new'' None None" _ demo_alice];
      simp add: demo_pg_sound demo_fake_inv demo_supplied demo_fresh demo_fresh_any toy_jwt demo_built demo_toks
        demo_active demo_users demo_alice_fields)+

lemma demo_login:
  "\<exists>sess w'. Login toy_ext demo_pg_service ''alice'' ''correct horse'' [] (demo_world demo_pg) = (Inr sess, w')"
  "\<exists>sess w'. Login toy_ext demo_fake_service ''alice'' ''correct horse'' [] (demo_world demo_fake) = (Inr sess, w')"
  by (rule pg_live.Login_succeeds [of _ id _ _ 1 demo_alice _ "demo_cred 1" _ False]
      fake_live.Login_succeeds [of _ id _ _ 1 demo_alice _ "demo_cred 1" _ False];
      simp add: demo_pg_sound demo_fake_inv demo_supplied demo_fresh demo_fresh_any toy_jwt demo_built toy_argon2 demo_sane
        demo_users demo_creds demo_alice_fields demo_cred_def demo_verify)+

end
