(* ===== verification/Account_Theorems.thy ===== *)
theory Account_Theorems
  imports Demo
begin

text \<open>
  What the account operations of \<^verbatim>\<open>service.go\<close> do over the PostgreSQL store: ending sessions,
  changing and resetting passwords, creating and disabling accounts, the bootstrap, and the
  session list. Each theorem instantiates a law of the store contract at the SQL model.
\<close>

section \<open>Ending sessions\<close>

text \<open>
  C9. A logout that reports success ends the session for good: whatever requests follow, the
  token it was given never refreshes again.
\<close>

theorem pg_logout_ends_session:
  assumes "pg_inv ci (db w)" "linked (pg_view (db w))" "Logout E (pg_service ci h t d) refreshToken w = (Inr (), w')"
    and "a_toks (pg_view (db w)) i = Some tok" "t_TokenHash tok = HashRefreshToken E refreshToken"
  shows "\<exists>e. fst (Refresh E (pg_service ci h t d) refreshToken (serve_all E (pg_service ci h t d) qs w')) = Inl e"
  using pg.Logout_ends [OF _ assms(1-3) draws_ok_True assms(4,5)] by (simp add: isl_def)

theorem pg_logout_ends_session_witness:
  "\<exists>w' e. Logout toy_ext demo_pg_service ''new'' (demo_world demo_pg) = (Inr (), w') \<and>
     fst (Refresh toy_ext demo_pg_service ''new'' (serve_all toy_ext demo_pg_service
       [QLogin ''alice'' ''correct horse'' []] w')) = Inl e"
proof -
  obtain w' where run: "Logout toy_ext demo_pg_service ''new'' (demo_world demo_pg) = (Inr (), w')"
    using pg_live.Logout_succeeds [of demo_pg_service id "demo_world demo_pg"] demo_pg_sound by auto
  have "a_toks (pg_view (db (demo_world demo_pg))) 12 = Some (demo_token 12 1 ''new'' None None)" using demo_toks by simp
  then show ?thesis using pg_logout_ends_session [OF _ _ run] demo_pg_inv demo_linked run by fastforce
qed

text \<open>
  C10. A user can revoke only sessions of their own: \<^verbatim>\<open>RevokeSession\<close> either changes nothing or
  revokes exactly the named token, and then that token was an active one of that user; it
  reports success only in that case.
\<close>

theorem pg_revoke_own_session:
  assumes "pg_inv ci (db w)" "RevokeSession (pg_service ci h t d) userID sessionID w = (r, w')"
  shows "pg_view (db w') = pg_view (db w) \<and> isl r \<or>
    (\<exists>tok now. a_toks (pg_view (db w)) sessionID = Some tok \<and> t_UserID tok = userID \<and>
       Active tok (pg_ts (shd (pg_now (db w)))) \<and> pg_view (db w') = revoke_where (\<lambda>x. t_ID x = sessionID) now (pg_view (db w)))"
  using pg.RevokeSession_law(2,3) [OF _ assms] by (cases r) auto

theorem pg_revoke_own_session_witness:
  "pg_view (db (snd (RevokeSession demo_pg_service 2 12 (demo_world demo_pg)))) = demo_store"
proof -
  obtain r w' where run: "RevokeSession demo_pg_service 2 12 (demo_world demo_pg) = (r, w')" by fastforce
  then show ?thesis using pg_revoke_own_session [OF _ run] demo_pg_inv demo_toks(2) by auto
qed

text \<open>
  C11. The session list shows exactly the active tokens of the user, once each, the most
  recent first, and marks the caller's own session and no other as the current one.
\<close>

theorem pg_list_sessions:
  assumes "pg_inv ci (db w)" "ListSessions (pg_service ci h t d) userID current w = (Inr l, w')"
  shows "pg_view (db w') = pg_view (db w) \<and> distinct (map si_ID l) \<and> sorted (map (\<lambda>x. - si_IssuedAt x) l) \<and>
    si_ID ` set l = {i. \<exists>tok. a_toks (pg_view (db w)) i = Some tok \<and> t_UserID tok = userID \<and>
      Active tok (pg_ts (shd (pg_now (db w))))} \<and>
    (\<forall>si \<in> set l. si_Current si \<longleftrightarrow> current = Some (si_ID si))"
  using pg.ListSessions_law [OF _ assms] by simp

theorem pg_list_sessions_witness:
  "\<exists>l w'. ListSessions demo_pg_service 1 (Some 12) (demo_world demo_pg) = (Inr l, w') \<and> si_ID ` set l = {12}"
proof -
  obtain r w' where ls: "st_ListUserSessions (Pg_Store id) 1 (demo_world demo_pg) = (r, w')" by fastforce
  then obtain l where run: "ListSessions demo_pg_service 1 (Some 12) (demo_world demo_pg) = (Inr l, w')"
    using pg_live.ListUserSessions_total [OF _ ls] demo_pg_sound by (cases r) (auto simp: ListSessions_def)
  have now: "pg_ts (shd (pg_now demo_pg)) = 9000" by (simp add: demo_pg_def pg_ts_def)
  have act: "a_toks demo_store i = Some tok \<Longrightarrow> t_UserID tok = 1 \<and> Active tok 9000 \<longleftrightarrow> i = 12" for i tok
    by (elim demo_tok_cases) (auto simp: Active_def)
  have "{i. \<exists>tok. a_toks demo_store i = Some tok \<and> t_UserID tok = 1 \<and> Active tok 9000} = {12}"
    using act demo_toks(2) by auto
  then have "si_ID ` set l = {12}" using pg_list_sessions [OF _ run] demo_pg_inv now by simp
  with run show ?thesis by blast
qed

section \<open>Passwords\<close>

text \<open>
  C12. A password change that reports success had the right current password. Afterwards the
  new password verifies and need not be changed again, and every other session of the user is
  revoked. Nothing else changes: the credentials of all other users, all accounts, the kept
  session and the sessions of other users are as before, no session is added or removed, and a
  session that was already revoked keeps its date.
\<close>

theorem pg_change_password:
  assumes "pg_inv ci (db w)" "argon2_ok E" "sane_hasher h"
    and "ChangePassword E (pg_service ci h t d) userID current newPassword keep w = (Inr (), w')"
  shows "(\<exists>cred b. a_creds (pg_view (db w)) userID = Some cred \<and> Verify E h current (c_PasswordHash cred) = Inr b) \<and>
    (\<exists>cred. a_creds (pg_view (db w')) userID = Some cred \<and> \<not> c_MustChange cred \<and>
       Verify E h newPassword (c_PasswordHash cred) = Inr False) \<and>
    (\<forall>i tok. a_toks (pg_view (db w')) i = Some tok \<longrightarrow> t_UserID tok = userID \<longrightarrow> keep \<noteq> Some i \<longrightarrow>
       t_RevokedAt tok \<noteq> None) \<and>
    (\<forall>i tok. a_toks (pg_view (db w)) i = Some tok \<longrightarrow> t_UserID tok \<noteq> userID \<or> keep = Some i \<longrightarrow>
       a_toks (pg_view (db w')) i = Some tok) \<and>
    a_users (pg_view (db w')) = a_users (pg_view (db w)) \<and>
    (\<forall>i. i \<noteq> userID \<longrightarrow> a_creds (pg_view (db w')) i = a_creds (pg_view (db w)) i) \<and>
    (\<exists>ts. \<forall>i. a_toks (pg_view (db w')) i = map_option
       (\<lambda>tok. if t_UserID tok = userID \<and> keep \<noteq> Some i \<and> t_RevokedAt tok = None
          then tok\<lparr>t_RevokedAt := Some ts\<rparr> else tok) (a_toks (pg_view (db w)) i))"
proof -
  obtain cred b phc now now' where eff: "a_creds (pg_view (db w)) userID = Some cred"
      "Verify E h current (c_PasswordHash cred) = Inr b" "hash_of E h newPassword phc"
      "pg_view (db w') = revoke_where (\<lambda>x. t_UserID x = userID \<and> \<not> spared keep (t_ID x)) now'
         (put_cred userID phc False now (pg_view (db w)))"
    using pg.ChangePassword_ok [OF _ assms(1,4)] by auto
  have id: "t_ID x = i" if "a_toks (pg_view (db w)) i = Some x" for i x
    using keyed_tok_ID [OF pg.keyed [OF assms(1)] that] .
  have new: "\<exists>cred. a_creds (pg_view (db w')) userID = Some cred \<and> \<not> c_MustChange cred \<and>
       Verify E h newPassword (c_PasswordHash cred) = Inr False"
    using hash_of_Verify [OF assms(2,3) eff(3), of h] by (simp add: eff(4) store_simps put_cred_def)
  have "\<forall>i tok. a_toks (pg_view (db w')) i = Some tok \<longrightarrow> t_UserID tok = userID \<longrightarrow> keep \<noteq> Some i \<longrightarrow>
       t_RevokedAt tok \<noteq> None"
    using id by (auto simp: eff(4) store_simps spared_def)
  moreover have "\<forall>i tok. a_toks (pg_view (db w)) i = Some tok \<longrightarrow> t_UserID tok \<noteq> userID \<or> keep = Some i \<longrightarrow>
       a_toks (pg_view (db w')) i = Some tok"
    using id by (auto simp: eff(4) store_simps spared_def revoke_if_def)
  moreover have "a_toks (pg_view (db w')) i = map_option
       (\<lambda>tok. if t_UserID tok = userID \<and> keep \<noteq> Some i \<and> t_RevokedAt tok = None
          then tok\<lparr>t_RevokedAt := Some now'\<rparr> else tok) (a_toks (pg_view (db w)) i)" for i
    using id [of i] by (cases "a_toks (pg_view (db w)) i") (simp_all add: eff(4) store_simps spared_def revoke_if_def revoke_at_def)
  moreover have "\<forall>i. i \<noteq> userID \<longrightarrow> a_creds (pg_view (db w')) i = a_creds (pg_view (db w)) i"
    by (simp add: eff(4) store_simps put_cred_def)
  moreover have "a_users (pg_view (db w')) = a_users (pg_view (db w))" by (simp add: eff(4) store_simps)
  ultimately show ?thesis using eff(1,2) new by blast
qed

theorem pg_change_password_witness:
  "\<exists>w' tok. ChangePassword toy_ext demo_pg_service 1 ''correct horse'' ''tr0ub4dor'' None (demo_world demo_pg) = (Inr (), w') \<and>
     a_toks (pg_view (db w')) 14 = Some tok \<and> t_RevokedAt tok = None \<and>
     (\<exists>cred. a_creds (pg_view (db w')) 1 = Some cred \<and> Verify toy_ext demo_hasher ''tr0ub4dor'' (c_PasswordHash cred) = Inr False)"
proof -
  obtain w' where run: "ChangePassword toy_ext demo_pg_service 1 ''correct horse'' ''tr0ub4dor'' None (demo_world demo_pg) = (Inr (), w')"
    using pg_live.ChangePassword_succeeds [of demo_pg_service id "demo_world demo_pg" toy_ext 1 "demo_cred 1" "''correct horse''" False]
    by (auto simp: demo_pg_sound demo_linked demo_supplied toy_argon2 demo_sane demo_creds demo_verify demo_cred_def)
  have iv: "pg_inv id (db (demo_world demo_pg))" using demo_pg_inv by simp
  note ok = pg_change_password [OF iv toy_argon2 demo_sane run]
  have "a_toks (pg_view (db (demo_world demo_pg))) 14 = Some (demo_token 14 2 ''bob'' None None)" using demo_toks by simp
  with ok [THEN conjunct2, THEN conjunct2, THEN conjunct2, THEN conjunct1]
  have "a_toks (pg_view (db w')) 14 = Some (demo_token 14 2 ''bob'' None None)" by auto
  with run ok [THEN conjunct2, THEN conjunct1] show ?thesis by auto
qed

text \<open>
  C13. A password reset by an administrator gives a temporary password of sixteen characters
  of the alphabet that verifies and must be changed, and revokes every session of the user.
\<close>

theorem pg_reset_password:
  assumes "pg_inv ci (db w)" "argon2_ok E" "sane_hasher h"
    and "ResetPassword E (pg_service ci h t d) userID w = (Inr temp, w')"
  shows "length temp = 16 \<and> set temp \<subseteq> set temp_alphabet \<and> userID \<in> dom (a_users (pg_view (db w))) \<and>
    (\<exists>cred. a_creds (pg_view (db w')) userID = Some cred \<and> c_MustChange cred \<and>
       Verify E h temp (c_PasswordHash cred) = Inr False) \<and>
    (\<forall>i tok. a_toks (pg_view (db w')) i = Some tok \<longrightarrow> t_UserID tok = userID \<longrightarrow> t_RevokedAt tok \<noteq> None)"
proof -
  obtain phc now now' where eff: "length temp = 16" "set temp \<subseteq> set temp_alphabet" "userID \<in> dom (a_users (pg_view (db w)))"
      "hash_of E h temp phc"
      "pg_view (db w') = revoke_where (\<lambda>x. t_UserID x = userID) now' (put_cred userID phc True now (pg_view (db w)))"
    using pg.ResetPassword_law(2) [OF _ assms(1,4) refl] by auto
  have "\<exists>cred. a_creds (pg_view (db w')) userID = Some cred \<and> c_MustChange cred \<and>
       Verify E h temp (c_PasswordHash cred) = Inr False"
    using hash_of_Verify [OF assms(2,3) eff(4), of h] by (simp add: eff(5) store_simps put_cred_def)
  moreover have "\<forall>i tok. a_toks (pg_view (db w')) i = Some tok \<longrightarrow> t_UserID tok = userID \<longrightarrow> t_RevokedAt tok \<noteq> None"
    by (auto simp: eff(5) store_simps)
  ultimately show ?thesis using eff(1-3) by blast
qed

theorem pg_reset_password_witness:
  "\<exists>temp w'. ResetPassword toy_ext demo_pg_service 2 (demo_world demo_pg) = (Inr temp, w') \<and> length temp = 16"
proof -
  obtain temp w' where run: "ResetPassword toy_ext demo_pg_service 2 (demo_world demo_pg) = (Inr temp, w')"
    using pg_live.ResetPassword_succeeds [of demo_pg_service id "demo_world demo_pg" toy_ext 2]
    by (auto simp: demo_pg_sound demo_supplied toy_argon2 demo_sane demo_users dom_def)
  then show ?thesis using pg_reset_password [OF _ toy_argon2 demo_sane run] demo_pg_inv by auto
qed

section \<open>Accounts\<close>

text \<open>
  C14. The life of a new account, over a server that answers: creating it under a free name
  with a valid role succeeds, its temporary password logs in at once, and the session says
  that the password must be changed.
\<close>

theorem pg_created_user_logs_in:
  assumes "pg_sound ci (db w)" "supplied w" "fresh_draws fresh_token_key E w (a_toks (pg_view (db w)))"
    and "jwt_ok E" "built E t" "argon2_ok E" "sane_hasher h"
    and "\<And>i. shd (uuids w) = Some i \<Longrightarrow> a_users (pg_view (db w)) i = None"
    and "name_free ci username (pg_view (db w))" "role \<in> {RoleAdmin, RoleMember}"
  shows "\<exists>u temp w1 sess w2. Service_CreateUser E (pg_service ci h t d) username displayName role w = (Inr (u, temp), w1) \<and>
    Login E (pg_service ci h t d) username temp device w1 = (Inr sess, w2) \<and> ss_User sess = u \<and> ss_MustChange sess \<and>
    u_Role u = role"
  by (rule pg_live.created_logs_in [OF _ assms(1,2) demo_fresh_any assms(3,4) _ assms(6) _ _ assms(9,10)])
     (use assms(5,7,8) in simp_all)

theorem pg_created_user_logs_in_witness:
  "\<exists>u temp w1 sess w2. Service_CreateUser toy_ext demo_pg_service ''carol'' ''Carol'' ''member'' (demo_world demo_pg) =
     (Inr (u, temp), w1) \<and> Login toy_ext demo_pg_service ''carol'' temp [] w1 = (Inr sess, w2) \<and> ss_User sess = u \<and>
     ss_MustChange sess \<and> u_Role u = ''member''"
proof (rule pg_created_user_logs_in)
  show "name_free id ''carol'' (pg_view (db (demo_world demo_pg)))"
    by (auto simp: name_free_def demo_store_def demo_alice_fields demo_bob_fields split: if_splits)
qed (simp_all add: demo_pg_sound demo_supplied demo_fresh toy_jwt demo_built toy_argon2 demo_sane demo_users RoleMember_def)

text \<open>
  C15. Creating an account under a name that is taken, up to case, fails and changes nothing.
\<close>

theorem pg_create_user_duplicate:
  assumes "pg_inv ci (db w)" "a_users (pg_view (db w)) i = Some u" "ci (u_Username u) = ci username"
    and "Service_CreateUser E (pg_service ci h t d) username displayName role w = (r, w')"
  shows "isl r \<and> pg_view (db w') = pg_view (db w)"
  using pg.Service_CreateUser_taken [OF _ assms(1) _ assms(2,3,4)] by simp

theorem pg_create_user_duplicate_witness:
  "pg_view (db (snd (Service_CreateUser toy_ext demo_pg_service ''alice'' ''A'' ''admin'' (demo_world demo_pg)))) = demo_store"
proof -
  obtain r w' where run: "Service_CreateUser toy_ext demo_pg_service ''alice'' ''A'' ''admin'' (demo_world demo_pg) = (r, w')"
    by fastforce
  have "a_users (pg_view (db (demo_world demo_pg))) 1 = Some demo_alice" using demo_users by simp
  with pg_create_user_duplicate [OF _ this _ run] run show ?thesis by (simp add: demo_pg_inv demo_alice_fields)
qed

text \<open>
  C16. Disabling an account: its status becomes disabled, all its sessions are over for good,
  and it cannot log in with any password.
\<close>

theorem pg_disabled_locked_out:
  assumes "pg_inv ci (db w)" "Service_UpdateUser (pg_service ci h t d) p w = (Inr u, w')"
    and "sp_Status p = Some StatusDisabled"
  shows "u_Status u = StatusDisabled \<and>
    (\<forall>i tok. a_toks (pg_view (db w')) i = Some tok \<longrightarrow> t_UserID tok = sp_ID p \<longrightarrow> dead (pg_view (db w')) i) \<and>
    isl (fst (Login E (pg_service ci h t d) (u_Username u) password device w'))"
  using pg.disabled_locked_out [OF _ assms] by simp

theorem pg_disabled_locked_out_witness:
  "\<exists>u w'. Service_UpdateUser demo_pg_service \<lparr>sp_ID = 1, sp_DisplayName = None, sp_Role = None, sp_Status = Some StatusDisabled\<rparr>
       (demo_world demo_pg) = (Inr u, w') \<and> isl (fst (Login toy_ext demo_pg_service (u_Username u) ''correct horse'' [] w'))"
proof -
  let ?p = "\<lparr>sp_ID = 1, sp_DisplayName = None, sp_Role = None, sp_Status = Some StatusDisabled\<rparr>"
  obtain u w' where run: "Service_UpdateUser demo_pg_service ?p (demo_world demo_pg) = (Inr u, w')"
    using pg_live.UpdateUser_succeeds [of demo_pg_service id "demo_world demo_pg" ?p] demo_users
    by (auto simp: demo_pg_sound)
  then show ?thesis using pg_disabled_locked_out [OF _ run] demo_pg_inv by fastforce
qed

text \<open>
  C17. The bootstrap acts only on an empty installation: with no name given, or with any user
  present, it changes nothing; on an empty store, when it reports success there is exactly
  one user, an active administrator with the given name, whose password verifies and must
  be changed.
\<close>

theorem pg_bootstrap:
  assumes "pg_inv ci (db w)" "argon2_ok E" "sane_hasher h"
    and "Bootstrap E (pg_service ci h t d) username password w = (r, w')"
  shows "(username = [] \<or> dom (a_users (pg_view (db w))) \<noteq> {} \<longrightarrow> pg_view (db w') = pg_view (db w)) \<and>
    (r = Inr () \<and> username \<noteq> [] \<and> dom (a_users (pg_view (db w))) = {} \<longrightarrow>
      (\<exists>u cred. a_users (pg_view (db w')) = [u_ID u \<mapsto> u] \<and> u_Username u = username \<and> u_Role u = RoleAdmin \<and>
         u_Status u = StatusActive \<and> a_creds (pg_view (db w')) (u_ID u) = Some cred \<and> c_MustChange cred \<and>
         Verify E h password (c_PasswordHash cred) = Inr False))"
proof (intro conjI impI)
  show "pg_view (db w') = pg_view (db w)" if "username = [] \<or> dom (a_users (pg_view (db w))) \<noteq> {}"
    using pg.Bootstrap_law(2) [OF _ assms(1) _ assms(4) that] by simp
next
  assume go: "r = Inr () \<and> username \<noteq> [] \<and> dom (a_users (pg_view (db w))) = {}"
  then obtain u phc now now' where
    u: "u = new_user \<lparr>cp_Username = username, cp_DisplayName = username, cp_Role = RoleAdmin\<rparr> (u_ID u) now"
      and eff: "hash_of E h password phc" "pg_view (db w') = put_cred (u_ID u) phc True now' (put_user u (pg_view (db w)))"
    using pg.Bootstrap_law(3) [OF _ assms(1) _ assms(4)] by auto
  have none: "a_users (pg_view (db w)) = Map.empty" using go by auto
  have uf: "u_Username u = username" "u_Role u = RoleAdmin" "u_Status u = StatusActive" using u by (metis user_fields CreateUserParams.select_convs)+
  have "Verify E h password phc = Inr False" using hash_of_Verify [OF assms(2,3) eff(1), of h] by simp
  with none uf show "\<exists>u cred. a_users (pg_view (db w')) = [u_ID u \<mapsto> u] \<and> u_Username u = username \<and> u_Role u = RoleAdmin \<and>
         u_Status u = StatusActive \<and> a_creds (pg_view (db w')) (u_ID u) = Some cred \<and> c_MustChange cred \<and>
         Verify E h password (c_PasswordHash cred) = Inr False"
    by (intro exI [of _ u]) (simp add: eff(2) store_simps put_cred_def put_user_def)
qed

theorem pg_bootstrap_witness:
  "pg_view (db (snd (Bootstrap toy_ext demo_pg_service ''root'' ''hunter2'' (demo_world demo_pg)))) = demo_store"
proof -
  have "pg_inv id (db (demo_world demo_pg))" "dom (a_users (pg_view (db (demo_world demo_pg)))) \<noteq> {}"
    using demo_pg_inv demo_users(1) by auto
  with pg_bootstrap [OF this(1) toy_argon2 demo_sane surjective_pairing] show ?thesis by auto
qed

end
