(* ===== verification/Login_Limit.thy ===== *)
theory Login_Limit
  imports Http_Routes
begin

text \<open>
  The login limiter in the running server: over any sequence of requests, the decisions of
  the limiter are those of one \<open>allow_trace\<close>, seen from outside as the login requests that are
  answered with something else than 429.
\<close>

definition login_body :: "'d Server \<Rightarrow> http_request \<Rightarrow> (string \<times> json_field) list option" where
  "login_body s r =
     (if (rq_Method r = ''CONNECT'' \<or> cleanPath (rq_Path r) = rq_Path r) \<and>
         map_option fst (find_route (sc_BasePath (srv_cfg s)) (rq_Method r) (rq_Path r)) = Some RLogin
      then (case decodeJSON [''username'', ''password''] r of Inl resp \<Rightarrow> None | Inr body \<Rightarrow> Some body)
      else None)"

definition login_keys :: "http_request \<Rightarrow> (string \<times> json_field) list \<Rightarrow> string list" where
  "login_keys r body = [''ip:'' @ clientIP r, ''user:'' @ str_field body ''username'']"

definition allow_times :: "rateLimiter \<Rightarrow> 'd world \<Rightarrow> instant \<times> instant" where
  "allow_times l w =
     (let now = shd (clock w) in (now, if now > rl_reset l then shd (stl (clock w)) else now))"

lemma allow_at_times:
  "fst (allow l keys w) = allow_at (fst (allow_times l w)) (snd (allow_times l w)) l keys"
  by (simp add: allow_def allow_times_def time_now_def Let_def)

lemma distinct_login_keys: "distinct (login_keys r body)"
  by (simp add: login_keys_def)

definition refused_429 :: "outcome \<Rightarrow> bool" where
  "refused_429 out \<longleftrightarrow> (case out of Reply resp \<Rightarrow> rs_Status resp = 429 | _ \<Rightarrow> False)"

section \<open>One request\<close>

lemma writeProblem_status [simp]: "rs_Status (writeProblem hs st t d) = st" "rs_Status (writeJSON hs st j) = st"
  by (simp_all add: writeProblem_def writeProblem_detail_def writeJSON_def)

lemma refused_reply_err [simp]: "refused_429 (reply_err e resp) \<longleftrightarrow> \<not> abrupt e \<and> rs_Status resp = 429"
  by (simp add: refused_429_def reply_err_def)

lemma refused_no_body [simp]: "refused_429 (no_body r out) = refused_429 out"
  by (auto simp: refused_429_def no_body_def split: outcome.splits)

lemma handleLogin_decides:
  assumes "decodeJSON [''username'', ''password''] r = Inr body"
  shows "sv_login (snd (handleLogin E s r st)) = snd (fst (allow (sv_login st) (login_keys r body) (sv_world st)))"
    "refused_429 (fst (handleLogin E s r st)) \<longleftrightarrow> \<not> fst (fst (allow (sv_login st) (login_keys r body) (sv_world st)))"
proof -
  obtain ok l w1 where al: "allow (sv_login st) (login_keys r body) (sv_world st) = ((ok, l), w1)" by (metis prod.collapse)
  obtain r2 w2 where lg: "Login E (srv_svc s) (str_field body ''username'') (str_field body ''password'') (UserAgent r) w1 = (r2, w2)"
    by fastforce
  note al' = al [unfolded login_keys_def]
  show "sv_login (snd (handleLogin E s r st)) = snd (fst (allow (sv_login st) (login_keys r body) (sv_world st)))"
    using assms al' lg al by (auto simp: handleLogin_def split: sum.splits)
  show "refused_429 (fst (handleLogin E s r st)) \<longleftrightarrow> \<not> fst (fst (allow (sv_login st) (login_keys r body) (sv_world st)))"
    using assms al' lg al
    by (cases ok; cases r2) (auto simp: handleLogin_def refused_429_def [of "Reply _"])
qed

lemma handleLogin_undecoded:
  "decodeJSON [''username'', ''password''] r = Inl resp \<Longrightarrow> sv_login (snd (handleLogin E s r st)) = sv_login st"
  by (simp add: handleLogin_def)

lemma currentUser_login: "currentUser E s claims st = (x, st1) \<Longrightarrow> sv_login st1 = sv_login st"
  by (auto simp: currentUser_def split: option.splits prod.splits sum.splits)

lemma requireAuth_login:
  "(\<And>claims st1. sv_login (snd (nxt claims r st1)) = sv_login st1) \<Longrightarrow> sv_login (snd (requireAuth E s nxt r st)) = sv_login st"
  by (auto simp: requireAuth_def split: option.splits prod.splits sum.splits)

lemma requireAdmin_login:
  "(\<And>st1. sv_login (snd (nxt r st1)) = sv_login st1) \<Longrightarrow> sv_login (snd (requireAdmin E s nxt r st)) = sv_login st"
  unfolding requireAdmin_def by (rule requireAuth_login) simp

lemma me_handlers_login:
  "sv_login (snd (handleMe E s claims r st)) = sv_login st"
  "sv_login (snd (handleUpdateMe E s claims r st)) = sv_login st"
  "sv_login (snd (handleChangePassword E s claims r st)) = sv_login st"
  "sv_login (snd (handleListSessions E s claims r st)) = sv_login st"
  "sv_login (snd (handleRevokeSession E s pid claims r st)) = sv_login st"
  by (auto simp: handleMe_def handleUpdateMe_def handleChangePassword_def handleListSessions_def handleRevokeSession_def
      split: prod.splits sum.splits option.splits dest: currentUser_login)

lemma other_handlers_login:
  "sv_login (snd (handleJWKS s r st)) = sv_login st" "sv_login (snd (handleRefresh E s r st)) = sv_login st"
  "sv_login (snd (handleLogout E s r st)) = sv_login st" "sv_login (snd (handleCreateUser E s r st)) = sv_login st"
  "sv_login (snd (handleListUsers E s r st)) = sv_login st" "sv_login (snd (handleUpdateUser E s pid r st)) = sv_login st"
  "sv_login (snd (handleResetPassword E s pid r st)) = sv_login st"
  by (auto simp: handleJWKS_def handleRefresh_def handleLogout_def handleCreateUser_def handleListUsers_def
      handleUpdateUser_def handleResetPassword_def Let_def split: prod.splits sum.splits option.splits)

lemma handler_login_kept:
  assumes "rt \<noteq> RLogin"
  shows "sv_login (snd (handler_of E s rt vs r st)) = sv_login st"
  using assms
  by (cases rt) (simp_all add: handler_of_def me_handlers_login other_handlers_login requireAuth_login requireAdmin_login)

lemma ServeHTTP_login:
  assumes "login_body s r = Some body"
  shows "\<exists>out st1. handleLogin E s r st = (out, st1) \<and> ServeHTTP E s r st = (no_body r out, st1) \<and>
    decodeJSON [''username'', ''password''] r = Inr body"
proof -
  obtain out st1 where h: "handleLogin E s r st = (out, st1)" by fastforce
  from assms obtain vs where "rq_Method r = ''CONNECT'' \<or> cleanPath (rq_Path r) = rq_Path r"
    "find_route (sc_BasePath (srv_cfg s)) (rq_Method r) (rq_Path r) = Some (RLogin, vs)"
    "decodeJSON [''username'', ''password''] r = Inr body"
    by (auto simp: login_body_def split: if_splits sum.splits)
  with h show ?thesis by (auto simp: ServeHTTP_def handler_of_def Let_def)
qed

lemma ServeHTTP_no_login:
  assumes "login_body s r = None"
  shows "sv_login (snd (ServeHTTP E s r st)) = sv_login st"
proof (cases "rq_Method r = ''CONNECT'' \<or> cleanPath (rq_Path r) = rq_Path r")
  case False
  then show ?thesis by (simp add: ServeHTTP_def)
next
  case clean: True
  show ?thesis
  proof (cases "find_route (sc_BasePath (srv_cfg s)) (rq_Method r) (rq_Path r)")
    case None
    with clean show ?thesis by (auto simp: ServeHTTP_def Let_def)
  next
    case (Some p)
    then obtain rt vs where p: "find_route (sc_BasePath (srv_cfg s)) (rq_Method r) (rq_Path r) = Some (rt, vs)" by fastforce
    have run: "snd (ServeHTTP E s r st) = snd (handler_of E s rt vs r st)"
      by (simp add: ServeHTTP_routed [OF clean p])
    show ?thesis
    proof (cases "rt = RLogin")
      case True
      then have "\<exists>resp. decodeJSON [''username'', ''password''] r = Inl resp"
        using assms clean p by (auto simp: login_body_def split: sum.splits)
      with True run handleLogin_undecoded [of r _ E s st] show ?thesis by (auto simp: handler_of_def)
    next
      case False
      with run handler_login_kept show ?thesis by metis
    qed
  qed
qed

section \<open>Sequences\<close>

fun login_calls :: "'x ext_scheme \<Rightarrow> 'd Server \<Rightarrow> http_request list \<Rightarrow> 'd serving \<Rightarrow> call list" where
  "login_calls E s [] st = []"
| "login_calls E s (r # rs) st =
     (case login_body s r of
        None \<Rightarrow> []
      | Some body \<Rightarrow> [(fst (allow_times (sv_login st) (sv_world st)), snd (allow_times (sv_login st) (sv_world st)), login_keys r body)])
     @ login_calls E s rs (snd (ServeHTTP E s r st))"

text \<open>The login requests with the time they were handled, their keys, and whether they got past the limiter.\<close>

fun login_trace :: "'x ext_scheme \<Rightarrow> 'd Server \<Rightarrow> http_request list \<Rightarrow> 'd serving \<Rightarrow> (instant \<times> string list \<times> bool) list" where
  "login_trace E s [] st = []"
| "login_trace E s (r # rs) st =
     (case login_body s r of
        None \<Rightarrow> []
      | Some body \<Rightarrow> [(shd (clock (sv_world st)), login_keys r body, \<not> refused_429 (fst (ServeHTTP E s r st)))])
     @ login_trace E s rs (snd (ServeHTTP E s r st))"

lemma login_trace_allow: "login_trace E s rs st = allow_trace (sv_login st) (login_calls E s rs st)"
proof (induction rs arbitrary: st)
  case (Cons r rs)
  show ?case
  proof (cases "login_body s r")
    case None
    then show ?thesis using Cons ServeHTTP_no_login [OF None, of E st] by simp
  next
    case (Some body)
    obtain out st1 where h: "handleLogin E s r st = (out, st1)" "ServeHTTP E s r st = (no_body r out, st1)"
        "decodeJSON [''username'', ''password''] r = Inr body"
      using ServeHTTP_login [OF Some] by blast
    let ?t = "allow_times (sv_login st) (sv_world st)"
    have d: "sv_login st1 = snd (allow_at (fst ?t) (snd ?t) (sv_login st) (login_keys r body))"
      "refused_429 out \<longleftrightarrow> \<not> fst (allow_at (fst ?t) (snd ?t) (sv_login st) (login_keys r body))"
      using handleLogin_decides [OF h(3), of E s st] h(1) by (simp_all add: allow_at_times)
    have "fst ?t = shd (clock (sv_world st))" by (simp add: allow_times_def Let_def)
    with Some h(2) d Cons [of st1] show ?thesis by simp
  qed
qed simp

end
