(* ===== verification/Http_Theorems.thy ===== *)
theory Http_Theorems
  imports Account_Theorems Login_Limit
begin

text \<open>
  The REST API over the PostgreSQL store: cookies, request bodies, authentication and
  authorisation, the login limiter, and the invariants of the tables under arbitrary sequences of requests.
\<close>

definition demo_config :: server_config where
  "demo_config = \<lparr>sc_BasePath = ''/api/account/'', sc_CookieSecure = True, sc_RefreshTTL = 2592000 * Second\<rparr>"

definition demo_server :: "Pg Server" where
  "demo_server = fst (New demo_pg_service demo_issuer demo_config (demo_world demo_pg))"

definition demo_serving :: "Pg serving" where
  "demo_serving = snd (New demo_pg_service demo_issuer demo_config (demo_world demo_pg))"

definition demo_request :: "string \<Rightarrow> string \<Rightarrow> (string \<times> string) list \<Rightarrow> string \<Rightarrow> http_request" where
  "demo_request m p hs b =
     \<lparr>rq_Method = m, rq_Path = p, rq_Header = hs, rq_RemoteAddr = ''192.0.2.1:4711'', rq_Body = b\<rparr>"

lemma demo_server_New: "New demo_pg_service demo_issuer demo_config (demo_world demo_pg) = (demo_server, demo_serving)"
  by (simp add: demo_server_def demo_serving_def)

lemma New_fields:
  assumes "New svc t cfg w = (s, st)"
  shows "srv_svc s = svc" "srv_tokens s = t" "db (sv_world st) = db w" "entropy (sv_world st) = entropy w"
    "uuids (sv_world st) = uuids w" "sc_BasePath (srv_cfg s) = trim_suffix (sc_BasePath cfg) ''/''"
  using assms by (auto simp: New_def newRateLimiter_def time_now_def)

lemmas demo_server_fields [simp] = New_fields [OF demo_server_New]

section \<open>The refresh cookie\<close>

text \<open>
  C22. The cookie round trip: a new refresh token set as the refresh cookie, and sent back by
  the browser as the pair it was given, is read back unchanged, whatever the path and the
  lifetime of the cookie and whatever other headers the request carries.
\<close>

theorem refresh_cookie_round_trip:
  assumes "NewRefreshToken E w = (Inr (token, h), w')" "setRefreshCookie cfg token = [(''Set-Cookie'', v)]"
    and "map snd (filter (\<lambda>h. fst h = ''Cookie'') (rq_Header r)) = [cookie_pair v]"
  shows "readRefreshCookie r = token"
  using set_cookie_pair [OF NewRefreshToken_chars(1) [OF assms(1)], of cfg] token_read_back [OF NewRefreshToken_chars [OF assms(1)]]
    assms(2,3) by (simp add: readRefreshCookie_def)

theorem refresh_cookie_round_trip_witness:
  "\<exists>token h w' v. NewRefreshToken toy_ext (demo_world demo_pg) = (Inr (token, h), w') \<and>
     setRefreshCookie demo_config token = [(''Set-Cookie'', v)] \<and>
     readRefreshCookie (demo_request ''POST'' ''/'' [(''Cookie'', cookie_pair v)] []) = token"
proof -
  obtain token h w' where new: "NewRefreshToken toy_ext (demo_world demo_pg) = (Inr (token, h), w')"
    by (auto simp: NewRefreshToken_def rand_read_def Let_def)
  obtain v where v: "setRefreshCookie demo_config token = [(''Set-Cookie'', v)]" by (simp add: setRefreshCookie_def)
  have "readRefreshCookie (demo_request ''POST'' ''/'' [(''Cookie'', cookie_pair v)] []) = token"
    by (rule refresh_cookie_round_trip [OF new v]) (simp add: demo_request_def)
  with new v show ?thesis by blast
qed

text \<open>
  C23. The lifetime the refresh cookie announces is the configured one: for a whole number of
  seconds, positive and below 2^53, the rendered attribute is that number, although it passes
  through a 64-bit float; the cookie is always marked HttpOnly and SameSite=Strict, and
  Secure exactly if so configured.
\<close>

theorem refresh_cookie_attributes:
  assumes "sc_RefreshTTL cfg = n * Second" "0 < n" "n < 2 ^ 53" "token_chars token"
  shows "setRefreshCookie cfg token = [(''Set-Cookie'', refreshCookie @ ''='' @ token @ ''; Path='' @
    filter validCookiePathByte (cookiePath cfg) @ ''; Max-Age='' @ show_nat (nat n) @ ''; HttpOnly'' @
    (if sc_CookieSecure cfg then ''; Secure'' else []) @ ''; SameSite=Strict'')]"
proof -
  have tok: "validCookieValueByte c \<and> c \<noteq> CHR '' '' \<and> c \<noteq> CHR '',''" if "c \<in> set token" for c
    using that assms(4) url_char_ok [of c] by (auto simp: token_chars_def)
  then have id: "sanitizeCookieValue token = token" by (auto simp: sanitizeCookieValue_def Let_def filter_id_conv)
  have "int_Seconds (sc_RefreshTTL cfg) = n" using assms int_Seconds_whole [of n] by simp
  with assms(2) show ?thesis by (simp add: setRefreshCookie_def Cookie_String_def id cookiePath_def)
qed

theorem refresh_cookie_attributes_witness:
  "setRefreshCookie demo_config ''tok'' = [(''Set-Cookie'', ''ccc_refresh=tok; Path=/api/account//v1; Max-Age=2592000; HttpOnly; Secure; SameSite=Strict'')]"
proof -
  have tok: "token_chars ''tok''" by (simp add: token_chars_def) code_simp
  have path: "filter validCookiePathByte (cookiePath demo_config) = ''/api/account//v1''" by code_simp
  have num: "show_nat (nat 2592000) = ''2592000''"
    by (simp add: show_nat.simps digit_char_def) code_simp
  have name: "refreshCookie = ''ccc_refresh''" by (rule refreshCookie_def)
  from refresh_cookie_attributes [of demo_config 2592000 "''tok''"] tok show ?thesis
    by (simp only: path num name) (simp add: demo_config_def)
qed

section \<open>Request bodies\<close>


definition post_login :: "string \<Rightarrow> http_request" where
  "post_login b = demo_request ''POST'' ''/api/account/v1/auth/login'' [] b"

lemma post_login_fields [simp]:
  "rq_Method (post_login b) = ''POST''" "rq_Path (post_login b) = ''/api/account/v1/auth/login''" "rq_Body (post_login b) = b"
  by (simp_all add: post_login_def demo_request_def)













section \<open>Requests and the tables\<close>

text \<open>
  C24. Over the PostgreSQL store, whatever HTTP requests arrive in whatever order, well-formed
  or not, authenticated or not, and whatever statements fail, the constraints of the schema
  and the links between the tables keep holding.
\<close>

theorem pg_http_invariant:
  assumes "New (pg_service ci h t d) t cfg w = (s, st)" "pg_inv ci (db w)" "linked (pg_view (db w))"
  shows "pg_inv ci (db (sv_world (serve_http E s rs st))) \<and> linked (pg_view (db (sv_world (serve_http E s rs st))))"
  using pg.http_history [of s ci st E rs] New_fields [OF assms(1)] assms(2,3)
  by (simp add: safe_def http_draws_ok_True)

theorem pg_http_invariant_witness:
  "pg_inv id (db (sv_world (serve_http toy_ext demo_server
     [demo_request ''POST'' ''/api/account/v1/auth/login'' [] [], demo_request ''GET'' ''/x'' [] []] demo_serving)))"
  by (rule pg_http_invariant [OF demo_server_New, THEN conjunct1]) (simp_all add: demo_pg_inv demo_linked)

text \<open>
  C25. Only administrators manage users: if a request changes who exists, or anyone's name,
  role or status, then it carried a bearer token that verifies with the service's key and
  grants the admin role.
\<close>

theorem pg_only_admins_manage:
  assumes "s_store (srv_svc s) = Pg_Store ci" "pg_inv ci (db (sv_world st))" "linked (pg_view (db (sv_world st)))"
    and "ServeHTTP E s r st = (out, st')" "standing (pg_view (db (sv_world st'))) \<noteq> standing (pg_view (db (sv_world st)))"
  shows "\<exists>token claims w1. Header_Get r ''Authorization'' = ''Bearer '' @ token \<and>
    TokenIssuer_Verify E (srv_tokens s) token (sv_world st) = (Inr claims, w1) \<and> ''admin'' \<in> set (cl_Roles claims)"
proof -
  have "ready pg_view (pg_inv ci) (\<lambda>_ _. True) (\<lambda>_ _ _. True) E (sv_world st)"
    using assms(2,3) by (simp add: ready_def demo_fresh_any)
  with pg.ServeHTTP_law(2) [OF assms(1), of E st r] assms(4,5) have "admin_bearer E s r (sv_world st)"
    by (auto simp: modest_def)
  then show ?thesis
    by (auto simp: admin_bearer_def bearer_def cut_prefix_Some split: option.splits if_splits sum.splits)
       (metis prod.collapse)
qed

text \<open>In the example, the administrator's token lets a request create a user.\<close>

lemma demo_admin_creates:
  "\<exists>r out st'. ServeHTTP toy_ext demo_server r demo_serving = (out, st') \<and>
     standing (pg_view (db (sv_world st'))) \<noteq> standing (pg_view (db (sv_world demo_serving)))"
proof -
  obtain tok where mint: "Mint toy_ext demo_issuer 1 ''alice'' [''admin''] 9000 (demo_world demo_pg) =
      (Inr tok, (demo_world demo_pg)\<lparr>uuids := stl (uuids (demo_world demo_pg))\<rparr>)"
    using Mint_succeeds [OF toy_jwt demo_built demo_supplied [of demo_pg]] by blast
  define body where "body = [(''username'', ''carol''), (''display_name'', ''Carol''), (''role'', ''member'')]"
  define r where "r = demo_request ''POST'' ''/api/account/v1/users'' [(''Authorization'', ''Bearer '' @ tok)] (render_object body)"
  have clk: "shd (clock (sv_world demo_serving)) = 9000"
    by (simp add: demo_serving_def New_def newRateLimiter_def time_now_def demo_world_def)
  have time: "shd (clock (sv_world demo_serving)) < (9000 + ti_ttl demo_issuer) div Second * Second"
    by (simp add: clk demo_issuer_def DefaultAccessTokenTTL_def duration_units)
  have "list_all is_ascii [''admin'']" by code_simp
  from minted_Verify [OF toy_jwt demo_issuer_built Mint_minted [OF mint] time this] obtain c where
    c: "fst (TokenIssuer_Verify toy_ext demo_issuer tok (sv_world demo_serving)) = Inr c" "cl_Roles c = [''admin'']" by auto
  have "ParseWithClaims toy_ext pub po n [] \<noteq> Inr c" for pub po n by (simp add: toy_ext_def toy_parse_def)
  then have tok_ne: "tok \<noteq> []" using c(1) by (auto simp: TokenIssuer_Verify_def time_now_def split: sum.splits)
  have adm: "admin_bearer toy_ext demo_server r (sv_world demo_serving)"
    using c tok_ne by (auto simp: admin_bearer_def bearer_def r_def demo_request_def Header_Get_def)
  have up: "pg_sound id (db (sv_world demo_serving))" using demo_pg_sound by simp
  obtain w' where w': "requireAdmin toy_ext demo_server (handleCreateUser toy_ext demo_server) r demo_serving =
      handleCreateUser toy_ext demo_server r (demo_serving\<lparr>sv_world := w'\<rparr>)" "quiet pg_view (pg_sound id) (sv_world demo_serving) w'"
    using requireAdmin_passed [where view = pg_view and iv = "pg_sound id" and nxt = "handleCreateUser toy_ext demo_server", OF adm up] by blast
  have dec: "decodeJSON [''username'', ''display_name'', ''role''] r = Inr (map (\<lambda>(k, v). (k, FStr v)) body)"
    using decode_body_plain [of body "[''username'', ''display_name'', ''role'']"]
    by (simp add: decodeJSON_def r_def demo_request_def body_def plain_def render_object_def quoted_def maxBody_def)
  have pre: "pg_sound id (db w')" "supplied w'" "shd (uuids w') = Some 99" "pg_view (db w') = demo_store"
    using w'(2) by (auto simp: quiet_def supplied_def)
  have free: "name_free id ''carol'' demo_store"
    by (auto simp: name_free_def demo_store_def demo_alice_fields demo_bob_fields split: if_splits)
  obtain u temp w2 where cu: "Service_CreateUser toy_ext demo_pg_service ''carol'' ''Carol'' ''member'' w' = (Inr (u, temp), w2)"
    using pg_live.CreateUser_succeeds [of demo_pg_service id w' toy_ext 99 "''carol''" "''member''" "''Carol''"] pre free
    by (auto simp: toy_argon2 demo_sane demo_users RoleMember_def)
  obtain phc now where eff: "a_users demo_store (u_ID u) = None" "pg_view (db w2) = put_cred (u_ID u) phc True now (put_user u demo_store)"
    using pg_live.Service_CreateUser_law(2) [of demo_pg_service id w' toy_ext "''carol''" "''Carol''" "''member''"] pre cu by auto
  have run: "snd (handleCreateUser toy_ext demo_server r (demo_serving\<lparr>sv_world := w'\<rparr>)) = demo_serving\<lparr>sv_world := w2\<rparr>"
    using dec cu by (simp add: handleCreateUser_def body_def str_field_def validRole_def RoleMember_def Let_def)
  have base: "trim_suffix (sc_BasePath demo_config) ''/'' = ''/api/account''" by code_simp
  have route: "find_route ''/api/account'' ''POST'' ''/api/account/v1/users'' = Some (RCreateUser, [])" by code_simp
  have clean: "cleanPath ''/api/account/v1/users'' = ''/api/account/v1/users''" by code_simp
  have "ServeHTTP toy_ext demo_server r demo_serving = (no_body r (fst (handler_of toy_ext demo_server RCreateUser [] r demo_serving)),
      snd (handler_of toy_ext demo_server RCreateUser [] r demo_serving))"
    by (rule ServeHTTP_routed) (simp_all add: r_def demo_request_def clean base route)
  then have "snd (ServeHTTP toy_ext demo_server r demo_serving) = demo_serving\<lparr>sv_world := w2\<rparr>"
    using w'(1) run by (simp add: handler_of_def)
  moreover have "standing (pg_view (db w2)) (u_ID u) \<noteq> standing demo_store (u_ID u)"
    by (simp add: eff standing_def store_simps)
  ultimately have "standing (pg_view (db (sv_world (snd (ServeHTTP toy_ext demo_server r demo_serving))))) \<noteq>
      standing (pg_view (db (sv_world demo_serving)))" by auto
  then show ?thesis by (metis prod.collapse)
qed

theorem pg_only_admins_manage_witness:
  "\<exists>r token claims. Header_Get r ''Authorization'' = ''Bearer '' @ token \<and>
     fst (TokenIssuer_Verify toy_ext demo_issuer token (sv_world demo_serving)) = Inr claims \<and> ''admin'' \<in> set (cl_Roles claims)"
proof -
  obtain r out st' where run: "ServeHTTP toy_ext demo_server r demo_serving = (out, st')"
      "standing (pg_view (db (sv_world st'))) \<noteq> standing (pg_view (db (sv_world demo_serving)))"
    using demo_admin_creates by blast
  have "s_store (srv_svc demo_server) = Pg_Store id" "pg_inv id (db (sv_world demo_serving))"
    "linked (pg_view (db (sv_world demo_serving)))" using demo_pg_inv demo_linked by simp_all
  from pg_only_admins_manage [OF this run] show ?thesis by fastforce
qed

text \<open>
  C26. Protected routes answer 401 to a request without a valid bearer token, and change
  nothing: this holds for every route but the key set, login, refresh and logout.
\<close>

theorem pg_unauthenticated:
  assumes "pg_inv ci (db (sv_world st))" "bearer E s r (sv_world st) = None" "cleanPath (rq_Path r) = rq_Path r"
    and "find_route (sc_BasePath (srv_cfg s)) (rq_Method r) (rq_Path r) = Some (rt, vs)"
    and "rt \<notin> {RJWKS, RLogin, RRefresh, RLogout}"
  shows "\<exists>resp st'. ServeHTTP E s r st = (Reply resp, st') \<and> rs_Status resp = 401 \<and>
    pg_view (db (sv_world st')) = pg_view (db (sv_world st))"
proof -
  have auth: "\<exists>title w'. requireAuth E s nxt r st = (Reply (writeProblem [] 401 title []), st\<lparr>sv_world := w'\<rparr>) \<and>
      pg_view (db w') = pg_view (db (sv_world st))" for nxt
    using requireAuth_None [where iv = "pg_inv ci" and view = pg_view and nxt = nxt, OF assms(2,1)]
    by (auto simp: quiet_def)
  have admin: "\<exists>title w'. requireAdmin E s nxt r st = (Reply (writeProblem [] 401 title []), st\<lparr>sv_world := w'\<rparr>) \<and>
      pg_view (db w') = pg_view (db (sv_world st))" for nxt
    unfolding requireAdmin_def by (rule auth)
  have "\<exists>title w'. handler_of E s rt vs r st = (Reply (writeProblem [] 401 title []), st\<lparr>sv_world := w'\<rparr>) \<and>
      pg_view (db w') = pg_view (db (sv_world st))"
    using assms(5) by (cases rt) (simp_all add: handler_of_def auth admin)
  then obtain title w' where h: "handler_of E s rt vs r st = (Reply (writeProblem [] 401 title []), st\<lparr>sv_world := w'\<rparr>)"
    "pg_view (db w') = pg_view (db (sv_world st))" by blast
  then show ?thesis using assms(3,4) by (auto simp: ServeHTTP_def Let_def no_body_def)
qed

theorem pg_unauthenticated_witness:
  "\<exists>resp st'. ServeHTTP toy_ext demo_server (demo_request ''GET'' ''/api/account/v1/users'' [] []) demo_serving = (Reply resp, st') \<and>
     rs_Status resp = 401 \<and> pg_view (db (sv_world st')) = demo_store"
proof -
  let ?r = "demo_request ''GET'' ''/api/account/v1/users'' [] []"
  have base: "trim_suffix (sc_BasePath demo_config) ''/'' = ''/api/account''" by code_simp
  have route: "find_route ''/api/account'' ''GET'' ''/api/account/v1/users'' = Some (RListUsers, [])" by code_simp
  have clean: "cleanPath ''/api/account/v1/users'' = ''/api/account/v1/users''" by code_simp
  have "bearer toy_ext demo_server ?r (sv_world demo_serving) = None"
    by (simp add: bearer_def Header_Get_def demo_request_def)
  then have "\<exists>resp st'. ServeHTTP toy_ext demo_server ?r demo_serving = (Reply resp, st') \<and> rs_Status resp = 401 \<and>
      pg_view (db (sv_world st')) = pg_view (db (sv_world demo_serving))"
    by (rule pg_unauthenticated [of id, rotated, of _ _ _ _ RListUsers "[]"])
       (simp_all add: demo_pg_inv base route clean, simp_all add: demo_request_def route clean)
  then show ?thesis by simp
qed

text \<open>
  C27. The login limiter of the running server: whatever requests arrive, for every client
  address and every user name, at most twenty login requests in any minute get past the
  limiter to the password check, and at most ten in the first minute; every other one is
  answered with 429. The clock is assumed not to run backwards (\<open>in_order\<close>; that a call does
  not name a key twice is a part of it that always holds here).
\<close>

theorem login_attempts_bounded:
  assumes "New svc t cfg w = (s, st)" "in_order (shd (clock w)) (login_calls E s rs st)"
  shows "admitted_in k a (a + Minute) (login_trace E s rs st) \<le> 20 \<and>
    admitted_in k a (shd (clock w) + Minute) (login_trace E s rs st) \<le> 10"
proof -
  have l: "rl_limit (sv_login st) = 10" "rl_window (sv_login st) = Minute" "rl_reset (sv_login st) = shd (clock w) + Minute"
    "rl_counts (sv_login st) = []" "under_limit (sv_login st)"
    using assms(1) by (auto simp: New_def newRateLimiter_def time_now_def under_limit_def)
  show ?thesis
    using admitted_span [OF assms(2) l(5), of "a + Minute" a k]
      admitted_before_reset [OF assms(2) l(5), of "shd (clock w) + Minute" k a] l
    by (simp add: login_trace_allow)
qed

theorem login_attempts_bounded_witness:
  "admitted_in ''user:alice'' 0 (0 + Minute) (login_trace toy_ext demo_server
     [demo_request ''POST'' ''/api/account/v1/auth/login'' [] (render_object [(''username'', ''alice'')])] demo_serving) \<le> 20"
proof (rule login_attempts_bounded [OF demo_server_New, THEN conjunct1])
  have "shd (clock (sv_world demo_serving)) = 9000" "shd (stl (clock (sv_world demo_serving))) = 9000"
    by (simp_all add: demo_serving_def New_def newRateLimiter_def time_now_def demo_world_def)
  then show "in_order (shd (clock (demo_world demo_pg))) (login_calls toy_ext demo_server
     [demo_request ''POST'' ''/api/account/v1/auth/login'' [] (render_object [(''username'', ''alice'')])] demo_serving)"
    by (simp add: allow_times_def Let_def distinct_login_keys split: option.splits)
qed

end
