(* ===== verification/Session_Flow.thy ===== *)
theory Session_Flow
  imports Http_Theorems
begin

text \<open>
  A session across requests: the cookie that a login sets opens exactly one refresh, and is
  worthless afterwards.
\<close>

section \<open>The cookie of a login\<close>

text \<open>The refresh token of a session is one that \<^verbatim>\<open>NewRefreshToken\<close> made.\<close>

lemma openSession_token:
  assumes "openSession E s user device w = (Inr sess, w')"
  shows "token_chars (ss_RefreshToken sess) \<and> ss_RefreshToken sess \<noteq> []"
proof -
  obtain tok h w1 where new: "NewRefreshToken E w = (Inr (tok, h), w1)" and "ss_RefreshToken sess = tok"
    using assms by (auto simp: openSession_def Let_def split: prod.splits sum.splits)
  with NewRefreshToken_chars [OF new] show ?thesis by simp
qed

lemma Login_token:
  assumes "Login E s username password device w = (Inr sess, w')"
  shows "token_chars (ss_RefreshToken sess) \<and> ss_RefreshToken sess \<noteq> []"
proof -
  obtain user cred b w2 where ad: "admit E s username password device user cred b w2 = (Inr sess, w')"
    using assms by (auto simp: Login_def split: prod.splits sum.splits if_splits)
  obtain r3 w3 where rh: "(if b then rehash E s (u_ID user) password (c_MustChange cred) w2 else (Inr (), w2)) = (r3, w3)" by fastforce
  obtain r4 w4 where os: "openSession E s user device w3 = (r4, w4)" by fastforce
  obtain sess0 where "r4 = Inr sess0" "ss_RefreshToken sess = ss_RefreshToken sess0"
    using ad unfolding admit_def rh by (cases r3; cases r4) (auto simp: os split: if_splits)
  with openSession_token [of E s user device w3 sess0 w4] os show ?thesis by simp
qed

text \<open>A login that answers 200.\<close>

lemma handleLogin_200:
  assumes "handleLogin E s r st = (Reply resp, st1)" "rs_Status resp = 200"
  obtains sess w1 username password l where "Login E (srv_svc s) username password (UserAgent r) w1 = (Inr sess, sv_world st1)"
    "db w1 = db (sv_world st)" "rs_Header resp = setRefreshCookie (srv_cfg s) (ss_RefreshToken sess) @ [(''Content-Type'', ''application/json'')]"
proof -
  obtain body where body: "decodeJSON [''username'', ''password''] r = Inr body"
    using assms by (auto simp: handleLogin_def decodeJSON_def writeProblem_detail_def split: sum.splits option.splits)
  obtain ok l w1 where al: "allow (sv_login st) [''ip:'' @ clientIP r, ''user:'' @ str_field body ''username''] (sv_world st) = ((ok, l), w1)"
    by (metis prod.collapse)
  have "db w1 = db (sv_world st)" using al by (auto simp: allow_def time_now_def split: if_splits)
  with that body al assms show thesis
    by (auto simp: handleLogin_def reply_err_def writeJSON_def split: if_splits sum.splits prod.splits)
qed

lemma login_cookie_read:
  assumes "token_chars token" "token \<noteq> []" "map_of (setRefreshCookie cfg token @ hs) ''Set-Cookie'' = Some v"
    and "map snd (filter (\<lambda>h. fst h = ''Cookie'') (rq_Header r)) = [cookie_pair v]"
  shows "readRefreshCookie r = token"
  using set_cookie_pair [OF assms(1), of cfg] token_read_back [OF assms(1,2)] assms(3,4)
  by (auto simp: readRefreshCookie_def)

text \<open>The row of the new session, and its owner.\<close>

lemma login_row:
  assumes "s_store sv = Pg_Store ci" "pg_inv ci (db w)" "Login E sv username password device w = (Inr sess, w')"
  obtains row user where "a_toks (pg_view (db w')) (ss_TokenID sess) = Some row" "t_ID row = ss_TokenID sess"
    "t_TokenHash row = HashRefreshToken E (ss_RefreshToken sess)" "t_RevokedAt row = None" "t_ReplacedBy row = None"
    "a_users (pg_view (db w')) (t_UserID row) = Some user" "u_Status user = StatusActive"
proof -
  obtain user a where user: "a_users (pg_view (db w)) (u_ID user) = Some user" "u_Status user = StatusActive"
      and a: "a = pg_view (db w) \<or> (\<exists>phc mc now. a = put_cred (u_ID user) phc mc now (pg_view (db w)))"
      and gr: "granted E sv pg_ts user device sess a (pg_view (db w'))"
    using pg.Login_ok [OF assms(1,2) demo_fresh_any assms(3)] by blast
  then obtain now where view: "pg_view (db w') = put_tok (session_row E (s_refreshTTL sv) pg_ts user device now (ss_TokenID sess)
      (ss_RefreshToken sess)) a" by (auto simp: granted_def)
  have "a_users a = a_users (pg_view (db w))" using a by (auto simp: store_simps)
  with user show thesis
    by (intro that [of "session_row E (s_refreshTTL sv) pg_ts user device now (ss_TokenID sess) (ss_RefreshToken sess)" user])
       (simp_all add: view store_simps put_tok_def session_row_def)
qed

section \<open>A cookie that was used\<close>

lemma handleRefresh_dead:
  assumes "s_store (srv_svc s) = Pg_Store ci" "pg_inv ci (db (sv_world st))" "dead (pg_view (db (sv_world st))) i"
    and "a_toks (pg_view (db (sv_world st))) i = Some t" "t_TokenHash t = HashRefreshToken E (readRefreshCookie r)"
    and "handleRefresh E s r st = (Reply resp, st')"
  shows "rs_Status resp \<noteq> 200"
proof -
  obtain ok l w1 where al: "allow (sv_refresh st) [''ip:'' @ clientIP r] (sv_world st) = ((ok, l), w1)" by (metis prod.collapse)
  have w1: "db w1 = db (sv_world st)" using al by (auto simp: allow_def time_now_def split: if_splits)
  have "isl (fst (Refresh E (srv_svc s) (readRefreshCookie r) w1))"
    using pg.Refresh_dead [OF assms(1), of w1 i t E "readRefreshCookie r"] assms(2-5) w1 by simp
  then show ?thesis
    using assms(6) al by (auto simp: handleRefresh_def Let_def reply_err_def split: if_splits sum.splits prod.splits)
qed

lemma spent_forever:
  assumes "s_store (srv_svc s) = Pg_Store ci" "pg_inv ci (db (sv_world st))" "linked (pg_view (db (sv_world st)))"
    and "dead (pg_view (db (sv_world st))) i" "a_toks (pg_view (db (sv_world st))) i = Some t"
    and "t_TokenHash t = HashRefreshToken E (readRefreshCookie r)"
    and "handleRefresh E s r (serve_http E s rs st) = (Reply resp, st')"
  shows "rs_Status resp \<noteq> 200"
proof -
  have h: "safe pg_view (pg_inv ci) (sv_world st) (sv_world (serve_http E s rs st))"
    using pg.http_history [OF assms(1-3) http_draws_ok_True] by blast
  then obtain t' where "a_toks (pg_view (db (sv_world (serve_http E s rs st)))) i = Some t'" "t_TokenHash t' = t_TokenHash t"
    using arun_token [OF _ assms(5)] by (fastforce simp: safe_def)
  moreover have "dead (pg_view (db (sv_world (serve_http E s rs st)))) i"
    using h assms(4) by (auto simp: safe_def intro: arun_dead)
  ultimately show ?thesis using handleRefresh_dead [OF assms(1) pg.safe_iv [OF h]] assms(6,7) by simp
qed

text \<open>What was refreshed is dead.\<close>

lemma refreshed_dead:
  assumes "s_store sv = Pg_Store ci" "pg_sound ci (db w)" "a_toks (pg_view (db w)) i = Some row"
    and "t_TokenHash row = HashRefreshToken E token" "Refresh E sv token w = (Inr sess, w')"
  shows "\<exists>t. a_toks (pg_view (db w')) i = Some t \<and> dead (pg_view (db w')) i \<and> t_TokenHash t = HashRefreshToken E token"
proof -
  obtain tok user a now where tok: "a_toks (pg_view (db w)) (t_ID tok) = Some tok" "t_TokenHash tok = HashRefreshToken E token"
      and eff: "pg_view (db w') = put_tok (replace_at now (ss_TokenID sess) tok) a"
    using pg_live.Refresh_ok [OF assms(1,2) demo_fresh_any assms(5)] by blast
  have "t_ID tok = i" using keyed_hash_unique [OF pg_live.keyed [OF assms(2)]] assms(3,4) tok by metis
  with tok(2) show ?thesis by (simp add: eff put_tok_def replace_at_def dead_def)
qed

text \<open>A request to refresh with the cookie of an active session, and the cookie afterwards.\<close>

lemma refresh_then_spent:
  assumes store: "s_store (srv_svc s) = Pg_Store ci" "pg_sound ci (db (sv_world st))" "linked (pg_view (db (sv_world st)))"
    and lib: "jwt_ok E" "built E (s_tokens (srv_svc s))"
    and admitted: "allow (sv_refresh st) [''ip:'' @ clientIP r] (sv_world st) = ((True, l), w2)" "readRefreshCookie r \<noteq> []"
    and fresh: "supplied (sv_world st)" "fresh_draws fresh_token_key E (sv_world st) (a_toks (pg_view (db (sv_world st))))"
    and row: "a_toks (pg_view (db (sv_world st))) i = Some row" "t_TokenHash row = HashRefreshToken E (readRefreshCookie r)"
      "Active row (shd (clock w2))" "a_users (pg_view (db (sv_world st))) (t_UserID row) = Some user" "u_Status user = StatusActive"
  shows "\<exists>resp st'. handleRefresh E s r st = (Reply resp, st') \<and> rs_Status resp = 200 \<and>
    (\<forall>rs resp3 st3. handleRefresh E s r (serve_http E s rs st') = (Reply resp3, st3) \<longrightarrow> rs_Status resp3 \<noteq> 200)"
proof -
  have w2: "db w2 = db (sv_world st)" "entropy w2 = entropy (sv_world st)" "uuids w2 = uuids (sv_world st)"
    using admitted(1) by (auto simp: allow_def time_now_def split: if_splits)
  have pre: "pg_sound ci (db w2)" "supplied w2" "fresh_draws fresh_token_key E w2 (a_toks (pg_view (db w2)))"
    using store(2) fresh w2 by (simp_all add: supplied_def fresh_draws_def)
  have row2: "a_toks (pg_view (db w2)) i = Some row" "a_users (pg_view (db w2)) (t_UserID row) = Some user" using row w2 by simp_all
  obtain sess w3 where rf: "Refresh E (srv_svc s) (readRefreshCookie r) w2 = (Inr sess, w3)"
    using pg_live.Refresh_succeeds [OF store(1) pre(1,2) demo_fresh_any pre(3) lib row2(1) row(2,3) row2(2) row(5)] by blast
  define st' where "st' = st\<lparr>sv_world := w3, sv_refresh := l\<rparr>"
  have run: "handleRefresh E s r st = (Reply (writeJSON (setRefreshCookie (srv_cfg s) (ss_RefreshToken sess)) 200
      (JObj [(''access_token'', JStr (ss_AccessToken sess))])), st')"
    using admitted rf by (simp add: handleRefresh_def st'_def)
  obtain t where t: "a_toks (pg_view (db w3)) i = Some t" "dead (pg_view (db w3)) i"
      "t_TokenHash t = HashRefreshToken E (readRefreshCookie r)"
    using refreshed_dead [OF store(1) pre(1) row2(1) row(2) rf] by blast
  have safe3: "safe pg_view (pg_sound ci) w2 w3"
    using pg_live.Refresh_safe [OF store(1) pre(1) _ demo_fresh_any rf] store(3) w2 by simp
  have "pg_inv ci (db w3)" "linked (pg_view (db w3))"
    using pg_sound_inv [OF pg_live.safe_iv [OF safe3]] pg_live.safe_linked [OF safe3] store(3) w2 by simp_all
  with t have "rs_Status resp3 \<noteq> 200" if "handleRefresh E s r (serve_http E s rs st') = (Reply resp3, st3)" for rs resp3 st3
    using spent_forever [OF store(1), of st' i t E r rs resp3 st3] that by (simp add: st'_def)
  with run show ?thesis by auto
qed

section \<open>Property\<close>

text \<open>
  C36. From login to refresh: when a login answers 200 and the browser sends its cookie back
  in a request to refresh that the limiter admits and that comes before the session expires,
  over a server that answers and without collision of the new id and hash, the request
  answers 200 as well. From then on the cookie is spent: whatever requests are served in
  between, presenting it again never answers 200.
\<close>

theorem login_then_refresh:
  assumes store: "s_store (srv_svc s) = Pg_Store ci" "pg_sound ci (db (sv_world st))" "linked (pg_view (db (sv_world st)))"
    and lib: "jwt_ok E" "built E (s_tokens (srv_svc s))"
    and login: "handleLogin E s r st = (Reply resp, st1)" "rs_Status resp = 200" "map_of (rs_Header resp) ''Set-Cookie'' = Some v"
    and cookie: "map snd (filter (\<lambda>h. fst h = ''Cookie'') (rq_Header r2)) = [cookie_pair v]"
    and admitted: "allow (sv_refresh st1) [''ip:'' @ clientIP r2] (sv_world st1) = ((True, l), w2)"
    and fresh: "supplied (sv_world st1)" "fresh_draws fresh_token_key E (sv_world st1) (a_toks (pg_view (db (sv_world st1))))"
    and time: "\<And>row. row \<in> ran (a_toks (pg_view (db (sv_world st1)))) \<Longrightarrow>
      t_TokenHash row = HashRefreshToken E (readRefreshCookie r2) \<Longrightarrow> shd (clock w2) < t_ExpiresAt row"
  shows "\<exists>resp2 st2. handleRefresh E s r2 st1 = (Reply resp2, st2) \<and> rs_Status resp2 = 200 \<and>
    (\<forall>rs resp3 st3. handleRefresh E s r2 (serve_http E s rs st2) = (Reply resp3, st3) \<longrightarrow> rs_Status resp3 \<noteq> 200)"
proof -
  from login(1,2) obtain sess w1 username password where
    lg: "Login E (srv_svc s) username password (UserAgent r) w1 = (Inr sess, sv_world st1)" and w1: "db w1 = db (sv_world st)"
      and hdr: "rs_Header resp = setRefreshCookie (srv_cfg s) (ss_RefreshToken sess) @ [(''Content-Type'', ''application/json'')]"
    by (elim handleLogin_200) blast
  have s1: "pg_sound ci (db w1)" "pg_inv ci (db w1)" using store(2) w1 pg_sound_inv by simp_all
  have ne: "token_chars (ss_RefreshToken sess)" "ss_RefreshToken sess \<noteq> []" using Login_token [OF lg] by simp_all
  have tok: "readRefreshCookie r2 = ss_RefreshToken sess"
    by (rule login_cookie_read [OF ne login(3) [unfolded hdr] cookie])
  have safe1: "safe pg_view (pg_sound ci) w1 (sv_world st1)" by (rule pg_live.Login_safe [OF store(1) s1(1) demo_fresh_any lg])
  have snd1: "pg_sound ci (db (sv_world st1))" "linked (pg_view (db (sv_world st1)))"
    using pg_live.safe_iv [OF safe1] pg_live.safe_linked [OF safe1] store(3) w1 by simp_all
  obtain row user where row: "a_toks (pg_view (db (sv_world st1))) (ss_TokenID sess) = Some row"
      "t_TokenHash row = HashRefreshToken E (ss_RefreshToken sess)" "t_RevokedAt row = None" "t_ReplacedBy row = None"
      "a_users (pg_view (db (sv_world st1))) (t_UserID row) = Some user" "u_Status user = StatusActive"
    by (rule login_row [OF store(1) s1(2) lg])
  have "Active row (shd (clock w2))" using time [of row] row tok by (auto simp: Active_def ran_def)
  with row ne(2) refresh_then_spent [OF store(1) snd1 lib admitted _ fresh, of "ss_TokenID sess" row user] show ?thesis
    by (simp add: tok)
qed

section \<open>A revocation that is lost\<close>

text \<open>
  \<^verbatim>\<open>Refresh\<close> reads the token and its owner, and rotates afterwards. If another request (a
  password change, a reset, the disabling of the account) revokes the token in between, the
  rotation does not notice: the statement of \<^verbatim>\<open>ReplaceRefreshToken\<close> asks for
  \<^verbatim>\<open>replaced_by IS NULL\<close> only. The state \<open>w\<close> is the one the rotation finds; the session it
  returns is alive although every session of the user had just been revoked.
\<close>

theorem rotation_ignores_revocation:
  assumes "pg_sound ci (db w)" "supplied w" "fresh_draws fresh_token_key E w (a_toks (pg_view (db w)))" "jwt_ok E" "built E t"
    and "a_toks (pg_view (db w)) (t_ID tok) = Some (revoke_at now tok)" "t_ReplacedBy tok = None"
    and "a_users (pg_view (db w)) (t_UserID tok) = Some user"
  shows "\<exists>sess w' row. rotate_session E (pg_service ci h t d) tok user w = (Inr sess, w') \<and>
    a_toks (pg_view (db w')) (ss_TokenID sess) = Some row \<and> t_RevokedAt row = None \<and> t_ReplacedBy row = None"
proof -
  let ?s = "pg_service ci h t d" and ?t = "revoke_at now tok"
  have st: "s_store ?s = Pg_Store ci" and bt: "built E (s_tokens ?s)" using assms(5) by simp_all
  have same: "t_ID ?t = t_ID tok" "t_ReplacedBy ?t = None" "t_UserID ?t = t_UserID tok" "device_of ?t = device_of tok"
    using assms(7) by (simp_all add: revoke_at_def device_of_def)
  have uid: "u_ID user = t_UserID tok" using keyed_user_ID [OF pg_live.keyed [OF assms(1)] assms(8)] .
  have dom: "u_ID user \<in> dom (a_users (pg_view (db w)))" using assms(8) uid by auto
  obtain sess w' where run: "rotate_session E ?s ?t user w = (Inr sess, w')"
    using pg_live.rotate_session_succeeds [OF st assms(1,2) demo_fresh_any assms(3,4) bt, of ?t ?t user] assms(6) same(1,2) dom by auto
  then have run': "rotate_session E ?s tok user w = (Inr sess, w')" unfolding rotate_session_def same .
  obtain a now' where gr: "granted E ?s pg_ts user (device_of ?t) sess (pg_view (db w)) a"
      "pg_view (db w') = put_tok (replace_at now' (ss_TokenID sess) ?t) a"
    using pg_live.rotate_session_law [OF st assms(1) demo_fresh_any _ same(2) _ dom run] assms(6) same uid by auto
  obtain n where row: "tok_fresh (session_row E (s_refreshTTL ?s) pg_ts user (device_of ?t) n (ss_TokenID sess) (ss_RefreshToken sess))
        (pg_view (db w))"
      "a = put_tok (session_row E (s_refreshTTL ?s) pg_ts user (device_of ?t) n (ss_TokenID sess) (ss_RefreshToken sess)) (pg_view (db w))"
    using gr(1) by (auto simp: granted_def)
  have "ss_TokenID sess \<noteq> t_ID tok" using row(1) assms(6) by (auto simp: tok_fresh_def)
  then have "a_toks (pg_view (db w')) (ss_TokenID sess) =
      Some (session_row E (s_refreshTTL ?s) pg_ts user (device_of ?t) n (ss_TokenID sess) (ss_RefreshToken sess))"
    using gr(2) row(2) same(1) by (simp add: put_tok_def replace_at_def)
  with run' show ?thesis by (auto simp: session_row_def)
qed

section \<open>An example\<close>

text \<open>What a login over PostgreSQL that needs no new hash draws, and the row it stores.\<close>

lemma pg_token_draws:
  "st_CreateRefreshToken (Pg_Store ci) t w = (r, w') \<Longrightarrow> clock w' = clock w \<and> entropy w' = entropy w \<and> uuids w' = uuids w"
  by (auto simp: pg_sel Pg_CreateRefreshToken_def pg_exec_def Let_def split: Postgres_Store.outcome.splits sum.splits prod.splits)

lemma openSession_draws:
  assumes "s_store s = Pg_Store ci" "pg_inv ci (db w)" "openSession E s user device w = (Inr sess, w')"
  shows "clock w' = stl (clock w) \<and> entropy w' = stl (entropy w) \<and> uuids w' = stl (stl (uuids w)) \<and>
    (\<exists>f row. shd (entropy w) = Some f \<and> t_TokenHash row = drawn_hash E f \<and> Some (t_ID row) = shd (uuids w) \<and>
       t_ExpiresAt row = pg_ts (shd (clock w) + s_refreshTTL s) \<and> pg_view (db w') = put_tok row (pg_view (db w)))"
proof -
  obtain f i where f: "shd (entropy w) = Some f" and i: "shd (uuids w) = Some i"
    using assms(3) by (auto simp: openSession_def NewRefreshToken_def rand_read_def uuid_NewV7_def Let_def split: option.splits)
  define t where "t = \<lparr>t_ID = i, t_UserID = u_ID user, t_TokenHash = drawn_hash E f,
    t_DeviceName = (if device = [] then None else Some device), t_IssuedAt = shd (clock w),
    t_ExpiresAt = shd (clock w) + s_refreshTTL s, t_RevokedAt = None, t_ReplacedBy = None\<rparr>"
  define w3 where "w3 = w\<lparr>entropy := stl (entropy w), uuids := stl (uuids w), clock := stl (clock w)\<rparr>"
  obtain r4 w4 where crt: "st_CreateRefreshToken (Pg_Store ci) t w3 = (r4, w4)" by fastforce
  obtain r5 w5 where mint: "Mint E (s_tokens s) (u_ID user) (u_Username user) [u_Role user] (shd (clock w)) w4 = (r5, w5)" by fastforce
  have run: "r4 = Inr ()" "w' = w5"
    using assms(1,3) f i crt mint
    by (auto simp: openSession_def NewRefreshToken_def rand_read_def uuid_NewV7_def time_now_def Let_def drawn_hash_def t_def w3_def
        split: sum.splits)
  have "pg_view (db w4) = put_tok (t\<lparr>t_IssuedAt := pg_ts (t_IssuedAt t), t_ExpiresAt := pg_ts (t_ExpiresAt t)\<rparr>) (pg_view (db w3))"
    using pg.CreateRefreshToken [OF _ _ _ _ crt] assms(2) run(1) by (auto simp: wrote_def t_def w3_def)
  with f i run(2) Mint_frame [OF mint] pg_token_draws [OF crt] show ?thesis
    by (auto simp: w3_def t_def intro!: exI [of _ "t\<lparr>t_IssuedAt := pg_ts (t_IssuedAt t), t_ExpiresAt := pg_ts (t_ExpiresAt t)\<rparr>"])
qed

lemma Login_draws:
  assumes "s_store s = Pg_Store ci" "pg_inv ci (db w)" "Login E s username password device w = (Inr sess, w')"
    and "\<forall>i cred. a_creds (pg_view (db w)) i = Some cred \<longrightarrow> Verify E (s_hasher s) password (c_PasswordHash cred) \<noteq> Inr True"
  shows "clock w' = stl (clock w) \<and> entropy w' = stl (entropy w) \<and> uuids w' = stl (stl (uuids w)) \<and>
    (\<exists>f row. shd (entropy w) = Some f \<and> t_TokenHash row = drawn_hash E f \<and> Some (t_ID row) = shd (uuids w) \<and>
       t_ExpiresAt row = pg_ts (shd (clock w) + s_refreshTTL s) \<and> pg_view (db w') = put_tok row (pg_view (db w)))"
proof -
  obtain user w1 where gu: "st_GetUserByUsername (Pg_Store ci) username w = (Inr user, w1)"
    using assms(1,3) by (auto simp: Login_def split: prod.splits sum.splits if_splits)
  note ro1 = pg.read_onlyD [OF pg.reads(2) [OF assms(2) gu]]
  obtain cred w2 where gc: "st_GetCredential (Pg_Store ci) (u_ID user) w1 = (Inr cred, w2)"
    using assms(1,3) gu by (auto simp: Login_def split: prod.splits sum.splits if_splits)
  note ro2 = pg.read_onlyD [OF pg.reads(5) [OF ro1(1) gc]]
  obtain b where ver: "Verify E (s_hasher s) password (c_PasswordHash cred) = Inr b"
    using assms(1,3) gu gc by (auto simp: Login_def split: sum.splits if_splits)
  have "\<not> b" using pg.GetCredential [OF ro1(1) gc] assms(4) ver ro1(2) by auto
  then have ad: "admit E s username password device user cred False w2 = (Inr sess, w')"
    using assms(1,3) gu gc ver by (simp add: Login_def)
  then obtain sess0 w4 where os: "openSession E s user device w2 = (Inr sess0, w4)" and w': "w' = log_event Info ''login''
      [(''event'', LogStr ''login_success''), (''username'', LogStr username)] w4"
    by (auto simp: admit_def split: if_splits prod.splits sum.splits)
  from openSession_draws [OF assms(1) ro2(1) os] w' ro1(2-4,8) ro2(2-4,8) show ?thesis
    by simp
qed

text \<open>The example installation with two different answers of the entropy and the id source.\<close>

definition flow_world :: "Pg world" where
  "flow_world = (demo_world demo_pg)\<lparr>entropy := Some (\<lambda>n. 3) ## sconst (Some (\<lambda>n. 4)), uuids := Some 99 ## sconst (Some 98)\<rparr>"

definition flow_serving :: "Pg serving" where
  "flow_serving = demo_serving\<lparr>sv_world := flow_world\<rparr>"

definition flow_login :: http_request where
  "flow_login = demo_request ''POST'' ''/api/account/v1/auth/login'' []
     (render_object [(''username'', ''alice''), (''password'', ''correct horse'')])"

lemma flow_fields [simp]:
  "db flow_world = demo_pg" "clock flow_world = sconst 9000" "sv_world flow_serving = flow_world"
  "sv_login flow_serving = sv_login demo_serving" "sv_refresh flow_serving = sv_refresh demo_serving"
  "entropy flow_world = Some (\<lambda>n. 3) ## sconst (Some (\<lambda>n. 4))" "uuids flow_world = Some 99 ## sconst (Some 98)"
  by (simp_all add: flow_serving_def flow_world_def demo_world_def)

lemma flow_hashes: "hd (drawn_hash toy_ext (\<lambda>n. 3)) = 65" "hd (drawn_hash toy_ext (\<lambda>n. 4)) = 66"
proof -
  have "b64_encode RawURLEncoding (map (\<lambda>n. 4) [0..<32]) = ''BAQEBAQEBAQEBAQEBAQEBAQEBAQEBAQEBAQEBAQEBAQ''" by code_simp
  then show "hd (drawn_hash toy_ext (\<lambda>n. 3)) = 65" "hd (drawn_hash toy_ext (\<lambda>n. 4)) = 66"
    using demo_drawn by (simp_all only: drawn_hash_def)
      (simp_all add: HashRefreshToken_def toy_ext_def toy_Sum256_def bytes_of_string_def byte_of_char_def)
qed

lemma demo_old_hash: "a_toks demo_store i = Some t \<Longrightarrow> hd (t_TokenHash t) \<noteq> 65 \<and> hd (t_TokenHash t) \<noteq> 66 \<and> i \<notin> {98, 99}"
  by (elim demo_tok_cases)
     (simp_all add: HashRefreshToken_def toy_ext_def toy_Sum256_def bytes_of_string_def byte_of_char_def)

lemma flow_fresh: "fresh_draws fresh_token_key toy_ext flow_world (a_toks demo_store)"
proof -
  have "fresh_token_key i (drawn_hash toy_ext f) (a_toks demo_store)" if "f = (\<lambda>n. 3) \<or> f = (\<lambda>n. 4)" "i = 99 \<or> i = 98" for f i
    using that flow_hashes demo_old_hash unfolding fresh_token_key_def by (metis insertCI not_Some_eq)
  then show ?thesis by (auto simp: fresh_draws_def)
qed

lemma flow_first_login:
  "\<exists>resp st1 v row. handleLogin toy_ext demo_server flow_login flow_serving = (Reply resp, st1) \<and> rs_Status resp = 200 \<and>
     map_of (rs_Header resp) ''Set-Cookie'' = Some v \<and> sv_refresh st1 = sv_refresh demo_serving \<and>
     clock (sv_world st1) = sconst 9000 \<and> entropy (sv_world st1) = sconst (Some (\<lambda>n. 4)) \<and>
     uuids (sv_world st1) = sconst (Some 98) \<and> pg_view (db (sv_world st1)) = put_tok row demo_store \<and>
     t_ID row = 99 \<and> hd (t_TokenHash row) = 65 \<and> 9000 < t_ExpiresAt row"
proof -
  let ?body = "[(''username'', ''alice''), (''password'', ''correct horse'')]"
  define body where "body = map (\<lambda>(k, v). (k, FStr v)) ?body"
  have dec: "decodeJSON [''username'', ''password''] flow_login = Inr body"
    using decode_body_plain [of ?body "[''username'', ''password'']" "[]"]
    by (simp add: decodeJSON_def flow_login_def demo_request_def body_def plain_def render_object_def quoted_def maxBody_def)
  have bf: "str_field body ''username'' = ''alice''" "str_field body ''password'' = ''correct horse''"
    by (simp_all add: body_def str_field_def)
  define w1 where "w1 = flow_world\<lparr>clock := sconst 9000\<rparr>"
  obtain l where al: "allow (sv_login flow_serving) [''ip:'' @ clientIP flow_login, ''user:alice''] flow_world = ((True, l), w1)"
    by (auto simp: allow_def time_now_def allow_at_def roll_def demo_serving_def New_def newRateLimiter_def w1_def Let_def duration_units)
  have wf: "db w1 = demo_pg" "supplied w1" "fresh_draws fresh_token_key toy_ext w1 (a_toks demo_store)"
    using flow_fresh by (simp_all add: w1_def supplied_def fresh_draws_def)
  obtain sess w2 where lg: "Login toy_ext demo_pg_service ''alice'' ''correct horse'' (UserAgent flow_login) w1 = (Inr sess, w2)"
    using pg_live.Login_succeeds [of demo_pg_service id w1 toy_ext 1 demo_alice "''alice''" "demo_cred 1" "''correct horse''" False "UserAgent flow_login"]
    by (auto simp: wf demo_pg_sound demo_fresh_any toy_jwt demo_built toy_argon2 demo_sane demo_users demo_alice_fields
        demo_creds demo_cred_def demo_verify)
  have ver: "\<forall>i cred. a_creds (pg_view (db w1)) i = Some cred \<longrightarrow>
      Verify toy_ext (s_hasher demo_pg_service) ''correct horse'' (c_PasswordHash cred) \<noteq> Inr True"
    by (auto simp: wf demo_store_def demo_cred_def demo_verify split: if_splits)
  note dr = Login_draws [of demo_pg_service id w1, OF _ _ lg ver]
  obtain row where row: "t_TokenHash row = drawn_hash toy_ext (\<lambda>n. 3)" "t_ID row = 99" "pg_view (db w2) = put_tok row demo_store"
      "t_ExpiresAt row = pg_ts (9000 + 30 * 24 * Hour)" and w2: "clock w2 = sconst 9000" "entropy w2 = sconst (Some (\<lambda>n. 4))"
      "uuids w2 = sconst (Some 98)"
    using dr demo_pg_inv by (auto simp: w1_def Service_New_def)
  define resp where "resp = writeJSON (setRefreshCookie (srv_cfg demo_server) (ss_RefreshToken sess)) 200
    (JObj [(''access_token'', JStr (ss_AccessToken sess)), (''must_change_password'', JBool (ss_MustChange sess)),
           (''user'', JObj (toUserJSON toy_ext (ss_User sess)))])"
  have "handleLogin toy_ext demo_server flow_login flow_serving = (Reply resp, flow_serving\<lparr>sv_world := w2, sv_login := l\<rparr>)"
    using dec al lg bf by (simp add: handleLogin_def resp_def)
  moreover obtain v where "map_of (rs_Header resp) ''Set-Cookie'' = Some v"
    by (simp add: resp_def writeJSON_def setRefreshCookie_def)
  ultimately show ?thesis using row w2 flow_hashes
    by (intro exI [of _ resp] exI [of _ "flow_serving\<lparr>sv_world := w2, sv_login := l\<rparr>"] exI [of _ v] exI [of _ row])
       (simp add: resp_def pg_ts_def duration_units)
qed

theorem login_then_refresh_witness:
  "\<exists>resp st1 r2 resp2 st2. handleLogin toy_ext demo_server flow_login flow_serving = (Reply resp, st1) \<and> rs_Status resp = 200 \<and>
     handleRefresh toy_ext demo_server r2 st1 = (Reply resp2, st2) \<and> rs_Status resp2 = 200"
proof -
  obtain resp st1 v row where lg: "handleLogin toy_ext demo_server flow_login flow_serving = (Reply resp, st1)" "rs_Status resp = 200"
      "map_of (rs_Header resp) ''Set-Cookie'' = Some v" and st1: "sv_refresh st1 = sv_refresh demo_serving"
      "clock (sv_world st1) = sconst 9000" "entropy (sv_world st1) = sconst (Some (\<lambda>n. 4))" "uuids (sv_world st1) = sconst (Some 98)"
      and row: "pg_view (db (sv_world st1)) = put_tok row demo_store" "t_ID row = 99" "hd (t_TokenHash row) = 65" "9000 < t_ExpiresAt row"
    using flow_first_login by blast
  define r2 where "r2 = demo_request ''POST'' ''/api/account/v1/auth/refresh'' [(''Cookie'', cookie_pair v)] []"
  define w2 where "w2 = (sv_world st1)\<lparr>clock := sconst 9000\<rparr>"
  obtain l where al: "allow (sv_refresh st1) [''ip:'' @ clientIP r2] (sv_world st1) = ((True, l), w2)"
    by (auto simp: st1 allow_def time_now_def allow_at_def roll_def demo_serving_def New_def newRateLimiter_def w2_def demo_world_def
        Let_def duration_units)
  have "fresh_token_key 98 (drawn_hash toy_ext (\<lambda>n. 4)) (a_toks (put_tok row demo_store))"
    using row flow_hashes(2) demo_old_hash by (auto simp: fresh_token_key_def put_tok_def) (metis not_Some_eq)+
  then have fresh: "fresh_draws fresh_token_key toy_ext (sv_world st1) (a_toks (pg_view (db (sv_world st1))))"
    by (simp add: fresh_draws_def st1 row)
  have time: "shd (clock w2) < t_ExpiresAt x" if "x \<in> ran (a_toks (pg_view (db (sv_world st1))))" for x
    using that row(4) by (auto simp: row(1) w2_def put_tok_def ran_def split: if_splits elim: demo_tok_cases)
  have "\<exists>resp2 st2. handleRefresh toy_ext demo_server r2 st1 = (Reply resp2, st2) \<and> rs_Status resp2 = 200 \<and>
      (\<forall>rs resp3 st3. handleRefresh toy_ext demo_server r2 (serve_http toy_ext demo_server rs st2) = (Reply resp3, st3) \<longrightarrow>
         rs_Status resp3 \<noteq> 200)"
    by (rule login_then_refresh [OF _ _ _ toy_jwt _ lg _ al _ fresh, of id])
       (simp_all add: demo_pg_sound demo_linked demo_built r2_def demo_request_def supplied_def st1 time)
  with lg show ?thesis by blast
qed

end
