(* ===== verification/Component_Theorems.thy ===== *)
theory Component_Theorems
  imports Demo
begin

text \<open>
  Properties of single components: the stores implement their contracts, password hashes and
  signing keys are read back, temporary passwords are well formed.
\<close>

section \<open>The stores\<close>

text \<open>
  C37. Both stores implement the interface of the service. The PostgreSQL store keeps the
  contract of \<open>store_contract\<close> under any faults of network and server, and as long as the
  server answers it also is reliable: no operation fails but for the documented reasons. The
  in-memory store is reliable whenever the drawn ids and hashes are new. Every operation acts
  on the abstract tables as the contract says.
\<close>

theorem stores_refine:
  "store_contract (Pg_Store ci) pg_view (pg_inv ci) ci pg_ts (\<lambda>w. pg_ts (shd (pg_now (db w)))) (\<lambda>_ _. True) (\<lambda>_ _ _. True) \<and>
   reliable_store (Pg_Store ci) pg_view (pg_sound ci) ci pg_ts (\<lambda>w. pg_ts (shd (pg_now (db w)))) (\<lambda>_ _. True) (\<lambda>_ _ _. True) \<and>
   reliable_store (Fake_Store ci) fake_view (fake_inv ci) ci (\<lambda>x. x) (\<lambda>w. shd (clock w)) fresh_user_id fresh_token_key"
  using pg.store_contract_axioms pg_live.reliable_store_axioms fake_live.reliable_store_axioms by blast

section \<open>Passwords\<close>

text \<open>
  C38. What \<^verbatim>\<open>Hash\<close> stores, \<^verbatim>\<open>Verify\<close> reads back: every hash made with sane parameters is
  accepted for its password by any hasher, which asks for a new hash exactly when it is
  configured for more memory, more iterations or a longer key; any other password is accepted
  only if it derives the same key, and refused as wrong otherwise.
\<close>

theorem hash_verify:
  assumes "argon2_ok E" "sane_hasher h" "Hash E h password w = (Inr phc, w')"
  shows "Verify E h' password phc = Inr (MemoryKiB (params h) < MemoryKiB (params h') \<or>
      Iterations (params h) < Iterations (params h') \<or> KeyLen (params h) < KeyLen (params h')) \<and>
    (\<exists>salt. \<forall>other. Verify E h' other phc =
       (if IDKey E (bytes_of_string other) salt (Iterations (params h)) (MemoryKiB (params h)) (Parallelism (params h)) (KeyLen (params h)) =
           IDKey E (bytes_of_string password) salt (Iterations (params h)) (MemoryKiB (params h)) (Parallelism (params h)) (KeyLen (params h))
        then Verify E h' password phc else Inl ErrWrongPassword))"
proof -
  have hash: "hash_of E h password phc" using assms(3) by (rule Hash_hash_of)
  then obtain salt key where phc: "phc = format_phc (params h) salt key"
    and key: "IDKey E (bytes_of_string password) salt (Iterations (params h)) (MemoryKiB (params h)) (Parallelism (params h))
      (KeyLen (params h)) = Some key" unfolding hash_of_def by blast
  note own = hash_of_Verify [OF assms(1,2) hash, of h']
  have len: "length key = unat (KeyLen (params h))" using argon2_length [OF assms(1) key] .
  then have kl: "of_nat (length key) = KeyLen (params h)" by simp
  have bounds: "16 \<le> length key" "length key \<le> 128" using assms(2) len by (simp_all add: sane_hasher_def)
  let ?key = "\<lambda>pw. IDKey E (bytes_of_string pw) salt (Iterations (params h)) (MemoryKiB (params h)) (Parallelism (params h)) (KeyLen (params h))"
  have "Verify E h' other phc = (if ?key other = Some key then Verify E h' password phc else Inl ErrWrongPassword)" for other
  proof -
    obtain k where k: "?key other = Some k" using assms(1,2) unfolding argon2_ok_def sane_hasher_def by meson
    show ?thesis
      unfolding own by (simp add: phc Verify_def parsePHC_format_phc [OF bounds] kl k Let_def)
  qed
  then have "\<forall>other. Verify E h' other phc = (if ?key other = ?key password then Verify E h' password phc else Inl ErrWrongPassword)"
    unfolding key by blast
  with own show ?thesis by blast
qed

theorem hash_verify_witness:
  "\<exists>phc w'. Hash toy_ext demo_hasher ''secret'' (demo_world demo_pg) = (Inr phc, w') \<and>
     Verify toy_ext demo_hasher ''secret'' phc = Inr False"
proof -
  obtain phc w' where run: "Hash toy_ext demo_hasher ''secret'' (demo_world demo_pg) = (Inr phc, w')"
    using Hash_succeeds [OF toy_argon2 demo_sane, of "demo_world demo_pg"] by fastforce
  from hash_verify [OF toy_argon2 demo_sane run, of demo_hasher] run show ?thesis by auto
qed

section \<open>Signing keys\<close>

text \<open>
  C39. A signing key is accepted in each of the four base64 forms, padded or not, standard or
  URL-safe: \<^verbatim>\<open>ParseSigningSeed\<close> tries them one after the other and never takes a text in one
  form for other bytes in another.
\<close>

theorem signing_seed_round_trip:
  "\<forall>enc \<in> {StdEncoding, RawStdEncoding, URLEncoding, RawURLEncoding}. ParseSigningSeed (b64_encode enc seed) = Inr seed"
  unfolding ParseSigningSeed_def
  by (intro ballI first_decode_agree) (use good_encodings agree_encodings in auto)

theorem signing_seed_round_trip_witness:
  "ParseSigningSeed (b64_encode RawURLEncoding [1, 2, 3, 250]) = Inr [1, 2, 3, 250]"
  by (rule signing_seed_round_trip [THEN bspec]) simp

section \<open>Temporary passwords\<close>

text \<open>Every remainder below 54 is hit by four or five of the 256 byte values.\<close>

lemma residues:
  fixes i :: nat
  assumes "i < 54"
  shows "{n. n < 256 \<and> n mod 54 = i} = (\<lambda>k. i + 54 * k) ` {..<if i < 40 then 5 else 4}"
proof (intro equalityI subsetI)
  fix n :: nat
  assume "n \<in> {n. n < 256 \<and> n mod 54 = i}"
  then have n: "n < 256" "n = i + 54 * (n div 54)" using mod_mult_div_eq [of n 54] by auto
  then have "n div 54 < (if i < 40 then 5 else 4)" by (cases "i < 40"; simp; linarith)
  with n show "n \<in> (\<lambda>k. i + 54 * k) ` {..<if i < 40 then 5 else 4}" by blast
next
  fix n :: nat
  assume "n \<in> (\<lambda>k. i + 54 * k) ` {..<if i < 40 then 5 else 4}"
  with assms show "n \<in> {n. n < 256 \<and> n mod 54 = i}" by (auto split: if_splits)
qed

lemma byte_residues:
  assumes "i < 54"
  shows "card {b :: byte. unat b mod 54 = i} = (if i < 40 then 5 else 4)"
proof -
  have inj: "inj_on unat {b :: byte. unat b mod 54 = i}" by (rule inj_onI) (rule unsigned_word_eqI)
  have "n \<in> unat ` {b :: byte. unat b mod 54 = i}" if "n < 256" "n mod 54 = i" for n
  proof
    show "n = unat (word_of_nat n :: byte)" using that(1) by (simp add: unat_of_nat)
    with that show "word_of_nat n \<in> {b :: byte. unat b mod 54 = i}" by simp
  qed
  moreover have "unat b < 256" for b :: byte by (rule byte_less)
  ultimately have "unat ` {b :: byte. unat b mod 54 = i} = {n. n < 256 \<and> n mod 54 = i}" by blast
  then have "card {b :: byte. unat b mod 54 = i} = card {n. n < 256 \<and> n mod 54 = i}" using card_image [OF inj] by simp
  also have "\<dots> = (if i < 40 then 5 else 4)"
    unfolding residues [OF assms] by (subst card_image) (simp_all add: inj_on_def)
  finally show ?thesis .
qed

lemma temporaryPassword_at:
  assumes "shd (entropy w) = Some f"
  shows "temporaryPassword w = (Inr (map (\<lambda>j. temp_alphabet ! (unat (f j) mod 54)) [0..<16]), w\<lparr>entropy := stl (entropy w)\<rparr>)"
proof -
  have "length temp_alphabet = 54" by code_simp
  with assms show ?thesis by (simp add: temporaryPassword_def rand_read_def del: upt_rec_numeral)
qed

text \<open>
  C40. As long as the entropy source works, a temporary password has sixteen characters of the
  readable alphabet of 54 letters and digits, none of which can be mistaken for another. Every
  position has a random byte of its own, and the choice is nearly even: with the other bytes
  as they are, each character of the alphabet comes out at that position for four or five of
  the 256 values of its byte, while the other positions stay as they are.
\<close>

theorem temporary_password_even:
  assumes "shd (entropy w) = Some f"
  shows "\<exists>pw w'. temporaryPassword w = (Inr pw, w') \<and> length pw = 16 \<and> set pw \<subseteq> set temp_alphabet \<and>
    distinct temp_alphabet \<and> length temp_alphabet = 54 \<and> set temp_alphabet \<inter> set ''iloILO01'' = {} \<and>
    (\<forall>i < 16.
       (\<forall>b. \<exists>pw' w'. temporaryPassword (w\<lparr>entropy := Some (f(i := b)) ## stl (entropy w)\<rparr>) = (Inr pw', w') \<and>
          (\<forall>j < 16. j \<noteq> i \<longrightarrow> pw' ! j = pw ! j)) \<and>
       (\<forall>c \<in> set temp_alphabet. card {b. \<exists>pw' w'.
          temporaryPassword (w\<lparr>entropy := Some (f(i := b)) ## stl (entropy w)\<rparr>) = (Inr pw', w') \<and> pw' ! i = c} \<in> {4, 5}))"
proof -
  have dist: "distinct temp_alphabet" "length temp_alphabet = 54" by code_simp+
  have "list_all (\<lambda>c. c \<notin> set temp_alphabet) ''iloILO01''" by code_simp
  then have apart: "set temp_alphabet \<inter> set ''iloILO01'' = {}" unfolding list_all_iff by blast
  define pick where "pick g = map (\<lambda>j. temp_alphabet ! (unat (g j) mod 54)) [0..<16]" for g :: "nat \<Rightarrow> byte"
  have run: "temporaryPassword (w\<lparr>entropy := Some g ## stl (entropy w)\<rparr>) = (Inr (pick g), w\<lparr>entropy := stl (entropy w)\<rparr>)" for g
    using temporaryPassword_at [of "w\<lparr>entropy := Some g ## stl (entropy w)\<rparr>" g] by (simp add: pick_def del: upt_rec_numeral)
  have at: "pick g ! j = temp_alphabet ! (unat (g j) mod 54)" if "j < 16" for g j
    using that by (simp add: pick_def del: upt_rec_numeral)
  have count: "card {b. pick (f(i := b)) ! i = c} \<in> {4, 5}" if i: "i < 16" and c: "c \<in> set temp_alphabet" for i c
  proof -
    obtain k where k: "k < 54" "c = temp_alphabet ! k" using c unfolding in_set_conv_nth dist(2) by blast
    have "unat b mod 54 < 54" for b :: byte by simp
    with k dist have "{b. pick (f(i := b)) ! i = c} = {b :: byte. unat b mod 54 = k}"
      by (simp add: at [OF i] nth_eq_iff_index_eq)
    with byte_residues [OF k(1)] show ?thesis by simp
  qed
  have "set (pick f) \<subseteq> set temp_alphabet" "length (pick f) = 16"
    using dist(2) by (auto simp: pick_def simp del: upt_rec_numeral intro!: nth_mem)
  moreover have "temporaryPassword w = (Inr (pick f), w\<lparr>entropy := stl (entropy w)\<rparr>)"
    using temporaryPassword_at [OF assms] by (simp add: pick_def)
  moreover have "pick (f(i := b)) ! j = pick f ! j" if "j < 16" "j \<noteq> i" for i j b using that by (simp add: at)
  ultimately show ?thesis using dist apart count
    by (intro exI [of _ "pick f"] exI [of _ "w\<lparr>entropy := stl (entropy w)\<rparr>"]) (simp add: run)
qed

theorem temporary_password_even_witness:
  "\<exists>pw w'. temporaryPassword (demo_world demo_pg) = (Inr pw, w') \<and> length pw = 16 \<and>
     set pw \<inter> set ''iloILO01'' = {}"
proof -
  obtain f where "shd (entropy (demo_world demo_pg)) = Some f" by simp
  from temporary_password_even [OF this] show ?thesis by blast
qed

end
