(* ===== verification/Semaphore.thy ===== *)
theory Semaphore
  imports Password
begin

text \<open>
  The semaphore of \<^verbatim>\<open>internal/auth/password.go\<close>: a buffered channel of the hasher's capacity.
  Every call of \<^verbatim>\<open>Hash\<close> and \<^verbatim>\<open>Verify\<close> sends to it first (and blocks while it is full) and
  receives from it on return, also when it panics, since the receive is deferred. The state
  holds the number of tokens in the channel and the calls of all goroutines; \<open>acquire\<close> and
  \<open>release\<close> are the two channel operations (\<open>None\<close>: the goroutine blocks), \<open>sem_step\<close> their
  interleavings with the arrival of new calls. Main facts: the calls that hash at a time are
  as many as the channel holds tokens and never more than its capacity, a return never
  blocks, and without new calls every call returns, in whatever order they are scheduled.
\<close>

text \<open>A call needs the memory, in KiB, of the parameters it hashes with.\<close>

datatype call_state = Waiting u32 | Hashing u32 | Returned

record sem_state =
  sem :: nat
  calls :: "call_state list"

definition acquire :: "Hasher \<Rightarrow> nat \<Rightarrow> sem_state \<Rightarrow> sem_state option" where
  "acquire h i s =
     (if i < length (calls s) then
        (case calls s ! i of
           Waiting m \<Rightarrow>
             if int (sem s) < sem_cap h
             then Some (s\<lparr>sem := sem s + 1, calls := (calls s)[i := Hashing m]\<rparr>) else None
         | _ \<Rightarrow> None)
      else None)"

definition release :: "nat \<Rightarrow> sem_state \<Rightarrow> sem_state option" where
  "release i s =
     (if i < length (calls s) then
        (case calls s ! i of
           Hashing m \<Rightarrow> if 0 < sem s then Some (s\<lparr>sem := sem s - 1, calls := (calls s)[i := Returned]\<rparr>) else None
         | _ \<Rightarrow> None)
      else None)"

inductive work_step :: "Hasher \<Rightarrow> sem_state \<Rightarrow> sem_state \<Rightarrow> bool" for h where
  take: "acquire h i s = Some s' \<Longrightarrow> work_step h s s'"
| give: "release i s = Some s' \<Longrightarrow> work_step h s s'"

inductive sem_step :: "Hasher \<Rightarrow> sem_state \<Rightarrow> sem_state \<Rightarrow> bool" for h where
  arrive: "sem_step h s (s\<lparr>calls := calls s @ [Waiting m]\<rparr>)"
| work: "work_step h s s' \<Longrightarrow> sem_step h s s'"

inductive_cases work_stepE: "work_step h s s'"

definition sem_init :: sem_state where
  "sem_init = \<lparr>sem = 0, calls = []\<rparr>"

section \<open>Counting\<close>

fun holding :: "call_state \<Rightarrow> nat" where
  "holding (Hashing m) = 1"
| "holding _ = 0"

fun memory_of :: "call_state \<Rightarrow> nat" where
  "memory_of (Hashing m) = unat m"
| "memory_of _ = 0"

fun todo :: "call_state \<Rightarrow> nat" where
  "todo (Waiting m) = 2"
| "todo (Hashing m) = 1"
| "todo Returned = 0"

definition holders :: "sem_state \<Rightarrow> nat" where
  "holders s = sum_list (map holding (calls s))"

definition memory_in_use :: "sem_state \<Rightarrow> nat" where
  "memory_in_use s = sum_list (map memory_of (calls s))"

definition work_left :: "sem_state \<Rightarrow> nat" where
  "work_left s = sum_list (map todo (calls s))"

lemma sum_list_update_nat:
  "i < length xs \<Longrightarrow> sum_list (map f (xs[i := x])) + f (xs ! i) = sum_list (map f xs) + (f x :: nat)"
  by (induction xs arbitrary: i) (auto split: nat.splits)

lemma acquire_SomeD:
  assumes "acquire h i s = Some s'"
  obtains m where "i < length (calls s)" "calls s ! i = Waiting m" "int (sem s) < sem_cap h"
    "s' = s\<lparr>sem := sem s + 1, calls := (calls s)[i := Hashing m]\<rparr>"
  using assms by (auto simp: acquire_def split: if_splits call_state.splits)

lemma release_SomeD:
  assumes "release i s = Some s'"
  obtains m where "i < length (calls s)" "calls s ! i = Hashing m" "0 < sem s"
    "s' = s\<lparr>sem := sem s - 1, calls := (calls s)[i := Returned]\<rparr>"
  using assms by (auto simp: release_def split: if_splits call_state.splits)

section \<open>The invariant\<close>

definition sem_inv :: "Hasher \<Rightarrow> sem_state \<Rightarrow> bool" where
  "sem_inv h s \<longleftrightarrow> sem s = holders s \<and> int (sem s) \<le> sem_cap h"

lemma work_step_inv: "work_step h s s' \<Longrightarrow> sem_inv h s \<Longrightarrow> sem_inv h s'"
proof (induction rule: work_step.induct)
  case (take i s s')
  then obtain m where m: "i < length (calls s)" "calls s ! i = Waiting m" "int (sem s) < sem_cap h"
    "s' = s\<lparr>sem := sem s + 1, calls := (calls s)[i := Hashing m]\<rparr>" by (elim acquire_SomeD)
  with sum_list_update_nat [OF m(1), of holding "Hashing m"] take.prems show ?case
    by (simp add: sem_inv_def holders_def)
next
  case (give i s s')
  then obtain m where m: "i < length (calls s)" "calls s ! i = Hashing m" "0 < sem s"
    "s' = s\<lparr>sem := sem s - 1, calls := (calls s)[i := Returned]\<rparr>" by (elim release_SomeD)
  with sum_list_update_nat [OF m(1), of holding Returned] give.prems show ?case
    by (simp add: sem_inv_def holders_def)
qed

lemma sem_step_inv: "sem_step h s s' \<Longrightarrow> sem_inv h s \<Longrightarrow> sem_inv h s'"
proof (induction rule: sem_step.induct)
  case (arrive s m)
  then show ?case by (simp add: sem_inv_def holders_def)
qed (rule work_step_inv)

lemma reachable_inv: "(sem_step h)\<^sup>*\<^sup>* s s' \<Longrightarrow> sem_inv h s \<Longrightarrow> sem_inv h s'"
  by (induction rule: rtranclp_induct) (auto intro: sem_step_inv)

lemma NewHasher_cap: "sem_cap (NewHasher p n) = (if n \<le> 0 then 4 else n)" "params (NewHasher p n) = p"
  by (simp_all add: NewHasher_def Let_def)

lemma sem_inv_init: "0 \<le> sem_cap h \<Longrightarrow> sem_inv h sem_init"
  by (simp add: sem_inv_def sem_init_def holders_def)

section \<open>Progress\<close>

lemma work_step_decreases: "work_step h s s' \<Longrightarrow> work_left s = Suc (work_left s')"
proof (induction rule: work_step.induct)
  case (take i s s')
  then obtain m where m: "i < length (calls s)" "calls s ! i = Waiting m"
    "s' = s\<lparr>sem := sem s + 1, calls := (calls s)[i := Hashing m]\<rparr>" by (elim acquire_SomeD)
  with sum_list_update_nat [OF m(1), of todo "Hashing m"] show ?case by (simp add: work_left_def)
next
  case (give i s s')
  then obtain m where m: "i < length (calls s)" "calls s ! i = Hashing m"
    "s' = s\<lparr>sem := sem s - 1, calls := (calls s)[i := Returned]\<rparr>" by (elim release_SomeD)
  with sum_list_update_nat [OF m(1), of todo Returned] show ?case by (simp add: work_left_def)
qed

lemma holding_le: "i < length (calls s) \<Longrightarrow> holding (calls s ! i) \<le> holders s"
  using elem_le_sum_list [of i "map holding (calls s)"] by (simp add: holders_def)

lemma holder_releases:
  assumes "sem_inv h s" "i < length (calls s)" "calls s ! i = Hashing m"
  shows "\<exists>s'. release i s = Some s'"
  using holding_le [OF assms(2)] assms by (auto simp: release_def sem_inv_def)

lemma work_possible:
  assumes "sem_inv h s" "0 < sem_cap h" "work_left s \<noteq> 0"
  shows "\<exists>s'. work_step h s s'"
proof (cases "holders s = 0")
  case True
  from assms(3) obtain i where i: "i < length (calls s)" "todo (calls s ! i) \<noteq> 0"
    by (auto simp: work_left_def in_set_conv_nth)
  with holding_le [OF i(1)] True i obtain m where "calls s ! i = Waiting m" by (cases "calls s ! i") auto
  with i True assms(1,2) have "acquire h i s \<noteq> None" by (simp add: acquire_def sem_inv_def)
  then show ?thesis by (auto intro: work_step.take)
next
  case False
  then obtain i m where "i < length (calls s)" "calls s ! i = Hashing m"
    by (auto simp: holders_def in_set_conv_nth) (metis holding.elims zero_neq_one not_less0)
  with holder_releases [OF assms(1)] show ?thesis by (blast intro: work_step.give)
qed

lemma runs_to_end:
  "sem_inv h s \<Longrightarrow> 0 < sem_cap h \<Longrightarrow> \<exists>s'. (work_step h ^^ work_left s) s s' \<and> work_left s' = 0"
proof (induction "work_left s" arbitrary: s)
  case (Suc n)
  then obtain t where t: "work_step h s t" using work_possible by (metis nat.distinct(1))
  with Suc work_step_decreases [OF t] work_step_inv [OF t] obtain s' where
    "(work_step h ^^ n) t s'" "work_left s' = 0" by (metis diff_Suc_1)
  with t Suc(2) show ?case by (metis relpowp_Suc_I2)
qed auto

lemma run_length: "(work_step h ^^ k) s s' \<Longrightarrow> work_left s = k + work_left s'"
  by (induction k arbitrary: s') (auto dest!: work_step_decreases elim!: relcomppE)

section \<open>Properties\<close>

text \<open>
  C30. However calls arrive and however the goroutines are scheduled, a hasher made by
  \<^verbatim>\<open>NewHasher\<close> never runs more calls at a time than its limit (four, if the limit given is
  not positive), so that the memory in use is at most the limit times the largest need of a
  single call; and a call that is hashing can always return: the receive does not block.
\<close>

theorem hasher_memory_bound:
  assumes "h = NewHasher p n" "(sem_step h)\<^sup>*\<^sup>* sem_init s" "\<forall>c \<in> set (calls s). memory_of c \<le> M"
  shows "int (holders s) \<le> (if n \<le> 0 then 4 else n) \<and>
    int (memory_in_use s) \<le> (if n \<le> 0 then 4 else n) * int M \<and>
    (\<forall>i m. i < length (calls s) \<and> calls s ! i = Hashing m \<longrightarrow> (\<exists>s'. release i s = Some s'))"
proof -
  have "sem_inv h sem_init" using assms(1) by (intro sem_inv_init) (simp add: NewHasher_cap)
  with assms(2) have inv: "sem_inv h s" by (rule reachable_inv)
  have one: "memory_of c \<le> holding c * M" if "memory_of c \<le> M" for c using that by (cases c) auto
  then have "sum_list (map memory_of cs) \<le> sum_list (map holding cs) * M" if "\<forall>c \<in> set cs. memory_of c \<le> M" for cs
    using that by (induction cs) (auto simp: add_mult_distrib intro: add_mono)
  with assms(3) have mem: "memory_in_use s \<le> holders s * M" by (simp add: memory_in_use_def holders_def)
  have cap: "int (holders s) \<le> (if n \<le> 0 then 4 else n)" using inv assms(1) by (simp add: sem_inv_def NewHasher_cap)
  have "int (memory_in_use s) \<le> int (holders s) * int M" using mem by (metis of_nat_le_iff of_nat_mult)
  also have "\<dots> \<le> (if n \<le> 0 then 4 else n) * int M" using cap by (intro mult_right_mono) simp_all
  finally show ?thesis using cap holder_releases [OF inv] by blast
qed

theorem hasher_memory_bound_witness:
  "memory_in_use \<lparr>sem = 1, calls = [Hashing 19456, Waiting 19456]\<rparr> \<le> 19456"
proof -
  let ?h = "NewHasher DefaultParams 1"
  let ?t = "\<lparr>sem = 0, calls = [Waiting 19456, Waiting 19456]\<rparr>"
  let ?s = "\<lparr>sem = 1, calls = [Hashing 19456, Waiting 19456]\<rparr>"
  have "sem_step ?h sem_init \<lparr>sem = 0, calls = [Waiting 19456]\<rparr>"
    using sem_step.arrive [of ?h sem_init 19456] by (simp add: sem_init_def)
  moreover have "sem_step ?h \<lparr>sem = 0, calls = [Waiting 19456]\<rparr> ?t"
    using sem_step.arrive [of ?h "\<lparr>sem = 0, calls = [Waiting 19456]\<rparr>" 19456] by simp
  moreover have "sem_step ?h ?t ?s"
    by (rule sem_step.work, rule work_step.take [of _ 0]) (simp add: acquire_def NewHasher_cap)
  ultimately have "(sem_step ?h)\<^sup>*\<^sup>* sem_init ?s" by (meson converse_rtranclp_into_rtranclp rtranclp.rtrancl_refl)
  from hasher_memory_bound [OF refl this, of 19456] show ?thesis by (simp add: unat_numeral)
qed

text \<open>
  C31. No call is stuck: from every state that can arise, if no further call arrives, each
  way of scheduling the goroutines takes at most two steps per waiting and one per hashing
  call, and it can only come to an end when every call has returned; one that runs to this
  end exists.
\<close>

theorem hasher_calls_return:
  assumes "h = NewHasher p n" "(sem_step h)\<^sup>*\<^sup>* sem_init s"
  shows "(\<exists>s'. (work_step h)\<^sup>*\<^sup>* s s' \<and> (\<forall>c \<in> set (calls s'). c = Returned)) \<and>
    (\<forall>k s'. (work_step h ^^ k) s s' \<longrightarrow> k \<le> work_left s \<and>
       ((\<nexists>t. work_step h s' t) \<longrightarrow> (\<forall>c \<in> set (calls s'). c = Returned)))"
proof -
  have cap: "0 < sem_cap h" using assms(1) by (simp add: NewHasher_cap)
  have "sem_inv h sem_init" using cap by (intro sem_inv_init) simp
  with assms(2) have inv: "sem_inv h s" by (rule reachable_inv)
  have fin: "\<forall>c \<in> set (calls s'). c = Returned" if "work_left s' = 0" for s'
    using that by (auto simp: work_left_def) (metis todo.elims zero_neq_numeral zero_neq_one)
  have later: "sem_inv h s'" if "(work_step h ^^ k) s s'" for k s'
    using that by (induction k arbitrary: s') (auto simp: inv work_step_inv elim!: relcomppE)
  from runs_to_end [OF inv cap] fin have "\<exists>s'. (work_step h)\<^sup>*\<^sup>* s s' \<and> (\<forall>c \<in> set (calls s'). c = Returned)"
    using relpowp_imp_rtranclp by metis
  moreover have "k \<le> work_left s" if "(work_step h ^^ k) s s'" for k s' using run_length [OF that] by simp
  ultimately show ?thesis using later work_possible [OF _ cap] fin by blast
qed

theorem hasher_calls_return_witness:
  "\<exists>s'. (work_step (NewHasher DefaultParams 0))\<^sup>*\<^sup>* \<lparr>sem = 0, calls = [Waiting 19456]\<rparr> s' \<and> (\<forall>c \<in> set (calls s'). c = Returned)"
proof -
  have "sem_step (NewHasher DefaultParams 0) sem_init \<lparr>sem = 0, calls = [Waiting 19456]\<rparr>"
    using sem_step.arrive [of _ sem_init 19456] by (simp add: sem_init_def)
  then have "(sem_step (NewHasher DefaultParams 0))\<^sup>*\<^sup>* sem_init \<lparr>sem = 0, calls = [Waiting 19456]\<rparr>" by (rule r_into_rtranclp)
  from hasher_calls_return [OF refl this] show ?thesis by blast
qed

end
