(* ===== verification/Config.thy ===== *)
theory Config
  imports Url_Escape Durations
begin

text \<open>
  \<^verbatim>\<open>internal/config/config.go\<close>: the configuration read from the environment, and the database
  URL made from it with \<^verbatim>\<open>net/url\<close>; and the rewriting of that URL in
  \<^verbatim>\<open>internal/store/migrate.go\<close>. An environment is the function \<^verbatim>\<open>os.Getenv\<close>, the empty string
  for a variable that is not set. Main facts: whatever characters the user name, the
  password and the database name have, the URL is read back into exactly these parts, before
  and after the rewriting; the refresh lifetime always fits 64 bits.
\<close>

section \<open>The environment\<close>

type_synonym environment = "string \<Rightarrow> string"

record Config =
  cf_HTTPAddr :: string
  cf_HTTPBasePath :: string
  cf_GRPCAddr :: string
  cf_OpsAddr :: string
  cf_DBHost :: string
  cf_DBPort :: string
  cf_DBUser :: string
  cf_DBPassword :: string
  cf_DBName :: string
  cf_JWTSigningKey :: string
  cf_RefreshTTL :: duration
  cf_CookieSecure :: bool
  cf_BootstrapAdmin :: string
  cf_BootstrapAdminPassword :: string

definition getenv :: "environment \<Rightarrow> string \<Rightarrow> string \<Rightarrow> string" where
  "getenv env key fallback = (if env key \<noteq> [] then env key else fallback)"

definition getduration :: "environment \<Rightarrow> string \<Rightarrow> duration \<Rightarrow> duration" where
  "getduration env key fallback =
     (if env key \<noteq> [] then (case ParseDuration (env key) of Some d \<Rightarrow> d | None \<Rightarrow> fallback) else fallback)"

definition Load :: "environment \<Rightarrow> Config" where
  "Load env =
     \<lparr>cf_HTTPAddr = getenv env ''CCC_HTTP_ADDR'' '':8080'',
      cf_HTTPBasePath = getenv env ''CCC_HTTP_BASE_PATH'' [],
      cf_GRPCAddr = getenv env ''CCC_GRPC_ADDR'' '':9090'',
      cf_OpsAddr = getenv env ''CCC_OPS_ADDR'' '':8081'',
      cf_DBHost = getenv env ''CCC_DB_HOST'' [],
      cf_DBPort = getenv env ''CCC_DB_PORT'' ''5432'',
      cf_DBUser = getenv env ''CCC_DB_USER'' ''ccc'',
      cf_DBPassword = getenv env ''CCC_DB_PASSWORD'' [],
      cf_DBName = getenv env ''CCC_DB_NAME'' ''account'',
      cf_JWTSigningKey = getenv env ''CCC_JWT_SIGNING_KEY'' [],
      cf_RefreshTTL = getduration env ''CCC_REFRESH_TTL'' (30 * 24 * Hour),
      cf_CookieSecure = (getenv env ''CCC_COOKIE_SECURE'' ''true'' = ''true''),
      cf_BootstrapAdmin = getenv env ''CCC_BOOTSTRAP_ADMIN'' [],
      cf_BootstrapAdminPassword = getenv env ''CCC_BOOTSTRAP_ADMIN_PASSWORD'' []\<rparr>"

section \<open>The database URL\<close>

text \<open>
  The fields of \<^verbatim>\<open>url.URL\<close> that the source sets, and \<^verbatim>\<open>URL.String\<close> for a URL with a scheme whose
  other fields are zero; user information made by \<^verbatim>\<open>url.UserPassword\<close> has its password set.
\<close>

record URL =
  url_Scheme :: string
  url_User :: "(string \<times> string) option"
  url_Host :: string
  url_Path :: string
  url_RawQuery :: string

definition Userinfo_String :: "string \<times> string \<Rightarrow> string" where
  "Userinfo_String ui = escape encodeUserPassword (fst ui) @ '':'' @ escape encodeUserPassword (snd ui)"

definition EscapedPath :: "URL \<Rightarrow> string" where
  "EscapedPath u = (if url_Path u = ''*'' then ''*'' else escape encodePath (url_Path u))"

definition URL_String :: "URL \<Rightarrow> string" where
  "URL_String u =
     url_Scheme u @ '':''
     @ (if url_Host u \<noteq> [] \<or> url_Path u \<noteq> [] \<or> url_User u \<noteq> None then ''//'' else [])
     @ (case url_User u of None \<Rightarrow> [] | Some ui \<Rightarrow> Userinfo_String ui @ ''@'')
     @ (if url_Host u \<noteq> [] then escape encodeHost (url_Host u) else [])
     @ (if EscapedPath u \<noteq> [] \<and> hd (EscapedPath u) \<noteq> CHR ''/'' \<and> url_Host u \<noteq> [] then ''/'' else [])
     @ EscapedPath u
     @ (if url_RawQuery u \<noteq> [] then ''?'' @ url_RawQuery u else [])"

definition DatabaseURL :: "Config \<Rightarrow> string" where
  "DatabaseURL c =
     (if cf_DBHost c = [] then []
      else URL_String
        \<lparr>url_Scheme = ''postgres'', url_User = Some (cf_DBUser c, cf_DBPassword c),
         url_Host = cf_DBHost c @ '':'' @ cf_DBPort c, url_Path = ''/'' @ cf_DBName c,
         url_RawQuery = ''sslmode=disable''\<rparr>)"

text \<open>The rewriting of the scheme in \<^verbatim>\<open>Migrate\<close>, for the migration driver.\<close>

definition migrateDSN :: "string \<Rightarrow> string" where
  "migrateDSN dsn = (case cut_prefix ''postgres://'' dsn of Some rest \<Rightarrow> ''pgx5://'' @ rest | None \<Rightarrow> dsn)"

section \<open>Reading a database URL\<close>

text \<open>
  How a driver reads the URL, after \<^verbatim>\<open>url.Parse\<close> and RFC 3986: fragment and query are cut off,
  the authority ends at the first slash, the user information at its last at-sign, the user
  name at the first colon; user information and path are percent-decoded. The reader is
  stricter than the library about hosts: besides the port, which the library too wants to be
  decimal, it takes names without colons, brackets and percent signs, and addresses in
  brackets, which it does not examine further.
\<close>

record dsn_parts =
  dp_Scheme :: string
  dp_User :: string
  dp_Password :: string
  dp_Host :: string
  dp_Path :: string
  dp_Query :: string

definition cut_last :: "char \<Rightarrow> string \<Rightarrow> (string \<times> string) option" where
  "cut_last c s = map_option (\<lambda>(a, b). (rev b, rev a)) (cut_at c (rev s))"

definition read_userinfo :: "string \<Rightarrow> (string \<times> string) option" where
  "read_userinfo s =
     (case cut_at CHR '':'' s of None \<Rightarrow> None | Some (u, p) \<Rightarrow>
      case percent_decode u of None \<Rightarrow> None | Some u' \<Rightarrow>
      case percent_decode p of None \<Rightarrow> None | Some p' \<Rightarrow> Some (u', p'))"

definition valid_name :: "string \<Rightarrow> bool" where
  "valid_name n =
     (if n \<noteq> [] \<and> hd n = CHR ''[''
      then last n = CHR '']'' \<and> list_all (\<lambda>c. is_hex c \<or> c = CHR '':'' \<or> c = CHR ''.'') (butlast (tl n))
      else list_all (\<lambda>c. c \<notin> set '':[]'' \<and> (128 \<le> code c \<or> \<not> shouldEscape c encodeHost)) n)"

definition valid_host :: "string \<Rightarrow> bool" where
  "valid_host h =
     (case cut_last CHR '':'' h of
        None \<Rightarrow> valid_name h
      | Some (name, port) \<Rightarrow> valid_name name \<and> list_all is_digit port)"

definition read_dsn :: "string \<Rightarrow> dsn_parts option" where
  "read_dsn s =
     (case cut_at CHR '':'' (takeWhile (\<lambda>c. c \<noteq> CHR ''#'') s) of None \<Rightarrow> None | Some (scheme, r) \<Rightarrow>
      case cut_prefix ''//'' r of None \<Rightarrow> None | Some r \<Rightarrow>
      case (case cut_at CHR ''?'' r of None \<Rightarrow> (r, []) | Some aq \<Rightarrow> aq) of (r, query) \<Rightarrow>
      case cut_last CHR ''@'' (takeWhile (\<lambda>c. c \<noteq> CHR ''/'') r) of None \<Rightarrow> None | Some (ui, host) \<Rightarrow>
      case read_userinfo ui of None \<Rightarrow> None | Some (user, pw) \<Rightarrow>
      case percent_decode (dropWhile (\<lambda>c. c \<noteq> CHR ''/'') r) of None \<Rightarrow> None | Some path \<Rightarrow>
      if \<not> valid_host host then None
      else Some \<lparr>dp_Scheme = scheme, dp_User = user, dp_Password = pw, dp_Host = host, dp_Path = path, dp_Query = query\<rparr>)"

section \<open>Facts\<close>

lemma cut_last_append: "c \<notin> set b \<Longrightarrow> cut_last c (a @ c # b) = Some (a, b)"
  by (simp add: cut_last_def cut_at_append)

lemma takeWhile_until: "c \<notin> set a \<Longrightarrow> takeWhile (\<lambda>x. x \<noteq> c) (a @ c # b) = a" "c \<notin> set a \<Longrightarrow> dropWhile (\<lambda>x. x \<noteq> c) (a @ c # b) = c # b"
  by (induction a) auto

lemma takeWhile_absent: "c \<notin> set a \<Longrightarrow> takeWhile (\<lambda>x. x \<noteq> c) a = a"
  by (induction a) auto

lemma read_userinfo_String: "read_userinfo (Userinfo_String (u, p)) = Some (u, p)"
proof -
  have "CHR '':'' \<notin> set (escape encodeUserPassword u)" using escape_userinfo_free [of u] by auto
  then show ?thesis by (simp add: read_userinfo_def Userinfo_String_def cut_at_append percent_decode_escape)
qed

lemma Userinfo_String_free: "set (Userinfo_String ui) \<inter> set ''@/?#'' = {}"
  using escape_userinfo_free [of "fst ui"] escape_userinfo_free [of "snd ui"] by (auto simp: Userinfo_String_def)

lemma read_assembled:
  assumes "set scheme \<inter> set '':#'' = {}" "set host \<inter> set ''%@/?#'' = {}"
    and "set path \<inter> set ''?#'' = {}" "percent_decode (CHR ''/'' # path) = Some p" "CHR ''#'' \<notin> set query"
  shows "read_dsn (scheme @ ''://'' @ Userinfo_String (user, pw) @ ''@'' @ host @ ''/'' @ path @ ''?'' @ query) =
    (if valid_host host
     then Some \<lparr>dp_Scheme = scheme, dp_User = user, dp_Password = pw, dp_Host = host, dp_Path = p, dp_Query = query\<rparr> else None)"
proof -
  let ?ui = "Userinfo_String (user, pw)"
  let ?a = "?ui @ CHR ''@'' # host"
  let ?r = "?a @ CHR ''/'' # path"
  let ?s = "scheme @ CHR '':'' # CHR ''/'' # CHR ''/'' # ?r @ CHR ''?'' # query"
  have ui: "CHR ''@'' \<notin> set ?ui" "CHR ''/'' \<notin> set ?ui" "CHR ''?'' \<notin> set ?ui" "CHR ''#'' \<notin> set ?ui"
    using Userinfo_String_free [of "(user, pw)"] by auto
  have "CHR ''#'' \<notin> set ?s" using assms ui by auto
  then have "takeWhile (\<lambda>c. c \<noteq> CHR ''#'') ?s = ?s" by (rule takeWhile_absent)
  moreover have "cut_at CHR '':'' ?s = Some (scheme, CHR ''/'' # CHR ''/'' # ?r @ CHR ''?'' # query)"
    using assms(1) by (intro cut_at_append) auto
  moreover have "cut_at CHR ''?'' (?r @ CHR ''?'' # query) = Some (?r, query)"
    using assms ui by (intro cut_at_append) auto
  moreover have a: "CHR ''/'' \<notin> set ?a" using assms(2) ui by auto
  moreover have "cut_last CHR ''@'' ?a = Some (?ui, host)" using assms(2) by (intro cut_last_append) auto
  moreover obtain z where "percent_decode path = Some z" "p = CHR ''/'' # z" using assms(4) by auto
  ultimately show ?thesis
    using assms(2) takeWhile_until [OF a, of path] by (simp add: read_dsn_def read_userinfo_String takeWhile_absent [OF assms(5)])
qed

text \<open>A name or address without colons and brackets, with a decimal port.\<close>

lemma valid_host_plain:
  assumes "\<forall>x \<in> set name. \<not> shouldEscape x encodeHost" "set name \<inter> set '':[]'' = {}" "list_all is_digit port"
  shows "valid_host (name @ '':'' @ port)"
proof -
  have "CHR '':'' \<notin> set port" using assms(3) by (auto simp: list_all_iff is_digit_def)
  moreover have "\<not> (name \<noteq> [] \<and> hd name = CHR ''['')" using assms(2) hd_in_set by fastforce
  ultimately show ?thesis using assms by (auto simp: valid_host_def valid_name_def cut_last_append list_all_iff)
qed

text \<open>The URL as one text; the path is kept as it is behind its first slash.\<close>

lemma DatabaseURL_text:
  assumes "cf_DBHost c \<noteq> []" "\<forall>x \<in> set (cf_DBHost c @ cf_DBPort c). \<not> shouldEscape x encodeHost"
  shows "DatabaseURL c = ''postgres'' @ ''://'' @ Userinfo_String (cf_DBUser c, cf_DBPassword c) @ ''@'' @
    (cf_DBHost c @ '':'' @ cf_DBPort c) @ ''/'' @ escape encodePath (cf_DBName c) @ ''?'' @ ''sslmode=disable''"
proof -
  have sl: "\<not> shouldEscape CHR ''/'' encodePath" "\<not> shouldEscape CHR '':'' encodeHost"
    by (simp_all add: shouldEscape_def url_alnum_def)
  with assms(2) have "escape encodeHost (cf_DBHost c @ '':'' @ cf_DBPort c) = cf_DBHost c @ '':'' @ cf_DBPort c"
    by (intro escape_plain) auto
  with assms(1) sl show ?thesis
    by (simp add: DatabaseURL_def URL_String_def EscapedPath_def escape_Cons)
qed

lemma getduration_bound:
  "- (2 ^ 63) \<le> fallback \<Longrightarrow> fallback < 2 ^ 63 \<Longrightarrow> - (2 ^ 63) \<le> getduration env k fallback \<and> getduration env k fallback < 2 ^ 63"
  using ParseDuration_bound by (auto simp: getduration_def split: option.splits)

section \<open>Properties\<close>

text \<open>
  C28. The database URL says what was configured: for a host and port of characters that a
  host may have, and for any bytes whatever in user name, password and database name, a
  driver that can read the host and port at all reads back exactly these parts, and
  \<^verbatim>\<open>sslmode=disable\<close>; it can, if the port is decimal and the host has no colons and brackets.
  The migration driver gets the same parts under its own scheme.
\<close>

theorem database_url_round_trip:
  assumes "cf_DBHost c \<noteq> []" "\<forall>x \<in> set (cf_DBHost c @ cf_DBPort c). \<not> shouldEscape x encodeHost"
  shows "read_dsn (DatabaseURL c) =
      (if valid_host (cf_DBHost c @ '':'' @ cf_DBPort c)
       then Some \<lparr>dp_Scheme = ''postgres'', dp_User = cf_DBUser c, dp_Password = cf_DBPassword c,
         dp_Host = cf_DBHost c @ '':'' @ cf_DBPort c, dp_Path = ''/'' @ cf_DBName c, dp_Query = ''sslmode=disable''\<rparr>
       else None) \<and>
    read_dsn (migrateDSN (DatabaseURL c)) =
      (if valid_host (cf_DBHost c @ '':'' @ cf_DBPort c)
       then Some \<lparr>dp_Scheme = ''pgx5'', dp_User = cf_DBUser c, dp_Password = cf_DBPassword c,
         dp_Host = cf_DBHost c @ '':'' @ cf_DBPort c, dp_Path = ''/'' @ cf_DBName c, dp_Query = ''sslmode=disable''\<rparr>
       else None) \<and>
    (list_all is_digit (cf_DBPort c) \<and> set (cf_DBHost c) \<inter> set '':[]'' = {} \<longrightarrow>
       valid_host (cf_DBHost c @ '':'' @ cf_DBPort c))"
proof -
  let ?host = "cf_DBHost c @ '':'' @ cf_DBPort c" and ?path = "escape encodePath (cf_DBName c)"
  let ?rest = "Userinfo_String (cf_DBUser c, cf_DBPassword c) @ ''@'' @ ?host @ ''/'' @ ?path @ ''?'' @ ''sslmode=disable''"
  note url = DatabaseURL_text [OF assms]
  have "\<forall>x \<in> set ''%@/?#''. shouldEscape x encodeHost" by (simp add: shouldEscape_def url_alnum_def)
  moreover have "\<forall>x \<in> set ?host. \<not> shouldEscape x encodeHost"
    using assms(2) by (auto simp: shouldEscape_def)
  ultimately have host: "set ?host \<inter> set ''%@/?#'' = {}" by blast
  have path: "set ?path \<inter> set ''?#'' = {}" by (rule escape_path_free)
  have dec: "percent_decode (CHR ''/'' # ?path) = Some (CHR ''/'' # cf_DBName c)" by (simp add: percent_decode_escape)
  have parts: "read_dsn (sch @ ''://'' @ ?rest) =
      (if valid_host ?host
       then Some \<lparr>dp_Scheme = sch, dp_User = cf_DBUser c, dp_Password = cf_DBPassword c, dp_Host = ?host,
         dp_Path = CHR ''/'' # cf_DBName c, dp_Query = ''sslmode=disable''\<rparr> else None)" if "set sch \<inter> set '':#'' = {}" for sch
    by (rule read_assembled [OF that host path dec]) simp
  have "migrateDSN (DatabaseURL c) = ''pgx5'' @ ''://'' @ ?rest" by (simp only: url migrateDSN_def) simp
  moreover have "list_all is_digit (cf_DBPort c) \<and> set (cf_DBHost c) \<inter> set '':[]'' = {} \<longrightarrow> valid_host ?host"
    using valid_host_plain [of "cf_DBHost c" "cf_DBPort c"] assms(2) by simp
  ultimately show ?thesis using url parts [of "''postgres''"] parts [of "''pgx5''"] by simp
qed

theorem database_url_round_trip_witness:
  "read_dsn (DatabaseURL (Load (\<lambda>k. if k = ''CCC_DB_HOST'' then ''postgres'' else if k = ''CCC_DB_PASSWORD'' then ''p@ss/word'' else []))) =
     Some \<lparr>dp_Scheme = ''postgres'', dp_User = ''ccc'', dp_Password = ''p@ss/word'', dp_Host = ''postgres:5432'',
       dp_Path = ''/account'', dp_Query = ''sslmode=disable''\<rparr>"
proof -
  let ?c = "Load (\<lambda>k. if k = ''CCC_DB_HOST'' then ''postgres'' else if k = ''CCC_DB_PASSWORD'' then ''p@ss/word'' else [])"
  have "cf_DBHost ?c = ''postgres''" "cf_DBPort ?c = ''5432''" "cf_DBUser ?c = ''ccc''" "cf_DBPassword ?c = ''p@ss/word''"
    "cf_DBName ?c = ''account''" by (simp_all add: Load_def getenv_def)
  moreover have "list_all is_digit ''5432''" by (simp add: is_digit_def)
  ultimately show ?thesis using database_url_round_trip [of ?c] by (simp add: shouldEscape_def url_alnum_def)
qed

text \<open>
  C29. The refresh lifetime: a whole number of any unit is taken as it is as long as it fits a
  \<^verbatim>\<open>time.Duration\<close>, an unset or malformed variable means thirty days, and whatever the variable
  holds the lifetime fits 64 bits.
\<close>

theorem load_refresh_ttl:
  "(map_of unitMap u = Some k \<and> n * k < 2 ^ 63 \<and> env ''CCC_REFRESH_TTL'' = show_nat n @ u \<longrightarrow>
      cf_RefreshTTL (Load env) = int (n * k)) \<and>
   (env ''CCC_REFRESH_TTL'' = [] \<or> ParseDuration (env ''CCC_REFRESH_TTL'') = None \<longrightarrow>
      cf_RefreshTTL (Load env) = 2592000 * Second) \<and>
   - (2 ^ 63) \<le> cf_RefreshTTL (Load env) \<and> cf_RefreshTTL (Load env) < 2 ^ 63"
proof -
  have "- (2 ^ 63) \<le> (30 * 24 * Hour :: duration)" "(30 * 24 * Hour :: duration) < 2 ^ 63" by (simp_all add: duration_units)
  from getduration_bound [OF this, of env "''CCC_REFRESH_TTL''"] show ?thesis
    using ParseDuration_unit [of u k n] unitMap_facts(1) [of u k]
    by (auto simp: Load_def getduration_def duration_units)
qed

theorem load_refresh_ttl_witness:
  "cf_RefreshTTL (Load (\<lambda>k. if k = ''CCC_REFRESH_TTL'' then show_nat 12 @ ''h'' else [])) = 12 * Hour"
proof -
  have "map_of unitMap ''h'' = Some 3600000000000" by (simp add: unitMap_def)
  with load_refresh_ttl [of "''h''" 3600000000000 12 "\<lambda>k. if k = ''CCC_REFRESH_TTL'' then show_nat 12 @ ''h'' else []"]
  show ?thesis by (simp add: duration_units)
qed

end
