(* ===== verification/Startup.thy ===== *)
theory Startup
  imports Config Http_Routes Postgres_Store
begin

text \<open>
  \<^verbatim>\<open>cmd/account-service/main.go\<close> and \<^verbatim>\<open>internal/store/migrate.go\<close>: how the process is put
  together from its environment, the operations listener with its health and readiness
  checks, and the end of the process. The migration library and the connection pool are not
  part of the repository: the record \<open>driver\<close> holds what they answer. A server is its address
  and its handler; the time between start and end is a sequence of requests to either
  server.
\<close>

section \<open>Migrate\<close>

datatype up_result = UpDone | UpNoChange | UpFailed

record driver =
  dr_source :: "err option"
  dr_instance :: "string \<Rightarrow> err option"
  dr_up :: "Pg \<Rightarrow> up_result \<times> Pg"
  dr_pool_New :: "string \<Rightarrow> err + string"
  dr_pool_Ping :: "string \<Rightarrow> err option"

definition Migrate :: "driver \<Rightarrow> string \<Rightarrow> (Pg, unit) io" where
  "Migrate D dsn w =
     (if dr_source D \<noteq> None then (Inl (Other ''load embedded migrations''), w)
      else if dr_instance D (migrateDSN dsn) \<noteq> None then (Inl (Other ''init migrations''), w)
      else case dr_up D (db w) of (r, d) \<Rightarrow>
        (if r = UpFailed then Inl (Other ''apply migrations'') else Inr (), w\<lparr>db := d\<rparr>))"

section \<open>The operations listener\<close>

definition plain_ok :: response where
  "plain_ok = \<lparr>rs_Status = 200, rs_Header = [(''Content-Type'', ''text/plain; charset=utf-8'')], rs_Body = TextBody ''ok''\<rparr>"

definition handle_healthz :: "'d world \<Rightarrow> Http_Message.outcome \<times> 'd world" where
  "handle_healthz w = (Reply plain_ok, w)"

definition handle_readyz :: "'d Store option \<Rightarrow> 'd world \<Rightarrow> Http_Message.outcome \<times> 'd world" where
  "handle_readyz st w =
     (case st of
        None \<Rightarrow> (Reply plain_ok, w)
      | Some s \<Rightarrow>
          (case st_Ping s w of
             (Inl e, w1) \<Rightarrow> (reply_err e (http_Error [] ''database unreachable'' 503), w1)
           | (Inr _, w1) \<Rightarrow> (Reply plain_ok, w1)))"

definition ops_ServeHTTP :: "'d Store option \<Rightarrow> http_request \<Rightarrow> 'd world \<Rightarrow> Http_Message.outcome \<times> 'd world" where
  "ops_ServeHTTP st r w =
     (let path = (if rq_Method r = ''CONNECT'' then rq_Path r else cleanPath (rq_Path r));
          segs = path_segs path in
      if path \<noteq> rq_Path r then (Redirected, w)
      else if segs \<noteq> [''healthz''] \<and> segs \<noteq> [''readyz'']
      then (no_body r (Reply (http_Error [] ''404 page not found'' 404)), w)
      else if \<not> method_matches ''GET'' (rq_Method r)
      then (no_body r (Reply (http_Error [(''Allow'', ''GET, HEAD'')] ''Method Not Allowed'' 405)), w)
      else case (if segs = [''healthz''] then handle_healthz w else handle_readyz st w) of
        (out, w1) \<Rightarrow> (no_body r out, w1))"

section \<open>Putting the process together\<close>

datatype 'd http_handler = Rest "'d Server" rateLimiter rateLimiter | Ops "'d Store option"

record 'd http_server =
  hs_Addr :: string
  hs_Handler :: "'d http_handler"
  hs_ReadHeaderTimeout :: duration

text \<open>The store: none without a database host.\<close>

definition open_store :: "driver \<Rightarrow> (string \<Rightarrow> string) \<Rightarrow> Config \<Rightarrow> (Pg, Pg Store option) io" where
  "open_store D ci cfg w =
     (let dsn = DatabaseURL cfg in
      if dsn = [] then
        (Inr None, log_event Warn ''no database configured (CCC_DB_HOST empty); running in skeleton mode'' [] w)
      else case Migrate D dsn w of
        (Inl e, w1) \<Rightarrow> (Inl e, w1)
      | (Inr _, w1) \<Rightarrow>
          (case Connect (dr_pool_New D) (dr_pool_Ping D) dsn of
             (Inl e, _) \<Rightarrow> (Inl e, w1)
           | (Inr _, _) \<Rightarrow>
               (Inr (Some (Pg_Store ci)),
                log_event Info ''database connected, migrations applied''
                  [(''host'', LogStr (cf_DBHost cfg)), (''database'', LogStr (cf_DBName cfg))] w1)))"

text \<open>The REST server: none without a store or without a signing key.\<close>

definition rest_server :: "'x ext_scheme \<Rightarrow> Config \<Rightarrow> 'd Store \<Rightarrow> ('d, 'd http_server) io" where
  "rest_server E cfg st w =
     (case ParseSigningSeed (cf_JWTSigningKey cfg) of
        Inl e \<Rightarrow> (Inl e, w)
      | Inr seed \<Rightarrow>
          (case NewTokenIssuer E seed DefaultAccessTokenTTL of
             Inl e \<Rightarrow> (Inl e, w)
           | Inr issuer \<Rightarrow>
               (let svc = Service_New st (NewHasher DefaultParams 4) issuer (cf_RefreshTTL cfg) in
                case Bootstrap E svc (cf_BootstrapAdmin cfg) (cf_BootstrapAdminPassword cfg) w of
                  (Inl e, w1) \<Rightarrow> (Inl e, w1)
                | (Inr _, w1) \<Rightarrow>
                    (case New svc issuer \<lparr>sc_BasePath = cf_HTTPBasePath cfg, sc_CookieSecure = cf_CookieSecure cfg,
                              sc_RefreshTTL = cf_RefreshTTL cfg\<rparr> w1 of
                       (srv, sv) \<Rightarrow>
                         (Inr \<lparr>hs_Addr = cf_HTTPAddr cfg, hs_Handler = Rest srv (sv_login sv) (sv_refresh sv),
                               hs_ReadHeaderTimeout = 5 * Second\<rparr>,
                          log_event Info ''REST API enabled''
                            [(''addr'', LogStr (cf_HTTPAddr cfg)), (''base_path'', LogStr (cf_HTTPBasePath cfg))]
                            (sv_world sv))))))"

definition rest_servers :: "'x ext_scheme \<Rightarrow> Config \<Rightarrow> 'd Store option \<Rightarrow> ('d, 'd http_server list) io" where
  "rest_servers E cfg st w =
     (case st of
        None \<Rightarrow> (Inr [], w)
      | Some s \<Rightarrow>
          if cf_JWTSigningKey cfg = [] then
            (Inr [], log_event Warn ''no signing key configured (CCC_JWT_SIGNING_KEY empty); REST API disabled'' [] w)
          else case rest_server E cfg s w of
            (Inl e, w1) \<Rightarrow> (Inl e, w1)
          | (Inr srv, w1) \<Rightarrow> (Inr [srv], w1))"

definition start_up :: "'x ext_scheme \<Rightarrow> driver \<Rightarrow> (string \<Rightarrow> string) \<Rightarrow> Config \<Rightarrow> (Pg, Pg http_server list) io" where
  "start_up E D ci cfg w =
     (case open_store D ci cfg w of
        (Inl e, w1) \<Rightarrow> (Inl e, w1)
      | (Inr st, w1) \<Rightarrow>
          (case rest_servers E cfg st w1 of
             (Inl e, w2) \<Rightarrow> (Inl e, w2)
           | (Inr servers, w2) \<Rightarrow>
               (Inr (servers @ [\<lparr>hs_Addr = cf_OpsAddr cfg, hs_Handler = Ops st, hs_ReadHeaderTimeout = 5 * Second\<rparr>]), w2)))"

section \<open>Serving\<close>

text \<open>A request to the server with that index.\<close>

definition deliver :: "'x ext_scheme \<Rightarrow> nat \<Rightarrow> http_request \<Rightarrow> 'd http_server list \<times> 'd world \<Rightarrow> 'd http_server list \<times> 'd world" where
  "deliver E i r sw =
     (case sw of (servers, w) \<Rightarrow>
        if i < length servers then
          (case hs_Handler (servers ! i) of
             Ops st \<Rightarrow> (servers, snd (ops_ServeHTTP st r w))
           | Rest srv ll rl \<Rightarrow>
               (case snd (ServeHTTP E srv r \<lparr>sv_world = w, sv_login = ll, sv_refresh = rl\<rparr>) of sv \<Rightarrow>
                  (servers[i := (servers ! i)\<lparr>hs_Handler := Rest srv (sv_login sv) (sv_refresh sv)\<rparr>], sv_world sv)))
        else sw)"

fun deliver_all :: "'x ext_scheme \<Rightarrow> (nat \<times> http_request) list \<Rightarrow> 'd http_server list \<times> 'd world \<Rightarrow> 'd http_server list \<times> 'd world" where
  "deliver_all E [] sw = sw"
| "deliver_all E ((i, r) # rs) sw = deliver_all E rs (deliver E i r sw)"

section \<open>The end of the process\<close>

text \<open>
  What the \<^verbatim>\<open>select\<close> sees first: the signal, or the result of a listener's
  \<^verbatim>\<open>ListenAndServe\<close>. The result is the error of \<^verbatim>\<open>run\<close>, and how many servers were shut down.
\<close>

datatype listen_result = ListenNil | ServerClosed | ListenFailed err

datatype run_event = GotSignal | Listened listen_result

definition finish :: "run_event \<Rightarrow> 'd http_server list \<Rightarrow> 'd world \<Rightarrow> (err option \<times> 'd http_server list) \<times> 'd world" where
  "finish ev servers w =
     (case ev of
        Listened (ListenFailed e) \<Rightarrow> ((Some e, []), w)
      | Listened _ \<Rightarrow> ((None, servers), log_event Info ''stopped'' [] w)
      | GotSignal \<Rightarrow> ((None, servers), log_event Info ''stopped'' [] (log_event Info ''shutdown signal received'' [] w)))"

text \<open>
  \<^verbatim>\<open>run\<close>, with the order in which the goroutines of the listeners log their start, the
  requests that arrive and the event that ends the wait.
\<close>

definition start_logs :: "'d http_server list \<Rightarrow> nat list \<Rightarrow> 'd world \<Rightarrow> 'd world" where
  "start_logs servers order w =
     fold (\<lambda>i. log_event Info ''listener starting'' [(''addr'', LogStr (hs_Addr (servers ! i)))])
       (filter (\<lambda>i. i < length servers) order) w"

definition run :: "'x ext_scheme \<Rightarrow> driver \<Rightarrow> (string \<Rightarrow> string) \<Rightarrow> environment \<Rightarrow> nat list \<Rightarrow>
    (nat \<times> http_request) list \<Rightarrow> run_event \<Rightarrow> Pg world \<Rightarrow> (err option \<times> Pg http_server list) \<times> Pg world" where
  "run E D ci env order rs ev w =
     (case start_up E D ci (Load env) w of
        (Inl e, w1) \<Rightarrow> ((Some e, []), w1)
      | (Inr servers, w1) \<Rightarrow>
          (case deliver_all E rs (servers, start_logs servers order w1) of
             (servers', w2) \<Rightarrow> finish ev servers' w2))"

text \<open>\<^verbatim>\<open>main\<close>: the exit status.\<close>

definition main :: "'x ext_scheme \<Rightarrow> driver \<Rightarrow> (string \<Rightarrow> string) \<Rightarrow> environment \<Rightarrow> nat list \<Rightarrow>
    (nat \<times> http_request) list \<Rightarrow> run_event \<Rightarrow> Pg world \<Rightarrow> int \<times> Pg world" where
  "main E D ci env order rs ev w =
     (case run E D ci env order rs ev w of
        ((Some e, _), w1) \<Rightarrow> (1, log_event Error ''fatal'' [(''error'', LogErr e)] w1)
      | ((None, _), w1) \<Rightarrow> (0, w1))"

section \<open>Facts\<close>

lemma Migrate_frame: "Migrate D dsn w = (r, w') \<Longrightarrow> w' = w \<or> w' = w\<lparr>db := snd (dr_up D (db w))\<rparr>"
  by (auto simp: Migrate_def split: if_splits prod.splits)

lemma DatabaseURL_empty: "DatabaseURL cfg = [] \<longleftrightarrow> cf_DBHost cfg = []"
  by (simp add: DatabaseURL_def URL_String_def)

lemma open_store_result:
  "open_store D ci cfg w = (Inr st, w') \<Longrightarrow> st = (if cf_DBHost cfg = [] then None else Some (Pg_Store ci))"
  by (auto simp: open_store_def Let_def DatabaseURL_empty split: if_splits prod.splits sum.splits)

text \<open>The database, after the migrations or not.\<close>

lemma open_store_frame:
  assumes "open_store D ci cfg w = (r, w')"
  shows "entropy w' = entropy w" "uuids w' = uuids w" "clock w' = clock w"
    "db w' = db w \<or> db w' = snd (dr_up D (db w))"
  using assms Migrate_frame [of D "DatabaseURL cfg" w]
  by (auto simp: open_store_def Let_def split: if_splits prod.splits sum.splits)

lemma rest_server_result:
  assumes "rest_server E cfg st w = (Inr srv, w')"
  obtains seed issuer svc w1 s sv where "ParseSigningSeed (cf_JWTSigningKey cfg) = Inr seed"
    "NewTokenIssuer E seed DefaultAccessTokenTTL = Inr issuer"
    "svc = Service_New st (NewHasher DefaultParams 4) issuer (cf_RefreshTTL cfg)"
    "Bootstrap E svc (cf_BootstrapAdmin cfg) (cf_BootstrapAdminPassword cfg) w = (Inr (), w1)"
    "New svc issuer \<lparr>sc_BasePath = cf_HTTPBasePath cfg, sc_CookieSecure = cf_CookieSecure cfg,
       sc_RefreshTTL = cf_RefreshTTL cfg\<rparr> w1 = (s, sv)"
    "srv = \<lparr>hs_Addr = cf_HTTPAddr cfg, hs_Handler = Rest s (sv_login sv) (sv_refresh sv), hs_ReadHeaderTimeout = 5 * Second\<rparr>"
    "db w' = db (sv_world sv)" "entropy w' = entropy (sv_world sv)" "uuids w' = uuids (sv_world sv)"
  using assms by (auto simp: rest_server_def Let_def split: prod.splits sum.splits)

lemma start_logs_fields [simp]:
  "db (start_logs servers order w) = db w" "clock (start_logs servers order w) = clock w"
proof -
  have "db (fold (\<lambda>i. log_event Info m (f i)) xs w) = db w \<and> clock (fold (\<lambda>i. log_event Info m (f i)) xs w) = clock w" for m and f :: "nat \<Rightarrow> _" and xs
    by (induction xs arbitrary: w) auto
  then show "db (start_logs servers order w) = db w" "clock (start_logs servers order w) = clock w"
    by (simp_all add: start_logs_def)
qed

lemma finish_db [simp]: "db (snd (finish ev servers w)) = db w"
  by (simp add: finish_def split: run_event.splits listen_result.splits)

end
