(* ===== verification/Startup_Theorems.thy ===== *)
theory Startup_Theorems
  imports Http_Theorems Startup
begin

text \<open>
  The process as a whole: what it serves for which configuration, that the tables stay
  consistent from its start to its end, its health checks, and the first login on a new
  installation.
\<close>

section \<open>The driver\<close>

text \<open>
  What the migrations do to a database whose tables satisfy the schema: a set that is applied
  already is a no-op (and on a new database the tables are created, empty).
\<close>

definition migrations_ok :: "(string \<Rightarrow> string) \<Rightarrow> driver \<Rightarrow> bool" where
  "migrations_ok ci D \<longleftrightarrow>
     (\<forall>p. pg_inv ci p \<longrightarrow> pg_inv ci (snd (dr_up D p)) \<and> pg_view (snd (dr_up D p)) = pg_view p)"

text \<open>A database that can be reached and whose server answers.\<close>

definition reachable_db :: "(string \<Rightarrow> string) \<Rightarrow> driver \<Rightarrow> bool" where
  "reachable_db ci D \<longleftrightarrow> dr_source D = None \<and> (\<forall>dsn. dr_instance D dsn = None) \<and>
     (\<forall>p. fst (dr_up D p) \<noteq> UpFailed \<and> (pg_sound ci p \<longrightarrow> pg_sound ci (snd (dr_up D p)))) \<and>
     (\<forall>dsn. \<exists>pool. dr_pool_New D dsn = Inr pool \<and> dr_pool_Ping D pool = None)"

definition demo_driver :: driver where
  "demo_driver = \<lparr>dr_source = None, dr_instance = (\<lambda>_. None), dr_up = (\<lambda>p. (UpNoChange, p)),
     dr_pool_New = Inr, dr_pool_Ping = (\<lambda>_. None)\<rparr>"

lemma demo_driver_ok: "migrations_ok ci demo_driver" "reachable_db ci demo_driver"
  by (simp_all add: migrations_ok_def reachable_db_def demo_driver_def)

section \<open>Every step is safe\<close>

lemma open_store_safe:
  assumes "migrations_ok ci D" "pg_inv ci (db w)" "open_store D ci cfg w = (r, w')"
  shows "pg_inv ci (db w')" "pg_view (db w') = pg_view (db w)"
  using open_store_frame(4) [OF assms(3)] assms(1,2) by (auto simp: migrations_ok_def)

lemma rest_server_safe:
  assumes "pg_inv ci (db w)" "rest_server E cfg (Pg_Store ci) w = (r, w')"
  shows "safe pg_view (pg_inv ci) w w'"
proof -
  have boot: "safe pg_view (pg_inv ci) w w1"
    if "Bootstrap E (Service_New (Pg_Store ci) h t d) u p w = (r1, w1)" for h t d u p r1 w1
    using pg.Bootstrap_law(1) [OF _ assms(1) _ that] by simp
  have id: "safe pg_view (pg_inv ci) w w" using assms(1) by (rule pg.safe_refl)
  have new: "safe pg_view (pg_inv ci) w w1 \<Longrightarrow> New svc t c w1 = (s, sv) \<Longrightarrow>
      safe pg_view (pg_inv ci) w (log_event lv m as (sv_world sv))" for w1 svc t c s sv lv m as
    using New_fields(3) by (fastforce simp: safe_def)
  from assms(2) id show ?thesis
    by (auto simp: rest_server_def Let_def split: sum.splits prod.splits dest!: boot intro: new)
qed

lemma rest_servers_safe:
  assumes "pg_inv ci (db w)" "st = None \<or> st = Some (Pg_Store ci)" "rest_servers E cfg st w = (r, w')"
  shows "safe pg_view (pg_inv ci) w w'"
proof -
  have "safe pg_view (pg_inv ci) w w" "safe pg_view (pg_inv ci) w (log_event lv m as w)" for lv m as
    using pg.safe_refl [of ci w] assms(1) by (simp_all add: safe_def)
  with assms(2,3) show ?thesis
    by (auto simp: rest_servers_def split: if_splits sum.splits prod.splits dest!: rest_server_safe [OF assms(1)])
qed

lemma start_up_safe:
  assumes "migrations_ok ci D" "pg_inv ci (db w)" "start_up E D ci cfg w = (r, w')"
  shows "safe pg_view (pg_inv ci) w w'"
proof -
  obtain r1 w1 where op: "open_store D ci cfg w = (r1, w1)" by fastforce
  note s1 = open_store_safe [OF assms(1,2) op]
  have "safe pg_view (pg_inv ci) w1 w1" using s1(1) by (rule pg.safe_refl)
  then have "safe pg_view (pg_inv ci) w1 w'"
    using assms(3) op open_store_result [of D ci cfg w _ w1]
    by (auto simp: start_up_def split: sum.splits prod.splits if_splits dest!: rest_servers_safe [OF s1(1), rotated])
  then show ?thesis by (simp add: safe_def s1(2))
qed

text \<open>The servers stand on the PostgreSQL store, and requests do not change that.\<close>

definition on_store :: "(string \<Rightarrow> string) \<Rightarrow> Pg http_server \<Rightarrow> bool" where
  "on_store ci srv \<longleftrightarrow>
     (case hs_Handler srv of
        Rest s ll rl \<Rightarrow> s_store (srv_svc s) = Pg_Store ci
      | Ops st \<Rightarrow> st = None \<or> st = Some (Pg_Store ci))"

lemma start_up_on_store:
  assumes "start_up E D ci cfg w = (Inr servers, w')"
  shows "\<forall>srv \<in> set servers. on_store ci srv"
proof -
  obtain st w1 rs where op: "open_store D ci cfg w = (Inr st, w1)" and rs: "rest_servers E cfg st w1 = (Inr rs, w')"
    and servers: "servers = rs @ [\<lparr>hs_Addr = cf_OpsAddr cfg, hs_Handler = Ops st, hs_ReadHeaderTimeout = 5 * Second\<rparr>]"
    using assms by (auto simp: start_up_def split: sum.splits prod.splits)
  have st: "st = None \<or> st = Some (Pg_Store ci)" using open_store_result [OF op] by (auto split: if_splits)
  have rest: "on_store ci srv" if "rest_server E cfg (Pg_Store ci) w1 = (Inr srv, w2)" for srv w2
    using that by (elim rest_server_result) (auto simp: on_store_def New_fields)
  have "\<forall>srv \<in> set rs. on_store ci srv"
    using rs st rest by (auto simp: rest_servers_def split: if_splits sum.splits prod.splits)
  with st servers show ?thesis by (auto simp: on_store_def)
qed

lemma Pg_Ping_safe: "pg_inv ci (db w) \<Longrightarrow> Pg_Ping w = (r, w') \<Longrightarrow>
    pg_inv ci (db w') \<and> pg_view (db w') = pg_view (db w) \<and> (\<forall>e. r = Inl e \<longrightarrow> \<not> abrupt e)"
  by (auto simp: Pg_Ping_def pg_exec_def pg_tick_def Let_def pg_inv_def pg_view_def split: Postgres_Store.outcome.splits)

lemma ops_safe:
  assumes "pg_inv ci (db w)" "st = None \<or> st = Some (Pg_Store ci)" "ops_ServeHTTP st r w = (out, w')"
  shows "pg_inv ci (db w') \<and> pg_view (db w') = pg_view (db w)"
proof -
  have "pg_inv ci (db w2) \<and> pg_view (db w2) = pg_view (db w)" if "handle_readyz st w = (o2, w2)" for o2 w2
    using that assms(1,2) by (auto simp: handle_readyz_def pg_sel split: sum.splits prod.splits dest: Pg_Ping_safe [OF assms(1)])
  with assms(1,3) show ?thesis
    by (auto simp: ops_ServeHTTP_def handle_healthz_def Let_def split: if_splits prod.splits)
qed

lemma deliver_safe:
  assumes "pg_inv ci (db w)" "linked (pg_view (db w))" "\<forall>srv \<in> set servers. on_store ci srv"
    and "deliver E i r (servers, w) = (servers', w')"
  shows "safe pg_view (pg_inv ci) w w' \<and> (\<forall>srv \<in> set servers'. on_store ci srv)"
proof (cases "i < length servers")
  case False
  then show ?thesis using assms by (auto simp: deliver_def pg.safe_refl)
next
  case True
  then have on: "on_store ci (servers ! i)" using assms(3) by simp
  show ?thesis
  proof (cases "hs_Handler (servers ! i)")
    case (Ops st)
    obtain out w2 where ops: "ops_ServeHTTP st r w = (out, w2)" by fastforce
    have "pg_inv ci (db w2) \<and> pg_view (db w2) = pg_view (db w)"
      using ops_safe [OF assms(1) _ ops] on Ops by (simp add: on_store_def)
    moreover have "servers' = servers" "w' = w2" using assms(4) True Ops ops by (simp_all add: deliver_def)
    ultimately show ?thesis using pg.safe_refl [of ci w] assms(1,3) by (simp add: safe_def)
  next
    case (Rest s ll rl)
    define sv where "sv = snd (ServeHTTP E s r \<lparr>sv_world = w, sv_login = ll, sv_refresh = rl\<rparr>)"
    have run: "servers' = servers[i := (servers ! i)\<lparr>hs_Handler := Rest s (sv_login sv) (sv_refresh sv)\<rparr>]" "w' = sv_world sv"
      using assms(4) True Rest by (simp_all add: deliver_def sv_def Let_def)
    have "ready pg_view (pg_inv ci) (\<lambda>_ _. True) (\<lambda>_ _ _. True) E w"
      using assms(1,2) by (simp add: ready_def demo_fresh_any)
    with on Rest have "safe pg_view (pg_inv ci) w (sv_world sv)"
      using pg.ServeHTTP_law(1) [of s ci E "\<lparr>sv_world = w, sv_login = ll, sv_refresh = rl\<rparr>" r]
      by (simp add: on_store_def sv_def)
    moreover have "on_store ci ((servers ! i)\<lparr>hs_Handler := Rest s (sv_login sv) (sv_refresh sv)\<rparr>)"
      using on Rest by (simp add: on_store_def)
    ultimately show ?thesis using run assms(3) set_update_subset_insert [of servers i] by fastforce
  qed
qed

lemma deliver_all_safe:
  assumes "pg_inv ci (db w)" "linked (pg_view (db w))" "\<forall>srv \<in> set servers. on_store ci srv"
    and "deliver_all E rs (servers, w) = (servers', w')"
  shows "safe pg_view (pg_inv ci) w w' \<and> linked (pg_view (db w'))"
  using assms
proof (induction rs arbitrary: servers w)
  case Nil
  then show ?case by (simp add: pg.safe_refl)
next
  case (Cons ir rs)
  obtain i r where ir: "ir = (i, r)" by fastforce
  obtain servers1 w1 where d: "deliver E i r (servers, w) = (servers1, w1)" by fastforce
  note d1 = deliver_safe [OF Cons.prems(1-3) d]
  have "safe pg_view (pg_inv ci) w1 w' \<and> linked (pg_view (db w'))"
    using Cons.prems d1 d ir by (intro Cons.IH) (auto intro: pg.safe_iv pg.safe_linked)
  with d1 show ?case by (auto intro: pg.safe_trans)
qed

section \<open>What is served\<close>

text \<open>
  C32. The modes of the service: a start that succeeds serves the operations listener, last and
  on its own address, and before it the REST API exactly when both a database host and a
  signing key are configured; the readiness check then watches the store. With the API, the
  key is the base64 form of 32 bytes, tokens live for ten minutes, four passwords are hashed
  at a time, and base path, cookie attribute and lifetime are the configured ones.
\<close>

theorem startup_servers:
  assumes "start_up E D ci cfg w = (Inr servers, w')"
  shows "last servers = \<lparr>hs_Addr = cf_OpsAddr cfg,
      hs_Handler = Ops (if cf_DBHost cfg = [] then None else Some (Pg_Store ci)), hs_ReadHeaderTimeout = 5 * Second\<rparr> \<and>
    (if cf_DBHost cfg = [] \<or> cf_JWTSigningKey cfg = [] then length servers = 1
     else length servers = 2 \<and> hs_Addr (hd servers) = cf_HTTPAddr cfg \<and>
       (\<exists>seed issuer s ll rl. ParseSigningSeed (cf_JWTSigningKey cfg) = Inr seed \<and> length seed = 32 \<and>
          NewTokenIssuer E seed DefaultAccessTokenTTL = Inr issuer \<and> ti_ttl issuer = 10 * Minute \<and>
          hs_Handler (hd servers) = Rest s ll rl \<and> srv_tokens s = issuer \<and>
          srv_svc s = Service_New (Pg_Store ci) (NewHasher DefaultParams 4) issuer (cf_RefreshTTL cfg) \<and>
          srv_cfg s = \<lparr>sc_BasePath = trim_suffix (cf_HTTPBasePath cfg) ''/'', sc_CookieSecure = cf_CookieSecure cfg,
            sc_RefreshTTL = cf_RefreshTTL cfg\<rparr>))"
proof -
  obtain st w1 rs where op: "open_store D ci cfg w = (Inr st, w1)" and rs: "rest_servers E cfg st w1 = (Inr rs, w')"
    and servers: "servers = rs @ [\<lparr>hs_Addr = cf_OpsAddr cfg, hs_Handler = Ops st, hs_ReadHeaderTimeout = 5 * Second\<rparr>]"
    using assms by (auto simp: start_up_def split: sum.splits prod.splits)
  note st = open_store_result [OF op]
  show ?thesis
  proof (cases "cf_DBHost cfg = [] \<or> cf_JWTSigningKey cfg = []")
    case True
    with rs st have "rs = []" by (auto simp: rest_servers_def split: if_splits)
    with True servers st show ?thesis by simp
  next
    case False
    with rs st obtain srv where srv: "rest_server E cfg (Pg_Store ci) w1 = (Inr srv, w')" "rs = [srv]"
      by (auto simp: rest_servers_def split: sum.splits prod.splits)
    from srv(1) show ?thesis
    proof (cases rule: rest_server_result)
      case (1 seed issuer svc w2 s sv)
      have "srv_svc s = svc" "srv_tokens s = issuer" "srv_cfg s = \<lparr>sc_BasePath = trim_suffix (cf_HTTPBasePath cfg) ''/'',
          sc_CookieSecure = cf_CookieSecure cfg, sc_RefreshTTL = cf_RefreshTTL cfg\<rparr>"
        using 1(5) by (auto simp: New_def split: prod.splits)
      moreover have "length seed = 32" "ti_ttl issuer = 10 * Minute"
        using NewTokenIssuer_Inr [OF 1(2)] by (simp_all add: DefaultAccessTokenTTL_def duration_units)
      ultimately show ?thesis using False 1(1-3,6) srv(2) st servers by simp
    qed
  qed
qed

theorem startup_servers_witness:
  "\<exists>servers w'. start_up toy_ext demo_driver id (Load (\<lambda>k. [])) (demo_world demo_pg) = (Inr servers, w') \<and>
     length servers = 1 \<and> hs_Handler (last servers) = Ops None"
proof -
  have cfg: "cf_DBHost (Load (\<lambda>k. [])) = []" by (simp add: Load_def getenv_def)
  obtain servers w' where run: "start_up toy_ext demo_driver id (Load (\<lambda>k. [])) (demo_world demo_pg) = (Inr servers, w')"
    by (simp add: start_up_def open_store_def DatabaseURL_empty cfg rest_servers_def)
  from startup_servers [OF run] run show ?thesis by (simp add: cfg)
qed

text \<open>
  C33. From start to end the process keeps the tables consistent: whatever the environment
  says, whatever the migration library and the server answer, whatever requests come to
  either listener and however the process ends, the constraints of the schema and the links
  between the tables hold at the end if they held before, given that migrating a database
  leaves the rows that are there alone.
\<close>

theorem process_invariant:
  assumes "migrations_ok ci D" "pg_inv ci (db w)" "linked (pg_view (db w))"
    and "Startup.main E D ci env order rs ev w = (status, w')"
  shows "pg_inv ci (db w') \<and> linked (pg_view (db w'))"
proof -
  obtain r w1 where su: "start_up E D ci (Load env) w = (r, w1)" by fastforce
  have s1: "safe pg_view (pg_inv ci) w w1" by (rule start_up_safe [OF assms(1,2) su])
  have i1: "pg_inv ci (db w1)" "linked (pg_view (db w1))" using pg.safe_iv [OF s1] pg.safe_linked [OF s1 assms(3)] .
  show ?thesis
  proof (cases r)
    case (Inl e)
    then show ?thesis using assms(4) su i1 by (auto simp: main_def run_def)
  next
    case (Inr servers)
    have on: "\<forall>srv \<in> set servers. on_store ci srv" using start_up_on_store su Inr by blast
    obtain servers' w2 where d: "deliver_all E rs (servers, start_logs servers order w1) = (servers', w2)" by fastforce
    have "safe pg_view (pg_inv ci) (start_logs servers order w1) w2 \<and> linked (pg_view (db w2))"
      using i1 by (intro deliver_all_safe [OF _ _ on d]) simp_all
    moreover obtain o3 w3 where f: "finish ev servers' w2 = (o3, w3)" by fastforce
    moreover have "db w3 = db w2" using f by (metis finish_db snd_conv)
    moreover have "db w' = db w3"
      using assms(4) su Inr d f by (cases o3) (auto simp: main_def run_def split: option.splits)
    ultimately show ?thesis by (simp add: safe_def)
  qed
qed

theorem process_invariant_witness:
  "pg_inv id (db (snd (Startup.main toy_ext demo_driver id (\<lambda>k. if k = ''CCC_DB_HOST'' then ''db'' else []) [0]
     [(0, demo_request ''GET'' ''/readyz'' [] [])] GotSignal (demo_world demo_pg))))"
  by (rule process_invariant [OF demo_driver_ok(1) _ _ surjective_pairing, THEN conjunct1]) (simp_all add: demo_pg_inv demo_linked)

text \<open>
  C34. The health checks: the liveness check always answers 200; the readiness check answers
  200 without a database, and with one it answers 200 if the server answers the ping and 503
  if it does not; none of them changes a table.
\<close>

theorem health_checks:
  assumes "rq_Method r = ''GET''"
  shows "(rq_Path r = ''/healthz'' \<longrightarrow> ops_ServeHTTP st r (w :: Pg world) = (Reply plain_ok, w)) \<and>
    (rq_Path r = ''/readyz'' \<longrightarrow> ops_ServeHTTP None r w = (Reply plain_ok, w) \<and>
      (\<exists>resp w'. ops_ServeHTTP (Some (Pg_Store ci)) r w = (Reply resp, w') \<and>
         rs_Status resp = (if shd (pg_net (db w)) = NetOk then 200 else 503) \<and> pg_view (db w') = pg_view (db w)))"
proof -
  have paths: "cleanPath ''/healthz'' = ''/healthz''" "cleanPath ''/readyz'' = ''/readyz''"
    "path_segs ''/healthz'' = [''healthz'']" "path_segs ''/readyz'' = [''readyz'']" by code_simp+
  show ?thesis
    by (auto simp: ops_ServeHTTP_def paths assms Let_def method_matches_def handle_healthz_def handle_readyz_def no_body_def
        plain_ok_def pg_sel Pg_Ping_def pg_exec_def pg_tick_def reply_err_def http_Error_def pg_view_def
        simp del: path_segs.simps split: Postgres_Store.outcome.splits)
qed

theorem health_checks_witness:
  "\<exists>resp w'. ops_ServeHTTP (Some (Pg_Store id)) (demo_request ''GET'' ''/readyz'' [] []) (demo_world demo_pg) = (Reply resp, w') \<and>
     rs_Status resp = 200"
  using health_checks [of "demo_request ''GET'' ''/readyz'' [] []" _ "demo_world demo_pg" id]
  by (auto simp: demo_request_def demo_pg_def)

section \<open>A new installation\<close>

text \<open>An environment with a database, a signing key and a bootstrap administrator.\<close>

definition demo_env :: environment where
  "demo_env k =
     (if k = ''CCC_DB_HOST'' then ''postgres''
      else if k = ''CCC_JWT_SIGNING_KEY'' then b64_encode StdEncoding (replicate 32 1)
      else if k = ''CCC_BOOTSTRAP_ADMIN'' then ''root''
      else if k = ''CCC_BOOTSTRAP_ADMIN_PASSWORD'' then ''hunter22'' else [])"

definition empty_pg :: Pg where
  "empty_pg = \<lparr>pg_users = [], pg_credentials = [], pg_tokens = [], pg_now = sconst 9000, pg_net = sconst NetOk\<rparr>"

lemma empty_pg_facts:
  "pg_sound id empty_pg" "pg_inv id empty_pg" "linked (pg_view empty_pg)" "a_users (pg_view empty_pg) = Map.empty"
  by (simp_all add: pg_sound_def pg_up_def pg_inv_def empty_pg_def pg_view_def by_key_def linked_def refs_ok_def rot_ok_def rotated_def acyclic_def)

lemma demo_env_key: "ParseSigningSeed (cf_JWTSigningKey (Load demo_env)) = Inr (replicate 32 1)"
proof -
  have "b64_encode StdEncoding (replicate 32 1) \<noteq> []" by (simp add: numeral_eq_Suc)
  then have "cf_JWTSigningKey (Load demo_env) = b64_encode StdEncoding (replicate 32 1)"
    by (simp add: Load_def getenv_def demo_env_def)
  then show ?thesis by (simp add: ParseSigningSeed_def b64_roundtrip good_encodings)
qed

lemma pg_no_users_no_tokens:
  assumes "pg_inv ci d" "a_users (pg_view d) = Map.empty"
  shows "a_toks (pg_view d) = Map.empty"
proof -
  have "pg_users d = []" using assms(2) by (simp add: pg_view_def by_key_def)
  then have "pg_tokens d = []" using assms(1) by (cases "pg_tokens d") (auto simp: pg_inv_def)
  then show ?thesis by (simp add: pg_view_def by_key_def)
qed

lemma default_hasher_sane: "sane_hasher (NewHasher DefaultParams 4)"
  by (simp add: sane_hasher_def NewHasher_def DefaultParams_def)

lemma open_store_succeeds:
  assumes "reachable_db ci D" "cf_DBHost cfg \<noteq> []"
  shows "\<exists>w'. open_store D ci cfg w = (Inr (Some (Pg_Store ci)), w') \<and> db w' = snd (dr_up D (db w))"
proof -
  obtain pool where "dr_pool_New D (DatabaseURL cfg) = Inr pool" "dr_pool_Ping D pool = None"
    using assms(1) unfolding reachable_db_def by blast
  then have "fst (Connect (dr_pool_New D) (dr_pool_Ping D) (DatabaseURL cfg)) = Inr pool" by (simp add: Connect_def)
  moreover obtain r p where up: "dr_up D (db w) = (r, p)" by fastforce
  moreover have "r \<noteq> UpFailed" using assms(1) up unfolding reachable_db_def by (metis fst_conv)
  ultimately show ?thesis
    using assms by (auto simp: open_store_def Migrate_def Let_def DatabaseURL_empty reachable_db_def split: prod.splits)
qed

text \<open>The start of the REST server on an empty store, and what the tables hold afterwards.\<close>

lemma rest_server_bootstraps:
  assumes sound: "pg_sound ci (db w)" and none: "a_users (pg_view (db w)) = Map.empty" and sup: "supplied w" and argon: "argon2_ok E"
    and seed: "ParseSigningSeed (cf_JWTSigningKey cfg) = Inr seed" "length seed = 32"
    and admin: "cf_BootstrapAdmin cfg \<noteq> []" "cf_BootstrapAdminPassword cfg \<noteq> []"
  obtains srv s ll rl issuer w1 u phc now where "rest_server E cfg (Pg_Store ci) w = (Inr srv, w1)" "hs_Handler srv = Rest s ll rl"
    "srv_svc s = Service_New (Pg_Store ci) (NewHasher DefaultParams 4) issuer (cf_RefreshTTL cfg)" "built E issuer"
    "pg_sound ci (db w1)" "supplied w1" "u_Username u = cf_BootstrapAdmin cfg" "u_Role u = RoleAdmin" "u_Status u = StatusActive"
    "hash_of E (NewHasher DefaultParams 4) (cf_BootstrapAdminPassword cfg) phc"
    "pg_view (db w1) = put_cred (u_ID u) phc True now (put_user u (pg_view (db w)))"
proof -
  let ?h = "NewHasher DefaultParams 4"
  obtain issuer where iss: "NewTokenIssuer E seed DefaultAccessTokenTTL = Inr issuer"
    using seed(2) by (simp add: NewTokenIssuer_def SeedSize_def Let_def)
  let ?svc = "Service_New (Pg_Store ci) ?h issuer (cf_RefreshTTL cfg)"
  have svc: "s_store ?svc = Pg_Store ci" "sane_hasher (s_hasher ?svc)" by (simp_all add: default_hasher_sane)
  obtain wb where boot: "Bootstrap E ?svc (cf_BootstrapAdmin cfg) (cf_BootstrapAdminPassword cfg) w = (Inr (), wb)"
      and sub: "sset (entropy wb) \<subseteq> sset (entropy w)" "sset (uuids wb) \<subseteq> sset (uuids w)"
    using pg_live.Bootstrap_succeeds [OF svc(1) sound sup argon svc(2) _ none admin] by blast
  note law = pg_live.Bootstrap_law [OF svc(1) sound _ boot]
  obtain u phc now now' where u: "u = new_user \<lparr>cp_Username = cf_BootstrapAdmin cfg, cp_DisplayName = cf_BootstrapAdmin cfg,
        cp_Role = RoleAdmin\<rparr> (u_ID u) now" "hash_of E ?h (cf_BootstrapAdminPassword cfg) phc"
      "pg_view (db wb) = put_cred (u_ID u) phc True now' (put_user u (pg_view (db w)))"
    using law(3) admin(1) none by auto
  have uf: "u_Username u = cf_BootstrapAdmin cfg" "u_Role u = RoleAdmin" "u_Status u = StatusActive"
    using u(1) by (metis user_fields CreateUserParams.select_convs)+
  obtain s sv where new: "New ?svc issuer \<lparr>sc_BasePath = cf_HTTPBasePath cfg, sc_CookieSecure = cf_CookieSecure cfg,
      sc_RefreshTTL = cf_RefreshTTL cfg\<rparr> wb = (s, sv)" by fastforce
  define w1 where "w1 = log_event Info ''REST API enabled'' [(''addr'', LogStr (cf_HTTPAddr cfg)),
    (''base_path'', LogStr (cf_HTTPBasePath cfg))] (sv_world sv)"
  have w1: "db w1 = db wb" "entropy w1 = entropy wb" "uuids w1 = uuids wb" using New_fields [OF new] by (simp_all add: w1_def)
  have run: "rest_server E cfg (Pg_Store ci) w = (Inr \<lparr>hs_Addr = cf_HTTPAddr cfg, hs_Handler = Rest s (sv_login sv) (sv_refresh sv),
      hs_ReadHeaderTimeout = 5 * Second\<rparr>, w1)"
    using seed(1) iss boot new by (simp add: rest_server_def w1_def)
  show thesis
  proof (rule that [OF run _ New_fields(1) [OF new] _ _ _ uf u(2)])
    show "built E issuer" using iss by (auto simp: built_def)
    show "pg_sound ci (db w1)" using pg_live.safe_iv [OF law(1)] w1 by simp
    show "supplied w1" using supplied_sub [OF sup sub] w1 by (simp add: supplied_def)
    show "pg_view (db w1) = put_cred (u_ID u) phc True now' (put_user u (pg_view (db w)))" using u(3) w1 by simp
  qed simp
qed

text \<open>
  C35. The first start of a new installation: with a database that can be reached and whose
  tables are empty, a well-formed signing key and a bootstrap administrator with a password,
  the start succeeds and serves the REST API and the operations listener, and the
  administrator logs in there with this password and is told to change it.
\<close>

theorem first_start:
  assumes "reachable_db ci D" "migrations_ok ci D" "pg_sound ci (db w)" "a_users (pg_view (db w)) = Map.empty"
    and "supplied w" "jwt_ok E" "argon2_ok E" "cf_DBHost cfg \<noteq> []"
    and "ParseSigningSeed (cf_JWTSigningKey cfg) = Inr seed" "length seed = 32"
    and "cf_BootstrapAdmin cfg \<noteq> []" "cf_BootstrapAdminPassword cfg \<noteq> []"
  shows "\<exists>srv ops s ll rl w1 sess w2. start_up E D ci cfg w = (Inr [srv, ops], w1) \<and> hs_Handler srv = Rest s ll rl \<and>
    Login E (srv_svc s) (cf_BootstrapAdmin cfg) (cf_BootstrapAdminPassword cfg) device w1 = (Inr sess, w2) \<and>
    ss_MustChange sess \<and> u_Username (ss_User sess) = cf_BootstrapAdmin cfg \<and> u_Role (ss_User sess) = RoleAdmin"
proof -
  obtain wa where op: "open_store D ci cfg w = (Inr (Some (Pg_Store ci)), wa)" and dba: "db wa = snd (dr_up D (db w))"
    using open_store_succeeds [OF assms(1,8)] by blast
  have snda: "pg_sound ci (db wa)" "pg_view (db wa) = pg_view (db w)"
    using assms(1-3) pg_sound_inv [OF assms(3)] dba by (auto simp: reachable_db_def migrations_ok_def)
  have supa: "supplied wa" using assms(5) open_store_frame [OF op] by (simp add: supplied_def)
  have none: "a_users (pg_view (db wa)) = Map.empty" using assms(4) snda by simp
  from snda(1) none supa assms(7,9-12) show ?thesis
  proof (rule rest_server_bootstraps)
    fix srv s ll rl issuer w1 u phc now
    assume run: "rest_server E cfg (Pg_Store ci) wa = (Inr srv, w1)" "hs_Handler srv = Rest s ll rl"
      and svc: "srv_svc s = Service_New (Pg_Store ci) (NewHasher DefaultParams 4) issuer (cf_RefreshTTL cfg)"
      and built: "built E issuer" and snd1: "pg_sound ci (db w1)" and sup1: "supplied w1"
      and u: "u_Username u = cf_BootstrapAdmin cfg" "u_Role u = RoleAdmin" "u_Status u = StatusActive"
        "hash_of E (NewHasher DefaultParams 4) (cf_BootstrapAdminPassword cfg) phc"
      and view1: "pg_view (db w1) = put_cred (u_ID u) phc True now (put_user u (pg_view (db wa)))"
    have key: "cf_JWTSigningKey cfg \<noteq> []" using assms(9,10) by (auto simp: ParseSigningSeed_def b64_decode_def)
    have "a_toks (pg_view (db w1)) = Map.empty"
      using pg_no_users_no_tokens [OF pg_sound_inv [OF snda(1)] none] view1 by (simp add: store_simps)
    then have fresh: "fresh_draws fresh_token_key E w1 (a_toks (pg_view (db w1)))"
      by (simp add: fresh_draws_def fresh_token_key_def)
    obtain sess w2 where "Login E (srv_svc s) (cf_BootstrapAdmin cfg) (cf_BootstrapAdminPassword cfg) device w1 = (Inr sess, w2)"
        "ss_User sess = u" "ss_MustChange sess"
      using pg_live.new_account_logs_in [of "srv_svc s", OF _ snd1 sup1 demo_fresh_any fresh assms(6) _ assms(7) _ u(1,3) _ view1]
        svc built u(4) default_hasher_sane by fastforce
    with run u key op show ?thesis by (auto simp: start_up_def rest_servers_def)
  qed
qed

theorem first_start_witness:
  "\<exists>srv ops w1. start_up toy_ext demo_driver id (Load demo_env) (demo_world empty_pg) = (Inr [srv, ops], w1)"
proof -
  have cfg: "cf_DBHost (Load demo_env) \<noteq> []" "cf_BootstrapAdmin (Load demo_env) \<noteq> []" "cf_BootstrapAdminPassword (Load demo_env) \<noteq> []"
    by (simp_all add: Load_def getenv_def demo_env_def)
  from first_start [OF demo_driver_ok(2,1) _ _ demo_supplied toy_jwt toy_argon2 cfg(1) demo_env_key _ cfg(2,3), of id empty_pg]
  show ?thesis using empty_pg_facts by fastforce
qed

end
