(* ===== verification/Spec2Isabelle.thy ===== *)
theory Spec2Isabelle
  imports Session_Flow Component_Theorems Semaphore Startup_Theorems
begin

text \<open>
  The account service: accounts, passwords, access tokens and refresh tokens behind a REST
  API (Go, module \<^verbatim>\<open>ccc-account-service\<close>).

  \<^bold>\<open>The program and the theories.\<close> A request enters \<^verbatim>\<open>internal/httpserver\<close>, which checks
  limits, tokens and bodies and calls \<^verbatim>\<open>internal/service\<close>; the service combines
  \<^verbatim>\<open>internal/auth\<close> (passwords, tokens) and \<^verbatim>\<open>internal/store\<close> (PostgreSQL, or the in-memory
  store of the tests); \<^verbatim>\<open>cmd/account-service\<close> puts them together from \<^verbatim>\<open>internal/config\<close>.

  \<^item> \<^verbatim>\<open>Prelude\<close>: bytes, instants, errors, the world of a request (store state, clock, entropy,
    ids, log) and package \<^verbatim>\<open>strings\<close>; \<^verbatim>\<open>Codec\<close>: base64 and decimal numbers; \<^verbatim>\<open>Durations\<close>:
    64-bit floats and package \<^verbatim>\<open>time\<close>; \<^verbatim>\<open>Url_Escape\<close>: percent-encoding.
  \<^item> \<^verbatim>\<open>Password\<close> and \<^verbatim>\<open>Semaphore\<close>: \<^verbatim>\<open>auth/password.go\<close>; \<^verbatim>\<open>Token\<close>: \<^verbatim>\<open>auth/token.go\<close> and
    \<^verbatim>\<open>auth/refresh.go\<close>.
  \<^item> \<^verbatim>\<open>Store\<close>: \<^verbatim>\<open>store/store.go\<close>, the abstract tables \<open>astore\<close> and the contracts of a store as
    locales: \<open>store_contract\<close> (what every operation does to the tables, whatever fails) and its
    extension \<open>reliable_store\<close> (no operation fails but for the documented reasons).
    \<^verbatim>\<open>Store_Machine\<close>: the steps of the abstract tables and what no sequence of them can undo.
  \<^item> \<^verbatim>\<open>Exchange_Sort\<close> and \<^verbatim>\<open>Fake_Store\<close>: \<^verbatim>\<open>store/storetest/fake.go\<close>; \<^verbatim>\<open>Postgres_Store\<close> and
    \<^verbatim>\<open>Postgres_Refines\<close>: \<^verbatim>\<open>store/postgres.go\<close> with its SQL statements over the schema. Each
    ends in the interpretations of the two locales.
  \<^item> \<^verbatim>\<open>Service\<close>: \<^verbatim>\<open>service/service.go\<close>; \<^verbatim>\<open>Service_Laws\<close>, \<^verbatim>\<open>Account_Laws\<close>, \<^verbatim>\<open>User_Frames\<close>: what
    its methods do over any store that keeps the contract; \<^verbatim>\<open>Service_Live\<close>, \<^verbatim>\<open>Account_Live\<close>:
    that they succeed over a reliable one; \<^verbatim>\<open>Requests\<close>: histories of calls.
  \<^item> \<^verbatim>\<open>Json_Body\<close>, \<^verbatim>\<open>Http_Message\<close>, \<^verbatim>\<open>Cookies\<close>, \<^verbatim>\<open>Rate_Limiter\<close>, \<^verbatim>\<open>Http_Server\<close>, \<^verbatim>\<open>Http_Routes\<close>:
    \<^verbatim>\<open>httpserver/*.go\<close> with the parts of \<^verbatim>\<open>encoding/json\<close> and \<^verbatim>\<open>net/http\<close> it calls;
    \<^verbatim>\<open>Http_Laws\<close>, \<^verbatim>\<open>Login_Limit\<close>: what a request can change, and the limiter in the server.
  \<^item> \<^verbatim>\<open>Config\<close>: \<^verbatim>\<open>config/config.go\<close>; \<^verbatim>\<open>Startup\<close>: \<^verbatim>\<open>cmd/account-service/main.go\<close> and
    \<^verbatim>\<open>store/migrate.go\<close>.
  \<^item> \<^verbatim>\<open>Toy_Ext\<close>, \<^verbatim>\<open>Demo\<close>: a concrete instance of the libraries and a small installation on which
    the witnesses are evaluated.

  \<^bold>\<open>How the code is translated.\<close> A struct is a record, a method a function with the Go name
  (with the prefix \<^verbatim>\<open>Pg_\<close>, \<^verbatim>\<open>Fake_\<close> or \<^verbatim>\<open>Service_\<close> where two types have one of that name). A
  method that can fail returns an error or a value together with the world it leaves. Errors
  the code drops are dropped; a panic or an endless loop is an error value that no caller
  handles. Each SQL statement is a function on the tables that checks the constraints of
  \<^verbatim>\<open>0001_init.up.sql\<close>; a stream says what becomes of it on the way: nothing, refused, not
  sent, or carried out with the answer lost. Loops over rotation chains (\<open>cte_loop\<close>,
  \<open>chain_loop\<close>) do not end on a cycle in the code, and their result is \<open>None\<close> then; that
  there are no cycles is part of the invariant \<open>linked\<close>. No fuel is used anywhere else.

  \<^bold>\<open>Parameters.\<close> Code outside the repository: argon2id, SHA-256, Ed25519, the JWT library and the
  UUID text form (records \<open>crypto\<close> and \<open>ext\<close>, with their documented behaviour in \<open>argon2_ok\<close>,
  \<open>jwt_ok\<close>, \<open>uuid_ok\<close>), the migration library and the connection pool (record \<open>driver\<close>), and the
  case folding \<open>ci\<close> of user names.

  \<^bold>\<open>What is shown.\<close> C1 to C8 (here): every history keeps the tables consistent; a dead refresh
  token stays dead; what rotation, reuse detection and login do, when they refuse and when
  they succeed. C9 to C17 (\<^verbatim>\<open>Account_Theorems\<close>): logout, sessions, passwords, accounts,
  bootstrap. C18, C19 (\<^verbatim>\<open>Rate_Limiter\<close>): the rate limiter. C20 to C27 (\<^verbatim>\<open>Http_Theorems\<close>): which
  bodies are accepted and what becomes of requests with others, cookies, authentication,
  authorisation, login limits, and the invariant under any HTTP requests. C28, C29 (\<^verbatim>\<open>Config\<close>): the database URL and the lifetime.
  C30, C31 (\<^verbatim>\<open>Semaphore\<close>): bounded memory and progress of concurrent hashing. C32 to C35
  (\<^verbatim>\<open>Startup_Theorems\<close>): modes, the invariant of the whole process, health checks, first start.
  C36 (\<^verbatim>\<open>Session_Flow\<close>): from login to refresh. C37 to C40 (\<^verbatim>\<open>Component_Theorems\<close>): the stores
  implement their contracts, password hashes and keys are read back, and temporary passwords
  are drawn nearly evenly.
  \<open>rotation_ignores_revocation\<close> (\<^verbatim>\<open>Session_Flow\<close>) shows a revocation that is lost when it falls
  into a concurrent refresh.

  \<^bold>\<open>Not modelled.\<close> Requests run one after the other, except for the calls of the hasher and the
  rotation just named: interleavings of statements of different requests are left out. The
  clock is any stream, so statements on time assume what they need of it. Deadlines and
  cancelled contexts appear as failing statements. The base path is assumed to be empty or a
  clean absolute path without wildcards. Texts of decoder errors, the bytes of JSON responses,
  the library's redirects and headers, TLS, sockets, the shutdown of a single server and the
  closing of the pool are outside. The gRPC package holds a comment only.
\<close>

section \<open>Histories\<close>

text \<open>
  C1. Over the PostgreSQL store, whatever statements fail, are refused or lose their answer,
  and whatever requests arrive in whatever order, the constraints of the schema keep holding
  and the tables stay linked: credentials and tokens belong to existing users, a rotated
  token is revoked and its successor exists and has the same owner, and no rotation chain
  ever closes to a cycle.
\<close>

theorem pg_history_invariant:
  assumes "pg_inv ci (db w)" "linked (pg_view (db w))"
  shows "pg_inv ci (db (serve_all E (pg_service ci h t d) qs w)) \<and>
    linked (pg_view (db (serve_all E (pg_service ci h t d) qs w)))"
  using pg.history_safe [OF _ assms draws_ok_True, of "pg_service ci h t d" E qs] by (simp add: safe_def)

theorem pg_history_invariant_witness:
  "pg_inv id (db (serve_all toy_ext demo_pg_service
      [QLogin ''alice'' ''correct horse'' [], QRefresh ''old'', QResetPassword 2] (demo_world demo_pg)))"
  by (rule pg_history_invariant [THEN conjunct1]) (simp_all add: demo_pg_inv demo_linked)

text \<open>
  C2. A refresh token that has been rotated or revoked never opens a session again: after any
  history of requests over the PostgreSQL store, with any faults, presenting it fails.
\<close>

theorem pg_dead_token_refused:
  assumes "pg_inv ci (db w)" "linked (pg_view (db w))"
    and "a_toks (pg_view (db w)) i = Some tok" "t_TokenHash tok = HashRefreshToken E refreshToken"
    and "t_RevokedAt tok \<noteq> None \<or> t_ReplacedBy tok \<noteq> None"
  shows "\<exists>e. fst (Refresh E (pg_service ci h t d) refreshToken (serve_all E (pg_service ci h t d) qs w)) = Inl e"
proof -
  have "dead (pg_view (db w)) i" using assms(3,5) by (auto simp: dead_def)
  from pg.history_refused [OF _ assms(1,2) draws_ok_True this assms(3,4), of "pg_service ci h t d" qs]
  show ?thesis by (simp add: isl_def)
qed

theorem pg_dead_token_refused_witness:
  "\<exists>e. fst (Refresh toy_ext demo_pg_service ''gone''
      (serve_all toy_ext demo_pg_service [QLogin ''alice'' ''correct horse'' []] (demo_world demo_pg))) = Inl e"
  by (rule pg_dead_token_refused [of _ _ 13 "demo_token 13 1 ''gone'' (Some 7000) None"])
     (simp_all add: demo_pg_inv demo_linked demo_toks)

section \<open>Rotation of refresh tokens\<close>

text \<open>
  C3. A refresh over the PostgreSQL store that returns a session had an unexpired, unrevoked,
  unrotated token of an active user. It adds exactly one row, for the returned session, under
  a free id and a free hash, owned by the same user and carried over to the same device, and
  marks exactly the presented token as revoked and replaced by it.
\<close>

theorem pg_refresh_rotates:
  assumes "pg_inv ci (db w)" "Refresh E (pg_service ci h t d) refreshToken w = (Inr sess, w')"
  shows "\<exists>tok user a now. a_toks (pg_view (db w)) (t_ID tok) = Some tok \<and>
    t_TokenHash tok = HashRefreshToken E refreshToken \<and> Active tok (shd (clock w)) \<and>
    a_users (pg_view (db w)) (t_UserID tok) = Some user \<and> u_Status user = StatusActive \<and> ss_User sess = user \<and>
    granted E (pg_service ci h t d) pg_ts user (device_of tok) sess (pg_view (db w)) a \<and>
    pg_view (db w') = put_tok (replace_at now (ss_TokenID sess) tok) a"
  using pg.Refresh_ok [OF _ assms(1) demo_fresh_any assms(2)] by simp

theorem pg_refresh_rotates_witness:
  "\<exists>sess w' a now tok. Refresh toy_ext demo_pg_service ''new'' (demo_world demo_pg) = (Inr sess, w') \<and>
     pg_view (db w') = put_tok (replace_at now (ss_TokenID sess) tok) a"
proof -
  obtain sess w' where run: "Refresh toy_ext demo_pg_service ''new'' (demo_world demo_pg) = (Inr sess, w')"
    using demo_refresh(1) by blast
  moreover have "\<exists>tok a now. pg_view (db w') = put_tok (replace_at now (ss_TokenID sess) tok) a"
    using pg_refresh_rotates [OF _ run] demo_pg_inv by auto
  ultimately show ?thesis by blast
qed

text \<open>
  C4. Reuse detection over a PostgreSQL server without faults: presenting a token that was
  rotated already yields no session, revokes every token of its rotation chain that is still
  alive, touches no other row, and logs the event.
\<close>

theorem pg_reuse_revokes_chain:
  assumes "pg_sound ci (db w)" "linked (pg_view (db w))"
    and "a_toks (pg_view (db w)) i = Some tok" "t_TokenHash tok = HashRefreshToken E refreshToken" "t_ReplacedBy tok \<noteq> None"
    and "Refresh E (pg_service ci h t d) refreshToken w = (r, w')"
  shows "r = Inl ErrInvalidSession \<and>
    (\<exists>now. pg_view (db w') = revoke_where (\<lambda>x. t_ID x \<in> chain (pg_view (db w)) i) now (pg_view (db w))) \<and>
    (\<forall>j x. a_toks (pg_view (db w')) j = Some x \<longrightarrow> j \<in> chain (pg_view (db w)) i \<longrightarrow> t_RevokedAt x \<noteq> None) \<and>
    logs w' = logs w @ [\<lparr>l_level = Warn, l_msg = ''refresh token reuse detected; chain revoked'',
      l_attrs = [(''event'', LogStr ''token_reuse''), (''user_id'', LogUUID (t_UserID tok))]\<rparr>]"
proof -
  note law = pg_live.Refresh_reuse_kills [OF _ assms, simplified]
  have id: "t_ID x = j" if "a_toks (pg_view (db w)) j = Some x" for j x
    using keyed_tok_ID [OF pg_live.keyed [OF assms(1)] that] .
  have "t_RevokedAt x \<noteq> None" if "a_toks (pg_view (db w')) j = Some x" "j \<in> chain (pg_view (db w)) i" for j x
    using law that id by (auto simp: store_simps)
  with law show ?thesis by blast
qed

theorem pg_reuse_revokes_chain_witness:
  "\<exists>w' x. Refresh toy_ext demo_pg_service ''old'' (demo_world demo_pg) = (Inl ErrInvalidSession, w') \<and>
     a_toks (pg_view (db w')) 12 = Some x \<and> t_RevokedAt x \<noteq> None"
proof -
  obtain r w' where run: "Refresh toy_ext demo_pg_service ''old'' (demo_world demo_pg) = (r, w')" by fastforce
  have ch: "12 \<in> chain demo_store 11" by (auto simp: chain_def demo_rotated)
  have pre: "pg_sound id (db (demo_world demo_pg))" "linked (pg_view (db (demo_world demo_pg)))"
    "a_toks (pg_view (db (demo_world demo_pg))) 11 = Some (demo_token 11 1 ''old'' (Some 5000) (Some 12))"
    using demo_pg_sound demo_linked demo_toks by simp_all
  note law = pg_reuse_revokes_chain [OF pre _ _ run, simplified]
  then obtain x where "a_toks (pg_view (db w')) 12 = Some x" using demo_toks(2) by (auto simp: store_simps)
  with law run ch show ?thesis by blast
qed

text \<open>
  C5. Progress of rotation: with a server that answers, working entropy and id sources and no
  collision of the new id or hash, presenting the active token of an active user does return
  a session.
\<close>

theorem pg_refresh_succeeds:
  assumes "pg_sound ci (db w)" "supplied w" "fresh_draws fresh_token_key E w (a_toks (pg_view (db w)))"
    and "jwt_ok E" "built E t"
    and "a_toks (pg_view (db w)) i = Some tok" "t_TokenHash tok = HashRefreshToken E refreshToken"
    and "Active tok (shd (clock w))" "a_users (pg_view (db w)) (t_UserID tok) = Some user" "u_Status user = StatusActive"
  shows "\<exists>sess w'. Refresh E (pg_service ci h t d) refreshToken w = (Inr sess, w') \<and> ss_User sess = user"
proof -
  obtain sess w' where run: "Refresh E (pg_service ci h t d) refreshToken w = (Inr sess, w')"
    using pg_live.Refresh_succeeds [OF _ assms(1,2) demo_fresh_any assms(3,4) _ assms(6-10), of "pg_service ci h t d"] assms(5)
    by auto
  from pg_live.Refresh_ok [OF _ assms(1) demo_fresh_any run] obtain tok' where
    "a_toks (pg_view (db w)) (t_ID tok') = Some tok'" "t_TokenHash tok' = HashRefreshToken E refreshToken"
    "a_users (pg_view (db w)) (t_UserID tok') = Some (ss_User sess)" by auto
  with assms(6,7,9) keyed_hash_unique [OF pg_live.keyed [OF assms(1)]] have "ss_User sess = user"
    by (metis option.inject)
  with run show ?thesis by blast
qed

theorem pg_refresh_succeeds_witness:
  "\<exists>sess w'. Refresh toy_ext demo_pg_service ''new'' (demo_world demo_pg) = (Inr sess, w') \<and> ss_User sess = demo_alice"
  by (rule pg_refresh_succeeds [of id _ _ _ 12 "demo_token 12 1 ''new'' None None"])
     (simp_all add: demo_pg_sound demo_supplied demo_fresh toy_jwt demo_built demo_toks demo_active demo_users demo_alice_fields)

section \<open>Login\<close>

text \<open>The \<^verbatim>\<open>CHECK\<close> on roles makes every stored role ASCII, which the JWT library returns as it is.\<close>

lemma pg_role_ascii: "pg_inv ci d \<Longrightarrow> a_users (pg_view d) i = Some u \<Longrightarrow> is_ascii (u_Role u)"
  by (auto simp: pg_inv_def pg_view_def by_key_Some check_role_def is_ascii_def)

text \<open>
  C6. A login over the PostgreSQL store that returns a session was for an existing, active
  account of that name (up to case) whose stored hash verifies with the given password. It
  adds exactly the row of the returned session; the only other change it may make is to
  replace the credential by a fresh hash of the same password, and only when verification
  asked for it.
\<close>

theorem pg_login_sound:
  assumes "pg_inv ci (db w)" "Login E (pg_service ci h t d) username password device w = (Inr sess, w')"
  shows "\<exists>user cred b a. a_users (pg_view (db w)) (u_ID user) = Some user \<and> ci (u_Username user) = ci username \<and>
    a_creds (pg_view (db w)) (u_ID user) = Some cred \<and> Verify E h password (c_PasswordHash cred) = Inr b \<and>
    u_Status user = StatusActive \<and> ss_User sess = user \<and> ss_MustChange sess = c_MustChange cred \<and>
    (a = pg_view (db w) \<or> (\<exists>phc now. b \<and> hash_of E h password phc \<and>
        a = put_cred (u_ID user) phc (c_MustChange cred) now (pg_view (db w)))) \<and>
    granted E (pg_service ci h t d) pg_ts user device sess a (pg_view (db w'))"
  using pg.Login_ok [OF _ assms(1) demo_fresh_any assms(2)] by simp

theorem pg_login_sound_witness:
  "\<exists>sess w' user. Login toy_ext demo_pg_service ''alice'' ''correct horse'' [] (demo_world demo_pg) = (Inr sess, w') \<and>
     ss_User sess = user \<and> u_Status user = StatusActive"
proof -
  obtain sess w' where run: "Login toy_ext demo_pg_service ''alice'' ''correct horse'' [] (demo_world demo_pg) = (Inr sess, w')"
    using demo_login(1) by blast
  moreover have "u_Status (ss_User sess) = StatusActive"
    using pg_login_sound [OF _ run] demo_pg_inv by auto
  ultimately show ?thesis by blast
qed

text \<open>
  C7. Whoever is not admitted changes nothing: if no active account of that name verifies with
  the password, the login fails and every table is as before, whatever the reason (unknown
  user, missing credential, wrong password, disabled account, fault of the store).
\<close>

theorem pg_login_refused:
  assumes "pg_inv ci (db w)"
    and "\<And>user cred b. \<lbrakk>a_users (pg_view (db w)) (u_ID user) = Some user; ci (u_Username user) = ci username;
      a_creds (pg_view (db w)) (u_ID user) = Some cred; Verify E h password (c_PasswordHash cred) = Inr b\<rbrakk> \<Longrightarrow>
      u_Status user \<noteq> StatusActive"
    and "Login E (pg_service ci h t d) username password device w = (r, w')"
  shows "isl r \<and> pg_view (db w') = pg_view (db w)"
  by (rule pg.Login_refused [OF _ assms(1) _ assms(3)]) (use assms(2) in simp_all)

theorem pg_login_refused_witness:
  "\<exists>r w'. Login toy_ext demo_pg_service ''bob'' ''correct horse'' [] (demo_world demo_pg) = (r, w') \<and> isl r \<and>
     pg_view (db w') = demo_store"
proof -
  obtain r w' where run: "Login toy_ext demo_pg_service ''bob'' ''correct horse'' [] (demo_world demo_pg) = (r, w')"
    by fastforce
  have "u_Status user \<noteq> StatusActive"
    if "a_users (pg_view (db (demo_world demo_pg))) (u_ID user) = Some user" "id (u_Username user) = id ''bob''" for user
    using that by (auto simp: demo_store_def demo_alice_fields demo_bob_fields StatusActive_def StatusDisabled_def split: if_splits)
  with pg_login_refused [OF _ _ run] demo_pg_inv have "isl r \<and> pg_view (db w') = demo_store" by simp
  with run show ?thesis by blast
qed

text \<open>
  C8. The right password of an active account does log in, over a server that answers and
  with working entropy and id sources. The session is stored as issued at some instant, and
  the access token returned with it verifies with the service's own key, names the user and
  carries exactly the user's role, from then until the end of its lifetime.
\<close>

theorem pg_login_succeeds:
  assumes "pg_sound ci (db w)" "supplied w" "fresh_draws fresh_token_key E w (a_toks (pg_view (db w)))"
    and "jwt_ok E" "built E t" "argon2_ok E" "sane_hasher h"
    and "a_users (pg_view (db w)) i = Some user" "ci (u_Username user) = ci username" "u_Status user = StatusActive"
    and "a_creds (pg_view (db w)) i = Some cred" "Verify E h password (c_PasswordHash cred) = Inr b"
  shows "\<exists>sess w' row now. Login E (pg_service ci h t d) username password device w = (Inr sess, w') \<and>
    ss_User sess = user \<and> a_toks (pg_view (db w')) (ss_TokenID sess) = Some row \<and>
    t_TokenHash row = HashRefreshToken E (ss_RefreshToken sess) \<and> t_IssuedAt row = pg_ts now \<and>
    (\<forall>w2 :: Pg world. shd (clock w2) < (now + ti_ttl t) div Second * Second \<longrightarrow>
       (\<exists>c. fst (TokenIssuer_Verify E t (ss_AccessToken sess) w2) = Inr c \<and>
          cl_Subject c = uuid_String E (u_ID user) \<and> cl_Roles c = [u_Role user]))"
proof -
  obtain sess w' where run: "Login E (pg_service ci h t d) username password device w = (Inr sess, w')"
    using pg_live.Login_succeeds [OF _ assms(1,2) demo_fresh_any assms(3,4) _ assms(6) _ assms(8-11),
        of "pg_service ci h t d" password b device] assms(5,7,12) by auto
  have inv: "pg_inv ci (db w)" using assms(1) by (rule pg_sound_inv)
  from pg.Login_ok [OF _ inv demo_fresh_any run] obtain user' a where
    user': "a_users (pg_view (db w)) (u_ID user') = Some user'" "ci (u_Username user') = ci username" "ss_User sess = user'"
      and gr: "granted E (pg_service ci h t d) pg_ts user' device sess a (pg_view (db w'))" by auto
  have "user' = user"
    using keyed_username_unique [OF pg_live.keyed [OF assms(1)] user'(1) assms(8)] user'(1,2) assms(8,9) by simp
  moreover have "is_ascii (u_Role user')" using pg_role_ascii [OF inv user'(1)] .
  ultimately show ?thesis using run user' granted_Verify [OF gr assms(4)] assms(5) by fastforce
qed

theorem pg_login_succeeds_witness:
  "\<exists>sess w'. Login toy_ext demo_pg_service ''alice'' ''correct horse'' [] (demo_world demo_pg) = (Inr sess, w') \<and>
     ss_User sess = demo_alice"
proof -
  have "\<exists>sess w' row now. Login toy_ext demo_pg_service ''alice'' ''correct horse'' [] (demo_world demo_pg) = (Inr sess, w') \<and>
    ss_User sess = demo_alice \<and> a_toks (pg_view (db w')) (ss_TokenID sess) = Some row \<and>
    t_TokenHash row = HashRefreshToken toy_ext (ss_RefreshToken sess) \<and> t_IssuedAt row = pg_ts now \<and>
    (\<forall>w2 :: Pg world. shd (clock w2) < (now + ti_ttl demo_issuer) div Second * Second \<longrightarrow>
       (\<exists>c. fst (TokenIssuer_Verify toy_ext demo_issuer (ss_AccessToken sess) w2) = Inr c \<and>
          cl_Subject c = uuid_String toy_ext (u_ID demo_alice) \<and> cl_Roles c = [u_Role demo_alice]))"
    by (rule pg_login_succeeds [of id _ _ _ _ 1 demo_alice _ "demo_cred 1" _ False])
       (simp_all add: demo_pg_sound demo_supplied demo_fresh toy_jwt demo_built toy_argon2 demo_sane demo_users
         demo_alice_fields demo_creds demo_cred_def demo_verify)
  then show ?thesis by blast
qed

end
